theory Spec2Isabelle
  imports Complex_Main "HOL-Library.AList"
begin

text \<open>
  A shallow embedding of the message agent host: its strings, the heartbeat payload,
  the completeness rule, the recovery notifier, the task store and task recovery, the
  segmented history store, slash dispatch, the tool-use loop and the normal pipeline of
  the agent service. Strings of the program are modelled as \<^typ>\<open>string\<close>, one
  \<^typ>\<open>char\<close> per code unit (the code units below 256). Promises are run to completion:
  a rejected promise or a thrown exception is the \<open>Inl\<close> branch of a sum. What the
  environment returns (clock readings, the number of bytes written, the answers of
  channels, language model, tools and verifier) is an input.
\<close>

section \<open>Strings\<close>

text \<open>
  The string operations of the host language that the modelled code calls.
  \<^verbatim>\<open>trim\<close>, \<^verbatim>\<open>trimEnd\<close> and the regular expression class \<^verbatim>\<open>\s\<close> remove white space and
  line terminators; below 256 these are the code units 9 to 13, 32 and 160.
\<close>

definition isWhiteSpace :: "char \<Rightarrow> bool" where
  "isWhiteSpace c = (of_char c \<in> {9, 10, 11, 12, 13, 32, 160 :: nat})"

definition trimStart :: "string \<Rightarrow> string" where
  "trimStart s = dropWhile isWhiteSpace s"

definition trimEnd :: "string \<Rightarrow> string" where
  "trimEnd s = rev (dropWhile isWhiteSpace (rev s))"

definition trim :: "string \<Rightarrow> string" where
  "trim s = trimEnd (trimStart s)"

definition startsWith :: "string \<Rightarrow> string \<Rightarrow> bool" where
  "startsWith s p = (take (length p) s = p)"

definition endsWith :: "string \<Rightarrow> string \<Rightarrow> bool" where
  "endsWith s p = (length p \<le> length s \<and> drop (length s - length p) s = p)"

text \<open>
  Regular expressions are matched by small combinators: a matcher returns the rest of
  the input after each way of matching a prefix. With the flag \<^verbatim>\<open>i\<close> (and without
  \<^verbatim>\<open>u\<close>) two code units match when their upper-case forms agree, and a code unit
  from 128 on never matches an ASCII one; against the ASCII patterns of this program
  that is equality after mapping \<^verbatim>\<open>a\<close>..\<^verbatim>\<open>z\<close> to \<^verbatim>\<open>A\<close>..\<^verbatim>\<open>Z\<close>.
\<close>

type_synonym matcher = "string \<Rightarrow> string list"

definition canonicalize :: "char \<Rightarrow> char" where
  "canonicalize c =
     (let n = (of_char c :: nat) in if 97 \<le> n \<and> n \<le> 122 then char_of (n - 32) else c)"

definition lit_i :: "string \<Rightarrow> matcher" where
  "lit_i p s =
     (if length p \<le> length s \<and> map canonicalize (take (length p) s) = map canonicalize p
      then [drop (length p) s] else [])"

definition alt :: "matcher list \<Rightarrow> matcher" where
  "alt ms s = concat (map (\<lambda>m. m s) ms)"

definition seq :: "matcher \<Rightarrow> matcher \<Rightarrow> matcher" where
  "seq m1 m2 s = concat (map m2 (m1 s))"

definition test :: "matcher \<Rightarrow> string \<Rightarrow> bool" where
  \<comment> \<open>\<^verbatim>\<open>pattern.test(s)\<close> for a pattern anchored with \<^verbatim>\<open>^\<close>\<close>
  "test m s = (m s \<noteq> [])"

section \<open>Completeness rule of the rule verifier\<close>

datatype VerificationRating = GOOD | NEEDS_FIX | REDO

record VerificationResult =
  passed :: bool
  rating :: VerificationRating
  feedback :: string
  confidence :: real

definition fail :: "string \<Rightarrow> string \<Rightarrow> VerificationRating \<Rightarrow> VerificationResult" where
  "fail rule fb r = \<lparr> passed = False, rating = r, feedback = fb, confidence = 1 \<rparr>"

text \<open>
  \<^verbatim>\<open>/^I('m| am) (sorry|afraid|unable)/i\<close> and \<^verbatim>\<open>/^I can('t|not) (help|assist|do)/i\<close>.
\<close>

definition refusalPatterns :: "matcher list" where
  "refusalPatterns =
     [seq (lit_i ''I'')
        (seq (alt [lit_i [CHR 0x27, CHR ''m''], lit_i '' am''])
          (seq (lit_i '' '') (alt [lit_i ''sorry'', lit_i ''afraid'', lit_i ''unable'']))),
      seq (lit_i ''I can'')
        (seq (alt [lit_i [CHR 0x27, CHR ''t''], lit_i ''not''])
          (seq (lit_i '' '') (alt [lit_i ''help'', lit_i ''assist'', lit_i ''do''])))]"

text \<open>
  \<^verbatim>\<open>/[.!?\n`")\]]$/\<close>: without the flag \<^verbatim>\<open>m\<close> the anchor \<^verbatim>\<open>$\<close> is the end of the
  input, so the pattern matches when the last code unit is in the class.
\<close>

definition terminators :: "char list" where
  "terminators =
     [CHR ''.'', CHR ''!'', CHR ''?'', CHR 0x0A, CHR 0x60, CHR 0x22, CHR '')'', CHR '']'']"

definition endsWithTerminator :: "string \<Rightarrow> bool" where
  "endsWithTerminator s = (s \<noteq> [] \<and> last s \<in> set terminators)"

definition completenessRule :: "string \<Rightarrow> string \<Rightarrow> VerificationResult option" where
  "completenessRule request response =
     (if response = [] \<or> length (trim response) = 0
      then Some (fail ''completeness'' ''Response is empty'' REDO)
      else if list_ex (\<lambda>pattern. test pattern (trim response)) refusalPatterns
      then Some (fail ''completeness'' ''Response appears to be a refusal'' NEEDS_FIX)
      else if length response > 100 \<and> \<not> endsWithTerminator (trimEnd response)
      then Some (fail ''completeness'' ''Response appears truncated mid-sentence'' NEEDS_FIX)
      else None)"

section \<open>Heartbeat payload (HeartbeatService.buildPayload)\<close>

text \<open>
  The channel statuses reach the heartbeat service as plain strings (its
  \<^verbatim>\<open>ChannelStatusProvider\<close> declares \<^verbatim>\<open>status: string\<close>).
\<close>

record ChannelInfo =
  ci_id :: string
  ci_type :: string
  ci_status :: string
  ci_error :: "string option"

datatype HeartbeatStatus = ok | degraded | error

record HeartbeatPayload =
  hb_pid :: nat
  hb_timestamp :: int
  hb_uptimeSeconds :: int
  hb_status :: HeartbeatStatus
  hb_channels :: "ChannelInfo list"
  hb_memoryMB :: int

text \<open>
  The process values read by \<^verbatim>\<open>buildPayload\<close> (\<^verbatim>\<open>process.pid\<close>, \<^verbatim>\<open>Date.now()\<close>,
  \<^verbatim>\<open>Math.floor(process.uptime())\<close>, the rounded heap size) are inputs of the model.
\<close>

record ProcessInfo =
  pi_pid :: nat
  pi_now :: int
  pi_uptime :: int
  pi_heapMB :: int

definition buildPayload :: "ProcessInfo \<Rightarrow> ChannelInfo list \<Rightarrow> HeartbeatPayload" where
  "buildPayload p chs =
     (let allConnected = (length chs > 0 \<and> list_all (\<lambda>c. ci_status c = ''connected'') chs);
          anyError = list_ex (\<lambda>c. ci_status c = ''error'') chs;
          st = (if anyError then error
                else if \<not> allConnected \<and> length chs > 0 then degraded
                else ok)
      in \<lparr> hb_pid = pi_pid p, hb_timestamp = pi_now p, hb_uptimeSeconds = pi_uptime p,
           hb_status = st, hb_channels = chs, hb_memoryMB = pi_heapMB p \<rparr>)"

section \<open>Channels and outgoing messages\<close>

record OutgoingMessage =
  om_text :: string
  om_replyToMessageId :: "string option"

text \<open>
  The channel manager and the channels behind it are the environment of the services
  below: \<open>getChannel\<close> gives the type of a registered channel (\<open>None\<close> for
  \<^verbatim>\<open>undefined\<close>), and \<open>sendMessage\<close> says how the send of a channel ends: \<open>None\<close>
  when the promise resolves, \<open>Some e\<close> when it rejects, with \<open>e\<close> the text of
  \<^verbatim>\<open>String(err)\<close>. Its first argument is the number of sends attempted before,
  so that two sends of the same message may end differently.
\<close>

record Channels =
  getChannel :: "string \<Rightarrow> string option"
  sendMessage :: "nat \<Rightarrow> string \<Rightarrow> string \<Rightarrow> OutgoingMessage \<Rightarrow> string option"

record SendRecord =
  sr_channelId :: string
  sr_conversationId :: string
  sr_message :: OutgoingMessage
  sr_error :: "string option"

definition attempt :: "Channels \<Rightarrow> SendRecord list \<Rightarrow> string \<Rightarrow> string \<Rightarrow> OutgoingMessage \<Rightarrow> SendRecord" where
  "attempt ch sent channelId conversationId msg =
     \<lparr> sr_channelId = channelId, sr_conversationId = conversationId, sr_message = msg,
       sr_error = sendMessage ch (length sent) channelId conversationId msg \<rparr>"

section \<open>Numbers and lines of text\<close>

fun digits :: "nat \<Rightarrow> string" where
  "digits n = (if n < 10 then [char_of (48 + n)] else digits (n div 10) @ [char_of (48 + n mod 10)])"

definition numberToString :: "int \<Rightarrow> string" where
  \<comment> \<open>an integer in a template literal\<close>
  "numberToString i = (if i < 0 then CHR ''-'' # digits (nat (- i)) else digits (nat i))"

fun join :: "string \<Rightarrow> string list \<Rightarrow> string" where
  "join sep [] = []"
| "join sep [x] = x"
| "join sep (x # y # ys) = x @ sep @ join sep (y # ys)"

fun indexOf :: "string \<Rightarrow> char \<Rightarrow> nat option" where
  \<comment> \<open>\<open>None\<close> for the result -1\<close>
  "indexOf [] c = None"
| "indexOf (x # xs) c = (if x = c then Some 0 else map_option Suc (indexOf xs c))"

section \<open>Recovery notifier (RecoveryNotifier.checkAndNotify)\<close>

record RecoveryEvent =
  re_timestamp :: int
  re_reason :: string
  re_restartCount :: int
  re_watchdogPid :: int

text \<open>
  What reading and parsing the recovery-event file gives: an exception of
  \<^verbatim>\<open>readFileSync\<close> or \<^verbatim>\<open>JSON.parse\<close>, the JSON value \<^verbatim>\<open>null\<close>, an event object as the
  watchdog writes it, or another JSON value. The type assertion \<^verbatim>\<open>as RecoveryEvent\<close>
  checks nothing, so with another value the code goes on with what its conversions make
  of the three properties it reads: \<^verbatim>\<open>Date.now() - event.timestamp\<close> converts the
  property to a number, and the template literal converts \<^verbatim>\<open>event.reason\<close> and
  \<^verbatim>\<open>event.restartCount\<close> to text. A property that is missing is \<^verbatim>\<open>undefined\<close>: not a
  number, and the text \<^verbatim>\<open>undefined\<close>. A conversion throws a TypeError when the property
  holds an object that has no primitive value (a JSON object with a key \<^verbatim>\<open>toString\<close>);
  that is \<open>None\<close> here. A number is taken to be a whole number of milliseconds.
\<close>

datatype JsNumber = NotANumber | WholeNumber int

record Conversions =
  cv_timestamp :: "JsNumber option"
  cv_reason :: "string option"
  cv_restartCount :: "string option"

datatype RecoveryFile = Unparseable | JsonNull | JsonEvent RecoveryEvent | JsonOther Conversions

record NotifierState =
  ns_eventFile :: "RecoveryFile option"
  ns_sent :: "SendRecord list"

text \<open>The bullet U+2022 is written as the three bytes the source file stores for it.\<close>

definition bullet :: string where
  "bullet = [CHR 0xE2, CHR 0x80, CHR 0xA2]"

definition recoveryMessage :: "RecoveryEvent \<Rightarrow> int \<Rightarrow> string \<Rightarrow> string" where
  \<comment> \<open>\<open>now\<close> is \<^verbatim>\<open>Date.now()\<close>, \<open>nowIso\<close> is \<^verbatim>\<open>new Date().toISOString()\<close>;
      \<^verbatim>\<open>Math.round(d / 1000)\<close> of an integer \<open>d\<close> is \<open>(d + 500) div 1000\<close>\<close>
  "recoveryMessage event now nowIso =
     (let downtime = (now - re_timestamp event + 500) div 1000 in
      join [CHR 0x0A]
        [''**Bot Recovered**'',
         ''The bot was automatically restarted by the watchdog.'',
         bullet @ '' Reason: '' @ re_reason event,
         bullet @ '' Restart #'' @ numberToString (re_restartCount event) @ '' in current window'',
         bullet @ '' Downtime: ~'' @ numberToString downtime @ ''s'',
         bullet @ '' Recovered at: '' @ nowIso])"

definition downtimeText :: "JsNumber \<Rightarrow> int \<Rightarrow> string" where
  \<comment> \<open>the text of \<^verbatim>\<open>Math.round((Date.now() - timestamp) / 1000)\<close>\<close>
  "downtimeText timestamp now =
     (case timestamp of
        NotANumber \<Rightarrow> ''NaN''
      | WholeNumber ms \<Rightarrow> numberToString ((now - ms + 500) div 1000))"

definition otherMessage :: "JsNumber \<Rightarrow> string \<Rightarrow> string \<Rightarrow> int \<Rightarrow> string \<Rightarrow> string" where
  \<comment> \<open>the same message, from the converted properties of a value that is not an event\<close>
  "otherMessage timestamp reason restartCount now nowIso =
     join [CHR 0x0A]
       [''**Bot Recovered**'',
        ''The bot was automatically restarted by the watchdog.'',
        bullet @ '' Reason: '' @ reason,
        bullet @ '' Restart #'' @ restartCount @ '' in current window'',
        bullet @ '' Downtime: ~'' @ downtimeText timestamp now @ ''s'',
        bullet @ '' Recovered at: '' @ nowIso]"

definition cleanup :: "NotifierState \<Rightarrow> NotifierState" where
  \<comment> \<open>\<^verbatim>\<open>unlinkSync\<close>, its exception swallowed when the file is gone\<close>
  "cleanup st = st\<lparr> ns_eventFile := None \<rparr>"

fun notifyTargetsLoop :: "Channels \<Rightarrow> string \<Rightarrow> string list \<Rightarrow> SendRecord list \<Rightarrow> SendRecord list" where
  "notifyTargetsLoop ch message [] sent = sent"
| "notifyTargetsLoop ch message (target # targets) sent =
     (case indexOf target (CHR '':'') of
        None \<Rightarrow> notifyTargetsLoop ch message targets sent
      | Some sepIdx \<Rightarrow>
          (let channelId = take sepIdx target;
               conversationId = drop (sepIdx + 1) target
           in case getChannel ch channelId of
                None \<Rightarrow> notifyTargetsLoop ch message targets sent
              | Some _ \<Rightarrow>
                  notifyTargetsLoop ch message targets
                    (sent @ [attempt ch sent channelId conversationId
                               \<lparr> om_text = message, om_replyToMessageId = None \<rparr>])))"

text \<open>
  \<open>Inl\<close> is the rejection of the promise: reading \<^verbatim>\<open>event.timestamp\<close> of \<^verbatim>\<open>null\<close>
  throws a TypeError outside the \<^verbatim>\<open>try\<close> block, before any cleanup, and so does a
  conversion that fails (the timestamp is converted first, then the reason, then the
  restart count).
\<close>

definition checkAndNotify ::
  "Channels \<Rightarrow> string list \<Rightarrow> int \<Rightarrow> string \<Rightarrow> NotifierState \<Rightarrow> string + NotifierState" where
  "checkAndNotify ch notifyTargets now nowIso st =
     (if length notifyTargets = 0 then Inr st
      else case ns_eventFile st of
        None \<Rightarrow> Inr st
      | Some Unparseable \<Rightarrow> Inr (cleanup st)
      | Some JsonNull \<Rightarrow> Inl ''TypeError: Cannot read properties of null (reading 'timestamp')''
      | Some (JsonEvent event) \<Rightarrow>
          Inr (cleanup (st\<lparr> ns_sent :=
                 notifyTargetsLoop ch (recoveryMessage event now nowIso) notifyTargets (ns_sent st) \<rparr>))
      | Some (JsonOther c) \<Rightarrow>
          (case cv_timestamp c of
             None \<Rightarrow> Inl ''TypeError: Cannot convert object to primitive value''
           | Some timestamp \<Rightarrow>
               (case cv_reason c of
                  None \<Rightarrow> Inl ''TypeError: Cannot convert object to primitive value''
                | Some reason \<Rightarrow>
                    (case cv_restartCount c of
                       None \<Rightarrow> Inl ''TypeError: Cannot convert object to primitive value''
                     | Some restartCount \<Rightarrow>
                         Inr (cleanup (st\<lparr> ns_sent :=
                                notifyTargetsLoop ch
                                  (otherMessage timestamp reason restartCount now nowIso)
                                  notifyTargets (ns_sent st) \<rparr>))))))"

text \<open>
  The files on which the code throws between parsing and cleanup: the value \<^verbatim>\<open>null\<close>, and
  a value one of whose three properties cannot be converted.
\<close>

fun throwsOnUse :: "RecoveryFile \<Rightarrow> bool" where
  "throwsOnUse Unparseable = False"
| "throwsOnUse JsonNull = True"
| "throwsOnUse (JsonEvent event) = False"
| "throwsOnUse (JsonOther c) =
     (cv_timestamp c = None \<or> cv_reason c = None \<or> cv_restartCount c = None)"

section \<open>Journal entries\<close>

datatype JournalEventType =
    task_received | pipeline_started | history_appended | llm_call_started
  | llm_call_completed | tool_call_started | tool_call_completed | verification_started
  | verification_result | response_sent | task_completed | task_failed | skill_dispatched

text \<open>The free-form \<^verbatim>\<open>data\<close> of an entry is kept as a list of keys and printed values.\<close>

record JournalEntry =
  je_ts :: string
  je_event :: JournalEventType
  je_taskId :: string
  je_channelId :: string
  je_conversationId :: string
  je_data :: "(string \<times> string) list"

section \<open>Task store (TaskPersistence) and task recovery (TaskRecoveryService)\<close>

datatype TaskPhase =
  received | history_written | llm_calling | verifying | responding | completed | failed

fun phaseName :: "TaskPhase \<Rightarrow> string" where
  "phaseName received = ''received''"
| "phaseName history_written = ''history_written''"
| "phaseName llm_calling = ''llm_calling''"
| "phaseName verifying = ''verifying''"
| "phaseName responding = ''responding''"
| "phaseName completed = ''completed''"
| "phaseName failed = ''failed''"

record OriginalMessage =
  orig_text :: string
  orig_senderId :: string
  orig_senderName :: "string option"
  orig_platformMessageId :: "string option"
  orig_timestamp :: int

record PersistedTask =
  pt_id :: string
  pt_channelId :: string
  pt_conversationId :: string
  pt_originalMessage :: OriginalMessage
  pt_phase :: TaskPhase
  pt_startedAt :: string
  pt_updatedAt :: string
  pt_error :: "string option"
  pt_pendingResponse :: "string option"

text \<open>
  A file of the task store either parses to a task or makes \<^verbatim>\<open>JSON.parse\<close> throw.
  \<open>rw_active\<close> is the directory \<^verbatim>\<open>tasks/active\<close>: file names with their contents, in
  the order \<^verbatim>\<open>readdirSync\<close> lists them. \<open>rw_completed\<close> is \<^verbatim>\<open>tasks/completed\<close>, from a
  date directory and a file name to the task written there. An atomic write (temporary
  file, then rename) is one update of the directory. The world of task recovery also
  holds the sends attempted, the journal entries logged and the number of times the
  clock has been read; \<open>renv_now k\<close> is the \<open>k\<close>-th reading of
  \<^verbatim>\<open>new Date().toISOString()\<close>.
\<close>

datatype TaskFile = Garbled | TaskJson PersistedTask

record RecoveryWorld =
  rw_active :: "(string \<times> TaskFile) list"
  rw_completed :: "string \<times> string \<rightharpoonup> PersistedTask"
  rw_sent :: "SendRecord list"
  rw_journal :: "JournalEntry list"
  rw_clock :: nat

record RecoveryEnv =
  renv_channels :: Channels
  renv_now :: "nat \<Rightarrow> string"
  renv_enabled :: bool
  renv_journal :: bool

definition readClock :: "RecoveryEnv \<Rightarrow> RecoveryWorld \<Rightarrow> string \<times> RecoveryWorld" where
  "readClock env w = (renv_now env (rw_clock w), w\<lparr> rw_clock := Suc (rw_clock w) \<rparr>)"

definition TaskPersistence_complete :: "RecoveryEnv \<Rightarrow> string \<Rightarrow> RecoveryWorld \<Rightarrow> RecoveryWorld" where
  "TaskPersistence_complete env taskId w =
     (if \<not> renv_enabled env then w
      else case map_of (rw_active w) (taskId @ ''.json'') of
        None \<Rightarrow> w
      | Some Garbled \<Rightarrow> w
      | Some (TaskJson task) \<Rightarrow>
          (let (t1, w1) = readClock env w;
               task' = task\<lparr> pt_updatedAt := t1 \<rparr>;
               (t2, w2) = readClock env w1;
               dateDir = take 10 t2
           in w2\<lparr> rw_completed := (rw_completed w2)((dateDir, taskId @ ''.json'') \<mapsto> task'),
                  rw_active := AList.delete (taskId @ ''.json'') (rw_active w2) \<rparr>))"

definition TaskPersistence_fail :: "RecoveryEnv \<Rightarrow> string \<Rightarrow> string \<Rightarrow> RecoveryWorld \<Rightarrow> RecoveryWorld" where
  "TaskPersistence_fail env taskId err w =
     (if \<not> renv_enabled env then w
      else case map_of (rw_active w) (taskId @ ''.json'') of
        None \<Rightarrow> w
      | Some Garbled \<Rightarrow> w
      | Some (TaskJson task) \<Rightarrow>
          (let (t, w1) = readClock env w;
               task' = task\<lparr> pt_phase := failed, pt_error := Some err, pt_updatedAt := t \<rparr>;
               w2 = w1\<lparr> rw_active := AList.update (taskId @ ''.json'') (TaskJson task') (rw_active w1) \<rparr>
           in TaskPersistence_complete env taskId w2))"

definition listActive :: "RecoveryEnv \<Rightarrow> RecoveryWorld \<Rightarrow> PersistedTask list" where
  "listActive env w =
     (if \<not> renv_enabled env then []
      else concat (map (\<lambda>(file, content). case content of TaskJson task \<Rightarrow> [task] | Garbled \<Rightarrow> [])
                    (filter (\<lambda>(file, content). endsWith file ''.json'') (rw_active w))))"

definition journalLog ::
  "RecoveryEnv \<Rightarrow> JournalEventType \<Rightarrow> string \<Rightarrow> string \<Rightarrow> string \<Rightarrow> (string \<times> string) list
     \<Rightarrow> RecoveryWorld \<Rightarrow> RecoveryWorld" where
  \<comment> \<open>\<^verbatim>\<open>this.journal?.log(...)\<close>: nothing without a journal; it never throws\<close>
  "journalLog env event taskId channelId conversationId data w =
     (if \<not> renv_journal env then w
      else let (t, w1) = readClock env w
           in w1\<lparr> rw_journal := rw_journal w1 @
                  [\<lparr> je_ts = t, je_event = event, je_taskId = taskId, je_channelId = channelId,
                     je_conversationId = conversationId, je_data = data \<rparr>] \<rparr>)"

definition send ::
  "RecoveryEnv \<Rightarrow> string \<Rightarrow> string \<Rightarrow> OutgoingMessage \<Rightarrow> RecoveryWorld
     \<Rightarrow> string \<times> RecoveryWorld + RecoveryWorld" where
  \<comment> \<open>\<^verbatim>\<open>await channel.sendMessage(...)\<close>: \<open>Inl\<close> carries the exception and the world it leaves\<close>
  "send env channelId conversationId msg w =
     (let r = attempt (renv_channels env) (rw_sent w) channelId conversationId msg;
          w' = w\<lparr> rw_sent := rw_sent w @ [r] \<rparr>
      in case sr_error r of None \<Rightarrow> Inr w' | Some e \<Rightarrow> Inl (e, w'))"

definition andThen ::
  "string \<times> RecoveryWorld + RecoveryWorld \<Rightarrow> (RecoveryWorld \<Rightarrow> RecoveryWorld)
     \<Rightarrow> string \<times> RecoveryWorld + RecoveryWorld" where
  "andThen r f = (case r of Inl e \<Rightarrow> Inl e | Inr w \<Rightarrow> Inr (f w))"

text \<open>The dash U+2014 of the disclaimer, as the three bytes the source file stores.\<close>

definition emDash :: string where
  "emDash = [CHR 0xE2, CHR 0x80, CHR 0x94]"

definition truthy :: "string option \<Rightarrow> bool" where
  \<comment> \<open>an optional string in a condition: present and not empty\<close>
  "truthy v = (case v of None \<Rightarrow> False | Some x \<Rightarrow> x \<noteq> [])"

text \<open>
  The \<^verbatim>\<open>switch\<close> of \<^verbatim>\<open>recoverTask\<close>, inside its \<^verbatim>\<open>try\<close> block: the notice to the user
  and the journal entry of the recorded phase.
\<close>

definition recoverNotice :: "RecoveryEnv \<Rightarrow> PersistedTask \<Rightarrow> RecoveryWorld \<Rightarrow> string \<times> RecoveryWorld + RecoveryWorld" where
  "recoverNotice env task w =
     (let channel = getChannel (renv_channels env) (pt_channelId task);
          replyTo = orig_platformMessageId (pt_originalMessage task);
          resend = \<lparr> om_text = ''Your message was interrupted during processing. Please resend it.'',
                     om_replyToMessageId = replyTo \<rparr>;
          pending = (case pt_pendingResponse task of None \<Rightarrow> [] | Some r \<Rightarrow> r);
          logged = (\<lambda>action. journalLog env task_failed (pt_id task) (pt_channelId task)
                      (pt_conversationId task)
                      [(''recovery'', ''true''), (''phase'', phaseName (pt_phase task)),
                       (''action'', action)])
      in if pt_phase task \<in> {received, history_written, llm_calling} then
           andThen (if channel \<noteq> None
                    then send env (pt_channelId task) (pt_conversationId task) resend w
                    else Inr w)
             (logged ''notify_resend'')
         else if pt_phase task = verifying then
           andThen (if truthy (pt_pendingResponse task) \<and> channel \<noteq> None
                    then send env (pt_channelId task) (pt_conversationId task)
                           \<lparr> om_text = ''[Recovered after interruption '' @ emDash @
                                 '' response may not have been fully verified]'' @
                                 [CHR 0x0A, CHR 0x0A] @ pending,
                              om_replyToMessageId = replyTo \<rparr> w
                    else if channel \<noteq> None
                    then send env (pt_channelId task) (pt_conversationId task) resend w
                    else Inr w)
             (logged (if truthy (pt_pendingResponse task) then ''sent_unverified'' else ''notify_resend''))
         else if pt_phase task = responding then
           andThen (if truthy (pt_pendingResponse task) \<and> channel \<noteq> None
                    then send env (pt_channelId task) (pt_conversationId task)
                           \<lparr> om_text = pending, om_replyToMessageId = replyTo \<rparr> w
                    else Inr w)
             (logged (if truthy (pt_pendingResponse task) then ''resent_response'' else ''no_response''))
         else Inr w)"

definition recoverTask :: "RecoveryEnv \<Rightarrow> PersistedTask \<Rightarrow> RecoveryWorld \<Rightarrow> RecoveryWorld" where
  "recoverTask env task w =
     (case recoverNotice env task w of
        Inr w1 \<Rightarrow> TaskPersistence_complete env (pt_id task) w1
      | Inl (err, w1) \<Rightarrow> TaskPersistence_fail env (pt_id task) (''Recovery failed: '' @ err) w1)"

definition recover :: "RecoveryEnv \<Rightarrow> RecoveryWorld \<Rightarrow> RecoveryWorld" where
  "recover env w =
     (let orphanedTasks = listActive env w
      in if length orphanedTasks = 0 then w else fold (recoverTask env) orphanedTasks w)"

text \<open>
  The active directory as \<^verbatim>\<open>persist\<close>, \<^verbatim>\<open>updatePhase\<close> and \<^verbatim>\<open>fail\<close> leave it when the
  process dies: each file is named after the id of the task it holds.
\<close>

definition orphanedTaskFiles :: "(string \<times> TaskFile) list \<Rightarrow> bool" where
  "orphanedTaskFiles al \<longleftrightarrow>
     distinct (map fst al) \<and>
     (\<forall>(file, content) \<in> set al. \<exists>task. content = TaskJson task \<and> file = pt_id task @ ''.json'')"

text \<open>A result of the notice step leaves both task directories as they were.\<close>

definition keepsDirs :: "RecoveryWorld \<Rightarrow> string \<times> RecoveryWorld + RecoveryWorld \<Rightarrow> bool" where
  "keepsDirs w r =
     (case r of Inr w' \<Rightarrow> rw_active w' = rw_active w \<and> rw_completed w' = rw_completed w
              | Inl (e, w') \<Rightarrow> rw_active w' = rw_active w \<and> rw_completed w' = rw_completed w)"

section \<open>History store (FileHistoryStore)\<close>

datatype Role = system | user | assistant | tool

record ChatMessage =
  cm_role :: Role
  cm_content :: string
  cm_toolCallId :: "string option"

record MessageMetadata =
  md_senderId :: "string option"
  md_platformMessageId :: "string option"
  md_taskId :: "string option"

record HistoryEntry =
  he_seq :: nat
  he_ts :: string
  he_role :: Role
  he_content :: string
  he_toolCallId :: "string option"
  he_senderId :: "string option"
  he_platformMessageId :: "string option"
  he_taskId :: "string option"

record SegmentMeta =
  sm_file :: string
  sm_firstSeq :: nat
  sm_lastSeq :: nat
  sm_count :: nat
  sm_sizeBytes :: nat
  sm_startedAt :: string
  sm_endedAt :: string

record SegmentIndex =
  si_nextSeq :: nat
  si_segments :: "SegmentMeta list"

text \<open>
  A segment file is modelled by what \<^verbatim>\<open>content.split('\n')\<close> makes of its text: the lines
  that end in a newline, and the rest of the text behind the last newline (empty when the
  file is empty or ends in a newline, otherwise a line whose writing was cut short). Of
  each of these pieces the model keeps what \<^verbatim>\<open>readSegmentFile\<close> makes of it: the piece is
  blank (\<^verbatim>\<open>trim\<close> leaves nothing), or its trimmed text parses to an entry
  (\<^verbatim>\<open>JSON.parse\<close> of the text \<^verbatim>\<open>JSON.stringify\<close> wrote gives the entry back), or
  \<^verbatim>\<open>JSON.parse\<close> throws. (A piece that parses to a JSON value other than an entry object
  is outside this model.)
\<close>

datatype Line = Blank | Corrupt | Entry HistoryEntry

record SegmentFile =
  sf_lines :: "Line list"
  sf_rest :: Line

text \<open>
  The directory of one conversation: whether it exists, its \<^verbatim>\<open>_index.json\<close> (absent,
  unreadable, or a stored index), and its segment files by name. The store maps the pair
  of channel id and conversation id to the directory.
\<close>

datatype IndexFile = NoIndex | BadIndex | Stored SegmentIndex

record ConversationDir =
  cd_exists :: bool
  cd_index :: IndexFile
  cd_files :: "string \<rightharpoonup> SegmentFile"

type_synonym HistoryStore = "string \<times> string \<Rightarrow> ConversationDir"

definition emptyStore :: HistoryStore where
  "emptyStore = (\<lambda>k. \<lparr> cd_exists = False, cd_index = NoIndex, cd_files = Map.empty \<rparr>)"

record HistoryConfig =
  hc_maxMessages :: nat
  hc_maxSegmentSizeBytes :: nat
  hc_maxSegments :: nat

text \<open>
  What one call of \<^verbatim>\<open>addMessage\<close> reads from its environment: the clock for the
  entry's \<^verbatim>\<open>ts\<close>, the clock again for the name of a new segment file (both as ISO
  strings), and the number of bytes \<^verbatim>\<open>appendJsonLine\<close> reports for the line written.
\<close>

record AppendEnv =
  ae_now :: string
  ae_fileDate :: string
  ae_bytesWritten :: nat

definition isDigit :: "char \<Rightarrow> bool" where
  "isDigit c = (48 \<le> (of_char c :: nat) \<and> (of_char c :: nat) \<le> 57)"

definition formatTimestampFilename :: "string \<Rightarrow> string" where
  \<comment> \<open>on the ISO string of the date: \<^verbatim>\<open>.replace(/:/g, '-').replace(/\.\d{3}Z$/, 'Z')\<close>\<close>
  "formatTimestampFilename isoDate =
     (let s = map (\<lambda>c. if c = CHR '':'' then CHR ''-'' else c) isoDate;
          n = length s
      in if 5 \<le> n \<and> s ! (n - 5) = CHR ''.'' \<and> isDigit (s ! (n - 4)) \<and> isDigit (s ! (n - 3))
            \<and> isDigit (s ! (n - 2)) \<and> s ! (n - 1) = CHR ''Z''
         then take (n - 5) s @ ''Z'' else s)"

definition readIndex :: "ConversationDir \<Rightarrow> SegmentIndex" where
  "readIndex dir =
     (case cd_index dir of
        NoIndex \<Rightarrow> \<lparr> si_nextSeq = 1, si_segments = [] \<rparr>
      | BadIndex \<Rightarrow> \<lparr> si_nextSeq = 1, si_segments = [] \<rparr>
      | Stored index \<Rightarrow> index)"

text \<open>
  \<^verbatim>\<open>appendFileSync(filePath, JSON.stringify(data) + '\n')\<close> puts the text of the entry and a
  newline behind whatever the file holds (a missing file is created). The entry's text
  thus joins the rest behind the last newline, and the two make one line: behind a
  blank rest the line still parses to the entry (\<^verbatim>\<open>readSegmentFile\<close> trims the line);
  behind any other text it does not parse, since a complete JSON object that follows
  other text is not a JSON text. After the append the file ends in a newline.
\<close>

definition glued :: "Line \<Rightarrow> HistoryEntry \<Rightarrow> Line" where
  "glued rest entry = (case rest of Blank \<Rightarrow> Entry entry | Corrupt \<Rightarrow> Corrupt | Entry e \<Rightarrow> Corrupt)"

definition appendJsonLine ::
  "string \<Rightarrow> HistoryEntry \<Rightarrow> (string \<rightharpoonup> SegmentFile) \<Rightarrow> (string \<rightharpoonup> SegmentFile)" where
  "appendJsonLine file entry files =
     (let content = (case files file of None \<Rightarrow> \<lparr> sf_lines = [], sf_rest = Blank \<rparr> | Some f \<Rightarrow> f)
      in files(file \<mapsto> \<lparr> sf_lines = sf_lines content @ [glued (sf_rest content) entry],
                            sf_rest = Blank \<rparr>))"

fun prune ::
  "nat \<Rightarrow> SegmentMeta list \<Rightarrow> (string \<rightharpoonup> SegmentFile)
     \<Rightarrow> SegmentMeta list \<times> (string \<rightharpoonup> SegmentFile)" where
  "prune maxSegs [] files = ([], files)"
| "prune maxSegs (oldest # segs) files =
     (if length (oldest # segs) > maxSegs
      then prune maxSegs segs (files(sm_file oldest := None))
      else (oldest # segs, files))"

definition needsNewSegment :: "HistoryConfig \<Rightarrow> SegmentIndex \<Rightarrow> bool" where
  "needsNewSegment cfg index =
     (si_segments index = [] \<or> sm_sizeBytes (last (si_segments index)) \<ge> hc_maxSegmentSizeBytes cfg)"

text \<open>
  The segments of the index after the append and before pruning: a new segment is
  pushed when there is none or the last one is full, and the metadata of the current
  (last) segment is updated in place.
\<close>

definition appendedSegments :: "HistoryConfig \<Rightarrow> AppendEnv \<Rightarrow> SegmentIndex \<Rightarrow> SegmentMeta list" where
  "appendedSegments cfg env index =
     (let seq = si_nextSeq index;
          ts = ae_now env;
          segments1 =
            (if needsNewSegment cfg index
             then si_segments index @
                    [\<lparr> sm_file = formatTimestampFilename (ae_fileDate env) @ ''.jsonl'',
                       sm_firstSeq = seq, sm_lastSeq = seq, sm_count = 0,
                       sm_sizeBytes = 0, sm_startedAt = ts, sm_endedAt = ts \<rparr>]
             else si_segments index);
          currentSeg = last segments1
      in butlast segments1 @
           [currentSeg\<lparr> sm_lastSeq := seq, sm_count := sm_count currentSeg + 1,
                         sm_sizeBytes := sm_sizeBytes currentSeg + ae_bytesWritten env,
                         sm_endedAt := ts \<rparr>])"

definition addMessageDir ::
  "HistoryConfig \<Rightarrow> AppendEnv \<Rightarrow> ChatMessage \<Rightarrow> MessageMetadata option \<Rightarrow> ConversationDir
     \<Rightarrow> ConversationDir" where
  "addMessageDir cfg env message metadata dir0 =
     (let dir = dir0\<lparr> cd_exists := True \<rparr>;
          index = readIndex dir;
          entry = \<lparr> he_seq = si_nextSeq index, he_ts = ae_now env,
                    he_role = cm_role message, he_content = cm_content message,
                    he_toolCallId = cm_toolCallId message,
                    he_senderId = Option.bind metadata md_senderId,
                    he_platformMessageId = Option.bind metadata md_platformMessageId,
                    he_taskId = Option.bind metadata md_taskId \<rparr>;
          segments2 = appendedSegments cfg env index;
          files1 = appendJsonLine (sm_file (last segments2)) entry (cd_files dir);
          (segments3, files2) = prune (hc_maxSegments cfg) segments2 files1
      in dir\<lparr> cd_index := Stored \<lparr> si_nextSeq = si_nextSeq index + 1, si_segments = segments3 \<rparr>,
              cd_files := files2 \<rparr>)"

definition addMessage ::
  "HistoryConfig \<Rightarrow> AppendEnv \<Rightarrow> string \<Rightarrow> string \<Rightarrow> ChatMessage \<Rightarrow> MessageMetadata option
     \<Rightarrow> HistoryStore \<Rightarrow> HistoryStore" where
  "addMessage cfg env channelId conversationId message metadata store =
     store((channelId, conversationId) :=
       addMessageDir cfg env message metadata (store (channelId, conversationId)))"

definition readSegmentFile :: "SegmentFile \<Rightarrow> HistoryEntry list" where
  \<comment> \<open>blank pieces are passed over, corrupt ones are skipped with a warning\<close>
  "readSegmentFile f =
     concat (map (\<lambda>l. case l of Blank \<Rightarrow> [] | Corrupt \<Rightarrow> [] | Entry e \<Rightarrow> [e])
               (sf_lines f @ [sf_rest f]))"

definition entryToChatMessage :: "HistoryEntry \<Rightarrow> ChatMessage" where
  "entryToChatMessage entry =
     \<lparr> cm_role = he_role entry, cm_content = he_content entry,
       cm_toolCallId = (if truthy (he_toolCallId entry) then he_toolCallId entry else None) \<rparr>"

text \<open>
  The loop of \<^verbatim>\<open>getMessages\<close> over the segments, newest first: it stops once \<open>maxCount\<close> (the \<^verbatim>\<open>max\<close> of the source)
  entries are collected, skips a segment whose file is missing, and puts the entries
  of an older segment in front.
\<close>

fun collect ::
  "(string \<rightharpoonup> SegmentFile) \<Rightarrow> nat \<Rightarrow> SegmentMeta list \<Rightarrow> HistoryEntry list
     \<Rightarrow> HistoryEntry list" where
  "collect files maxCount [] collected = collected"
| "collect files maxCount (seg # older) collected =
     (if length collected < maxCount
      then (case files (sm_file seg) of
              None \<Rightarrow> collect files maxCount older collected
            | Some f \<Rightarrow> collect files maxCount older (readSegmentFile f @ collected))
      else collected)"

definition sliceFromEnd :: "nat \<Rightarrow> 'a list \<Rightarrow> 'a list" where
  \<comment> \<open>\<^verbatim>\<open>xs.slice(-max)\<close>; \<^verbatim>\<open>slice(-0)\<close> is the whole array\<close>
  "sliceFromEnd maxCount xs = (if maxCount = 0 then xs else drop (length xs - maxCount) xs)"

definition getMessages ::
  "HistoryConfig \<Rightarrow> HistoryStore \<Rightarrow> string \<Rightarrow> string \<Rightarrow> nat option \<Rightarrow> ChatMessage list" where
  "getMessages cfg store channelId conversationId limit =
     (let dir = store (channelId, conversationId)
      in if \<not> cd_exists dir then []
         else let index = readIndex dir
              in if length (si_segments index) = 0 then []
                 else let maxCount = (case limit of None \<Rightarrow> hc_maxMessages cfg | Some l \<Rightarrow> l);
                          collected = collect (cd_files dir) maxCount (rev (si_segments index)) [];
                          trimmed = sliceFromEnd maxCount collected
                      in map entryToChatMessage trimmed)"

text \<open>A finite sequence of \<^verbatim>\<open>addMessage\<close> calls, each with what it reads from its environment.\<close>

record AddCall =
  ac_env :: AppendEnv
  ac_channelId :: string
  ac_conversationId :: string
  ac_message :: ChatMessage
  ac_metadata :: "MessageMetadata option"

definition addMessages :: "HistoryConfig \<Rightarrow> AddCall list \<Rightarrow> HistoryStore \<Rightarrow> HistoryStore" where
  "addMessages cfg calls store =
     fold (\<lambda>c. addMessage cfg (ac_env c) (ac_channelId c) (ac_conversationId c)
                  (ac_message c) (ac_metadata c)) calls store"

text \<open>
  The number of segments that the pruning loop of one call removes from the index of a
  directory, and the number removed from the index of the conversation \<open>k\<close> over a
  sequence of calls.
\<close>

definition evicted :: "HistoryConfig \<Rightarrow> AppendEnv \<Rightarrow> ConversationDir \<Rightarrow> nat" where
  "evicted cfg env dir =
     (let segments2 = appendedSegments cfg env (readIndex dir)
      in length segments2 - length (fst (prune (hc_maxSegments cfg) segments2 (cd_files dir))))"

fun evictions :: "HistoryConfig \<Rightarrow> AddCall list \<Rightarrow> HistoryStore \<Rightarrow> string \<times> string \<Rightarrow> nat" where
  "evictions cfg [] store k = 0"
| "evictions cfg (c # calls) store k =
     (if (ac_channelId c, ac_conversationId c) = k then evicted cfg (ac_env c) (store k) else 0)
     + evictions cfg calls
         (addMessage cfg (ac_env c) (ac_channelId c) (ac_conversationId c) (ac_message c)
            (ac_metadata c) store) k"

text \<open>
  Predicates on a segment index, for the proofs: adjacent segments are contiguous;
  an index is in order when its segments are contiguous, each segment has
  \<open>1 \<le> firstSeq \<le> lastSeq\<close>, \<open>nextSeq\<close> follows the last segment, and the first segment
  starts at 1 unless the index is full; an index is unevicted when it is in order,
  still has room for \<open>n\<close> more segments and starts at 1.
\<close>

fun contiguous :: "SegmentMeta list \<Rightarrow> bool" where
  "contiguous [] = True"
| "contiguous [s] = True"
| "contiguous (s # t # rest) = (sm_lastSeq s + 1 = sm_firstSeq t \<and> contiguous (t # rest))"

definition indexOk :: "nat \<Rightarrow> SegmentIndex \<Rightarrow> bool" where
  "indexOk maxSegs index =
     (let segs = si_segments index
      in contiguous segs
       \<and> (\<forall>s \<in> set segs. 1 \<le> sm_firstSeq s \<and> sm_firstSeq s \<le> sm_lastSeq s)
       \<and> si_nextSeq index = (if segs = [] then 1 else sm_lastSeq (last segs) + 1)
       \<and> (segs \<noteq> [] \<longrightarrow> sm_firstSeq (hd segs) = 1 \<or> maxSegs \<le> length segs))"

definition unevicted :: "nat \<Rightarrow> nat \<Rightarrow> SegmentIndex \<Rightarrow> bool" where
  "unevicted m n index \<longleftrightarrow>
     indexOk m index \<and> length (si_segments index) + n \<le> m \<and>
     (si_segments index \<noteq> [] \<longrightarrow> sm_firstSeq (hd (si_segments index)) = 1)"

section \<open>Skills and slash dispatch (SkillRegistry, SkillHandler)\<close>

record NormalizedMessage =
  nm_id :: string
  nm_channelId :: string
  nm_conversationId :: string
  nm_senderId :: string
  nm_text :: string
  nm_timestamp :: int
  nm_senderName :: "string option"
  nm_platformMessageId :: "string option"

record SkillContext =
  ctx_message :: NormalizedMessage
  ctx_args :: string
  ctx_channelId :: string
  ctx_conversationId :: string

record SkillResult =
  res_text :: string
  res_handled :: bool

datatype SkillSource = builtin | skillmd

text \<open>
  A skill definition; \<open>sk_execute\<close> is the executor wired in for a builtin skill, as the
  result it returns (its effects on the history store and elsewhere are not part of
  the model). The registry is the map from skill names to definitions.
\<close>

record SkillDefinition =
  sk_name :: string
  sk_description :: string
  sk_userInvocable :: bool
  sk_argumentHint :: "string option"
  sk_disableModelInvocation :: "bool option"
  sk_instructions :: "string option"
  sk_source :: SkillSource
  sk_execute :: "(SkillContext \<Rightarrow> SkillResult) option"

type_synonym SkillRegistry = "string \<rightharpoonup> SkillDefinition"

text \<open>
  \<^verbatim>\<open>str.replace(/\$ARGUMENTS/g, replacement)\<close>. The replacement is a template: in it
  \<^verbatim>\<open>$$\<close> stands for a dollar sign, \<^verbatim>\<open>$&\<close> for the matched text, \<^verbatim>\<open>$`\<close> for the text before
  the match and \<^verbatim>\<open>$'\<close> for the text after it; the pattern has no groups, so every other
  \<^verbatim>\<open>$\<close> stands for itself. Matches are found from left to right and do not overlap.
\<close>

fun getSubstitution :: "string \<Rightarrow> string \<Rightarrow> string \<Rightarrow> string \<Rightarrow> string" where
  "getSubstitution matched preceding following [] = []"
| "getSubstitution matched preceding following [c] = [c]"
| "getSubstitution matched preceding following (c # d # template) =
     (if c = CHR ''$'' \<and> d = CHR ''$'' then CHR ''$'' # getSubstitution matched preceding following template
      else if c = CHR ''$'' \<and> d = CHR ''&'' then matched @ getSubstitution matched preceding following template
      else if c = CHR ''$'' \<and> d = CHR 0x60 then preceding @ getSubstitution matched preceding following template
      else if c = CHR ''$'' \<and> d = CHR 0x27 then following @ getSubstitution matched preceding following template
      else c # getSubstitution matched preceding following (d # template))"

function replaceAllFrom :: "string \<Rightarrow> string \<Rightarrow> string \<Rightarrow> string \<Rightarrow> string" where
  "replaceAllFrom pattern template preceding rest =
     (if pattern \<noteq> [] \<and> startsWith rest pattern
      then getSubstitution pattern preceding (drop (length pattern) rest) template
             @ replaceAllFrom pattern template (preceding @ pattern) (drop (length pattern) rest)
      else case rest of
             [] \<Rightarrow> []
           | c # cs \<Rightarrow> c # replaceAllFrom pattern template (preceding @ [c]) cs)"
  by pat_completeness auto
termination
proof (relation "measure (\<lambda>(pattern, template, preceding, rest). length rest)")
  fix pattern template preceding rest :: string
  assume "pattern \<noteq> [] \<and> startsWith rest pattern"
  then have "pattern \<noteq> []" and "rest \<noteq> []"
    by (auto simp: startsWith_def)
  then show "((pattern, template, preceding @ pattern, drop (length pattern) rest),
              (pattern, template, preceding, rest))
             \<in> measure (\<lambda>(pattern, template, preceding, rest). length rest)"
    by simp
qed auto

definition replaceArguments :: "string \<Rightarrow> string \<Rightarrow> string" where
  "replaceArguments instructions replacement =
     replaceAllFrom ''$ARGUMENTS'' replacement [] instructions"

definition parseSlashCommand :: "string \<Rightarrow> (string \<times> string) option" where
  \<comment> \<open>\<^verbatim>\<open>text.match(/^\/(\S+)\s*(.*)?$/s)\<close>, the name and the trimmed rest\<close>
  "parseSlashCommand text =
     (case text of
        [] \<Rightarrow> None
      | c # rest \<Rightarrow>
          if c \<noteq> CHR ''/'' then None
          else let name = takeWhile (\<lambda>x. \<not> isWhiteSpace x) rest;
                   afterName = dropWhile (\<lambda>x. \<not> isWhiteSpace x) rest
               in if name = [] then None
                  else Some (name, trim (dropWhile isWhiteSpace afterName)))"

record SkillDispatchResult =
  d_handled :: bool
  d_result :: "SkillResult option"
  d_skillName :: "string option"
  d_args :: "string option"
  d_instructions :: "string option"

definition notHandled :: SkillDispatchResult where
  "notHandled = \<lparr> d_handled = False, d_result = None, d_skillName = None, d_args = None,
                   d_instructions = None \<rparr>"

definition dispatch :: "SkillRegistry \<Rightarrow> NormalizedMessage \<Rightarrow> SkillDispatchResult" where
  "dispatch registry message =
     (case parseSlashCommand (nm_text message) of
        None \<Rightarrow> notHandled
      | Some (name, args) \<Rightarrow>
          (case registry name of
             None \<Rightarrow> notHandled
           | Some skill \<Rightarrow>
               if \<not> sk_userInvocable skill then notHandled
               else (case sk_execute skill of
                       Some execute \<Rightarrow>
                         \<lparr> d_handled = True,
                           d_result = Some (execute \<lparr> ctx_message = message, ctx_args = args,
                                              ctx_channelId = nm_channelId message,
                                              ctx_conversationId = nm_conversationId message \<rparr>),
                           d_skillName = Some name, d_args = None, d_instructions = None \<rparr>
                     | None \<Rightarrow>
                         if truthy (sk_instructions skill)
                         then \<lparr> d_handled = True, d_result = None, d_skillName = Some name,
                                d_args = Some args,
                                d_instructions =
                                  Some (replaceArguments (the (sk_instructions skill))
                                         (if args \<noteq> [] then args else ''(no arguments provided)'')) \<rparr>
                         else notHandled)))"

section \<open>Agent service: message handling and the tool-use loop\<close>

record ToolDefinition =
  td_name :: string
  td_description :: string
  td_inputSchema :: string

record ToolCall =
  tc_id :: string
  tc_name :: string
  tc_arguments :: "(string \<times> string) list"

record LLMResult =
  lr_content :: string
  lr_toolCalls :: "ToolCall list option"

text \<open>
  The language model, the MCP tools and the channels are the environment of the agent
  service. \<open>ag_chat\<close> and \<open>ag_complete\<close> answer \<^verbatim>\<open>llmService.chat\<close> and
  \<^verbatim>\<open>llmService.complete\<close>, \<open>ag_invokeTool\<close> answers \<^verbatim>\<open>mcpManager.invokeTool\<close>; \<open>Inl e\<close> is
  an exception with text \<open>e\<close>. Their first argument counts the requests made before,
  so that the same request may be answered differently. The world records every
  request to the language model, every tool invocation, every send and every journal
  entry (the durations in the journal data are left out).
\<close>

datatype LlmCall =
    Chat "ChatMessage list" "ToolDefinition list option"
  | Complete string string

record AgentEnv =
  ag_channels :: Channels
  ag_chat :: "nat \<Rightarrow> ChatMessage list \<Rightarrow> ToolDefinition list option \<Rightarrow> string + LLMResult"
  ag_complete :: "nat \<Rightarrow> string \<Rightarrow> string \<Rightarrow> string + string"
  ag_invokeTool :: "nat \<Rightarrow> string \<Rightarrow> (string \<times> string) list \<Rightarrow> string + string"
  ag_journal :: bool
  ag_now :: "nat \<Rightarrow> string"

record AgentWorld =
  aw_calls :: "LlmCall list"
  aw_invocations :: "(string \<times> (string \<times> string) list) list"
  aw_sent :: "SendRecord list"
  aw_journal :: "JournalEntry list"

definition agentLog ::
  "AgentEnv \<Rightarrow> JournalEventType \<Rightarrow> string \<Rightarrow> string \<Rightarrow> string \<Rightarrow> (string \<times> string) list
     \<Rightarrow> AgentWorld \<Rightarrow> AgentWorld" where
  \<comment> \<open>\<^verbatim>\<open>this.journal?.log(...)\<close>\<close>
  "agentLog env event taskId channelId conversationId data w =
     (if \<not> ag_journal env then w
      else w\<lparr> aw_journal := aw_journal w @
                [\<lparr> je_ts = ag_now env (length (aw_journal w)), je_event = event, je_taskId = taskId,
                   je_channelId = channelId, je_conversationId = conversationId,
                   je_data = data \<rparr>] \<rparr>)"

definition llmChat ::
  "AgentEnv \<Rightarrow> ChatMessage list \<Rightarrow> ToolDefinition list option \<Rightarrow> AgentWorld
     \<Rightarrow> string \<times> AgentWorld + LLMResult \<times> AgentWorld" where
  "llmChat env messages tools w =
     (let w' = w\<lparr> aw_calls := aw_calls w @ [Chat messages tools] \<rparr>
      in case ag_chat env (length (aw_calls w)) messages tools of
           Inl e \<Rightarrow> Inl (e, w')
         | Inr result \<Rightarrow> Inr (result, w'))"

definition llmComplete ::
  "AgentEnv \<Rightarrow> string \<Rightarrow> string \<Rightarrow> AgentWorld \<Rightarrow> string \<times> AgentWorld + string \<times> AgentWorld" where
  "llmComplete env systemPrompt userPrompt w =
     (let w' = w\<lparr> aw_calls := aw_calls w @ [Complete systemPrompt userPrompt] \<rparr>
      in case ag_complete env (length (aw_calls w)) systemPrompt userPrompt of
           Inl e \<Rightarrow> Inl (e, w')
         | Inr content \<Rightarrow> Inr (content, w'))"

definition invokeTool ::
  "AgentEnv \<Rightarrow> string \<Rightarrow> (string \<times> string) list \<Rightarrow> AgentWorld
     \<Rightarrow> string \<times> AgentWorld + string \<times> AgentWorld" where
  "invokeTool env name args w =
     (let w' = w\<lparr> aw_invocations := aw_invocations w @ [(name, args)] \<rparr>
      in case ag_invokeTool env (length (aw_invocations w)) name args of
           Inl e \<Rightarrow> Inl (e, w')
         | Inr text \<Rightarrow> Inr (text, w'))"

definition agentSend ::
  "AgentEnv \<Rightarrow> string \<Rightarrow> string \<Rightarrow> OutgoingMessage \<Rightarrow> AgentWorld
     \<Rightarrow> string \<times> AgentWorld + AgentWorld" where
  "agentSend env channelId conversationId msg w =
     (let r = attempt (ag_channels env) (aw_sent w) channelId conversationId msg;
          w' = w\<lparr> aw_sent := aw_sent w @ [r] \<rparr>
      in case sr_error r of None \<Rightarrow> Inr w' | Some e \<Rightarrow> Inl (e, w'))"

text \<open>
  What \<^verbatim>\<open>handleMessage\<close> hands to \<^verbatim>\<open>taskManager.submit\<close>: the single completion of a
  content-based skill with its instructions, or the normal pipeline \<^verbatim>\<open>runPipeline\<close>.
  The task manager starts the task with the message itself. The result of
  \<^verbatim>\<open>handleMessage\<close> is the task it submitted, if any, and the world it leaves; \<open>Inl\<close> is a
  rejection (the reply of a builtin skill could not be sent).
\<close>

datatype BackgroundTask = SkillCompletion string | RunPipeline

definition handleMessage ::
  "AgentEnv \<Rightarrow> SkillRegistry \<Rightarrow> NormalizedMessage \<Rightarrow> AgentWorld
     \<Rightarrow> string \<times> AgentWorld + (NormalizedMessage \<times> BackgroundTask) option \<times> AgentWorld" where
  "handleMessage env registry message w =
     (case getChannel (ag_channels env) (nm_channelId message) of
        None \<Rightarrow> Inr (None, w)
      | Some channel \<Rightarrow>
          (let d = dispatch registry message
           in if d_handled d \<and> d_result d \<noteq> None then
                (case agentSend env (nm_channelId message) (nm_conversationId message)
                        \<lparr> om_text = res_text (the (d_result d)),
                          om_replyToMessageId = nm_platformMessageId message \<rparr> w of
                   Inl e \<Rightarrow> Inl e
                 | Inr w' \<Rightarrow> Inr (None, w'))
              else if d_handled d \<and> truthy (d_instructions d) then
                Inr (Some (message, SkillCompletion (the (d_instructions d))), w)
              else Inr (Some (message, RunPipeline), w)))"

definition skillCompletionTask ::
  "AgentEnv \<Rightarrow> string \<Rightarrow> NormalizedMessage \<Rightarrow> AgentWorld \<Rightarrow> string \<times> AgentWorld + AgentWorld" where
  \<comment> \<open>the task submitted for a content-based skill, run on the message \<open>msg\<close>\<close>
  "skillCompletionTask env instructions msg w =
     (let w1 = agentLog env skill_dispatched (nm_id msg) (nm_channelId msg) (nm_conversationId msg)
                 [(''skill'', takeWhile (\<lambda>c. c \<noteq> CHR '' '') (nm_text msg))] w
      in case llmComplete env instructions (nm_text msg) w1 of
           Inl e \<Rightarrow> Inl e
         | Inr (content, w2) \<Rightarrow>
             agentSend env (nm_channelId msg) (nm_conversationId msg)
               \<lparr> om_text = content, om_replyToMessageId = nm_platformMessageId msg \<rparr> w2)"

text \<open>
  One tool call of the loop: its result text, or the exception of a skill completion
  (an exception of an MCP tool is caught and becomes the result text).
\<close>

record TaskIds =
  ti_taskId :: string
  ti_channelId :: string
  ti_conversationId :: string

definition executeToolCall ::
  "AgentEnv \<Rightarrow> SkillRegistry \<Rightarrow> TaskIds \<Rightarrow> ToolCall \<Rightarrow> AgentWorld
     \<Rightarrow> string \<times> AgentWorld + string \<times> AgentWorld" where
  "executeToolCall env registry ids toolCall w =
     (let journal = (\<lambda>event kind extra.
            agentLog env event (ti_taskId ids) (ti_channelId ids) (ti_conversationId ids)
              ([(''tool'', tc_name toolCall), (''type'', kind)] @ extra))
      in if startsWith (tc_name toolCall) ''skill__'' then
           (let skillName = drop 7 (tc_name toolCall);
                skill = registry skillName
            in if truthy (Option.bind skill sk_instructions) then
                 (let args = (case map_of (tc_arguments toolCall) ''arguments'' of
                                None \<Rightarrow> [] | Some a \<Rightarrow> a);
                      instructions = replaceArguments (the (sk_instructions (the skill)))
                                       (if args \<noteq> [] then args else ''(no arguments)'');
                      w1 = journal tool_call_started ''skill'' [] w
                  in case llmComplete env instructions args w1 of
                       Inl e \<Rightarrow> Inl e
                     | Inr (content, w2) \<Rightarrow> Inr (content, journal tool_call_completed ''skill'' [] w2))
               else Inr (''Skill '' @ skillName @ '' not found'', w))
         else
           (let w1 = journal tool_call_started ''mcp'' [] w
            in case invokeTool env (tc_name toolCall) (tc_arguments toolCall) w1 of
                 Inr (text, w2) \<Rightarrow> Inr (text, journal tool_call_completed ''mcp'' [] w2)
               | Inl (err, w2) \<Rightarrow>
                   Inr (''Tool error: '' @ err,
                        journal tool_call_completed ''mcp'' [(''error'', err)] w2)))"

fun executeToolCalls ::
  "AgentEnv \<Rightarrow> SkillRegistry \<Rightarrow> TaskIds \<Rightarrow> ToolCall list \<Rightarrow> ChatMessage list \<Rightarrow> AgentWorld
     \<Rightarrow> string \<times> AgentWorld + ChatMessage list \<times> AgentWorld" where
  "executeToolCalls env registry ids [] currentMessages w = Inr (currentMessages, w)"
| "executeToolCalls env registry ids (toolCall # toolCalls) currentMessages w =
     (case executeToolCall env registry ids toolCall w of
        Inl e \<Rightarrow> Inl e
      | Inr (toolResult, w') \<Rightarrow>
          executeToolCalls env registry ids toolCalls
            (currentMessages @
               [\<lparr> cm_role = tool, cm_content = toolResult, cm_toolCallId = Some (tc_id toolCall) \<rparr>])
            w')"

function toolLoop ::
  "AgentEnv \<Rightarrow> SkillRegistry \<Rightarrow> TaskIds \<Rightarrow> ToolDefinition list \<Rightarrow> nat \<Rightarrow> nat
     \<Rightarrow> ChatMessage list \<Rightarrow> AgentWorld \<Rightarrow> string \<times> AgentWorld + string \<times> AgentWorld" where
  "toolLoop env registry ids tools maxIterations iterations currentMessages w =
     (if iterations < maxIterations then
        (case llmChat env currentMessages (if length tools > 0 then Some tools else None) w of
           Inl e \<Rightarrow> Inl e
         | Inr (result, w1) \<Rightarrow>
             (case lr_toolCalls result of
                None \<Rightarrow> Inr (lr_content result, w1)
              | Some toolCalls \<Rightarrow>
                  if length toolCalls = 0 then Inr (lr_content result, w1)
                  else (case executeToolCalls env registry ids toolCalls
                               (currentMessages @
                                  [\<lparr> cm_role = assistant, cm_content = lr_content result,
                                     cm_toolCallId = None \<rparr>]) w1 of
                          Inl e \<Rightarrow> Inl e
                        | Inr (messages', w2) \<Rightarrow>
                            toolLoop env registry ids tools maxIterations (iterations + 1)
                              messages' w2)))
      else (case llmChat env currentMessages None w of
              Inl e \<Rightarrow> Inl e
            | Inr (finalResult, w1) \<Rightarrow> Inr (lr_content finalResult, w1)))"
  by pat_completeness auto
termination
  by (relation "measure (\<lambda>(env, registry, ids, tools, maxIterations, iterations, currentMessages, w).
                  maxIterations - iterations)") auto

definition runToolLoop ::
  "AgentEnv \<Rightarrow> SkillRegistry \<Rightarrow> TaskIds \<Rightarrow> ChatMessage list \<Rightarrow> ToolDefinition list \<Rightarrow> nat
     \<Rightarrow> AgentWorld \<Rightarrow> string \<times> AgentWorld + string \<times> AgentWorld" where
  "runToolLoop env registry ids messages tools maxIterations w =
     toolLoop env registry ids tools maxIterations 0 messages w"

text \<open>
  The world a task or a loop leaves, whether it ends normally or with an exception,
  and the number of \<^verbatim>\<open>llmService.chat\<close> requests recorded in a world.
\<close>

definition taskWorld :: "string \<times> AgentWorld + AgentWorld \<Rightarrow> AgentWorld" where
  "taskWorld r = (case r of Inl (e, w) \<Rightarrow> w | Inr w \<Rightarrow> w)"

definition loopWorld :: "string \<times> AgentWorld + 'a \<times> AgentWorld \<Rightarrow> AgentWorld" where
  "loopWorld r = (case r of Inl (e, w) \<Rightarrow> w | Inr (x, w) \<Rightarrow> w)"

fun isChat :: "LlmCall \<Rightarrow> bool" where
  "isChat (Chat messages tools) = True"
| "isChat (Complete systemPrompt userPrompt) = False"

definition chatCalls :: "AgentWorld \<Rightarrow> nat" where
  "chatCalls w = length (filter isChat (aw_calls w))"

text \<open>
  Plain replacement: every occurrence of \<open>pattern\<close> in \<open>s\<close>, from left to right and
  without overlap, is replaced by the text \<open>literal\<close> as it stands.
\<close>

function replaceEvery :: "string \<Rightarrow> string \<Rightarrow> string \<Rightarrow> string" where
  "replaceEvery pattern literal s =
     (if pattern \<noteq> [] \<and> startsWith s pattern
      then literal @ replaceEvery pattern literal (drop (length pattern) s)
      else case s of [] \<Rightarrow> [] | c # cs \<Rightarrow> c # replaceEvery pattern literal cs)"
  by pat_completeness auto
termination
proof (relation "measure (\<lambda>(pattern, literal, s). length s)")
  fix pattern literal s :: string
  assume "pattern \<noteq> [] \<and> startsWith s pattern"
  then have "pattern \<noteq> []" and "s \<noteq> []"
    by (auto simp: startsWith_def)
  then show "((pattern, literal, drop (length pattern) s), (pattern, literal, s))
             \<in> measure (\<lambda>(pattern, literal, s). length s)"
    by simp
qed auto

section \<open>Agent service: the normal pipeline (runPipeline) and the submitted task\<close>

text \<open>
  The part of the verification settings that the agent service reads itself (the
  confidence threshold and the switches of the rule and review verifiers are read once,
  by the constructor). A channel's settings may override some of them: the service
  takes the first configured channel whose type is the type of the message's channel and
  spreads its \<^verbatim>\<open>verification\<close> over the host's.
\<close>

record VerificationConfig =
  vc_enabled :: bool
  vc_maxRetries :: nat
  vc_skipForShortResponses :: bool
  vc_shortResponseThreshold :: nat

record VerificationOverride =
  vo_enabled :: "bool option"
  vo_maxRetries :: "nat option"
  vo_skipForShortResponses :: "bool option"
  vo_shortResponseThreshold :: "nat option"

record ChannelConfig =
  cc_type :: string
  cc_verification :: "VerificationOverride option"

record HostConfig =
  cfg_systemPrompt :: string
  cfg_verification :: VerificationConfig
  cfg_channels :: "ChannelConfig list"

definition spreadVerification :: "VerificationConfig \<Rightarrow> VerificationOverride \<Rightarrow> VerificationConfig" where
  "spreadVerification base over =
     \<lparr> vc_enabled = (case vo_enabled over of None \<Rightarrow> vc_enabled base | Some v \<Rightarrow> v),
       vc_maxRetries = (case vo_maxRetries over of None \<Rightarrow> vc_maxRetries base | Some v \<Rightarrow> v),
       vc_skipForShortResponses =
         (case vo_skipForShortResponses over of None \<Rightarrow> vc_skipForShortResponses base | Some v \<Rightarrow> v),
       vc_shortResponseThreshold =
         (case vo_shortResponseThreshold over of None \<Rightarrow> vc_shortResponseThreshold base | Some v \<Rightarrow> v) \<rparr>"

definition channelVerification :: "HostConfig \<Rightarrow> string \<Rightarrow> VerificationConfig" where
  "channelVerification cfg channelType =
     (case List.find (\<lambda>c. cc_type c = channelType) (cfg_channels cfg) of
        None \<Rightarrow> cfg_verification cfg
      | Some channelConfig \<Rightarrow>
          (case cc_verification channelConfig of
             None \<Rightarrow> cfg_verification cfg
           | Some over \<Rightarrow> spreadVerification (cfg_verification cfg) over))"

text \<open>
  Besides the language model, the tools and the channels, the pipeline uses the MCP
  tool catalogue, the skill registry in the order of registration (the key order of its
  map), the history store, and the verifier built by the constructor. \<open>pe_append k\<close> is
  what the \<open>k\<close>-th call of \<^verbatim>\<open>addMessage\<close> reads from its environment, and
  \<open>pe_verify k\<close> is the result of the \<open>k\<close>-th call of \<^verbatim>\<open>verifier.verify\<close>, given the
  request, the response, the texts of the history and the attempt (a verifier never
  rejects; requests that a reviewing verifier makes to a language model of its own are
  not recorded). \<open>pe_taskPersistence\<close> says whether a task store is wired in.

  The world of the pipeline holds the world of the agent service, the history store,
  the calls of \<^verbatim>\<open>updatePhase\<close> made so far (task id, phase and pending response; what
  they do to the files of the task store is not followed here) and the table of last
  responses. The conversation mutex is not modelled: tasks are run one after the other.
\<close>

record PipelineEnv =
  pe_agent :: AgentEnv
  pe_mcpTools :: "ToolDefinition list"
  pe_skillNames :: "string list"
  pe_history :: HistoryConfig
  pe_append :: "nat \<Rightarrow> AppendEnv"
  pe_verify :: "nat \<Rightarrow> string \<Rightarrow> string \<Rightarrow> string list \<Rightarrow> nat \<Rightarrow> VerificationResult"
  pe_taskPersistence :: bool

record PipelineWorld =
  pw_agent :: AgentWorld
  pw_store :: HistoryStore
  pw_appends :: nat
  pw_verifications :: nat
  pw_phases :: "(string \<times> TaskPhase \<times> string option) list"
  pw_lastResponses :: "string \<rightharpoonup> string"

definition pipelineLog ::
  "PipelineEnv \<Rightarrow> JournalEventType \<Rightarrow> string \<Rightarrow> string \<Rightarrow> string \<Rightarrow> (string \<times> string) list
     \<Rightarrow> PipelineWorld \<Rightarrow> PipelineWorld" where
  "pipelineLog env event taskId channelId conversationId data w =
     w\<lparr> pw_agent := agentLog (pe_agent env) event taskId channelId conversationId data (pw_agent w) \<rparr>"

definition updatePhase ::
  "PipelineEnv \<Rightarrow> string \<Rightarrow> TaskPhase \<Rightarrow> string option \<Rightarrow> PipelineWorld \<Rightarrow> PipelineWorld" where
  \<comment> \<open>\<^verbatim>\<open>await this.taskPersistence?.updatePhase(...)\<close>, which never rejects\<close>
  "updatePhase env taskId phase pendingResponse w =
     (if pe_taskPersistence env
      then w\<lparr> pw_phases := pw_phases w @ [(taskId, phase, pendingResponse)] \<rparr>
      else w)"

definition historyAdd ::
  "PipelineEnv \<Rightarrow> string \<Rightarrow> string \<Rightarrow> ChatMessage \<Rightarrow> MessageMetadata option \<Rightarrow> PipelineWorld
     \<Rightarrow> PipelineWorld" where
  "historyAdd env channelId conversationId message metadata w =
     w\<lparr> pw_store := addMessage (pe_history env) (pe_append env (pw_appends w))
                       channelId conversationId message metadata (pw_store w),
        pw_appends := Suc (pw_appends w) \<rparr>"

definition withAgent ::
  "(AgentWorld \<Rightarrow> string \<times> AgentWorld + 'a \<times> AgentWorld) \<Rightarrow> PipelineWorld
     \<Rightarrow> string \<times> PipelineWorld + 'a \<times> PipelineWorld" where
  \<comment> \<open>a step of the agent service, run on the agent's part of the world\<close>
  "withAgent step w =
     (case step (pw_agent w) of
        Inl (e, a) \<Rightarrow> Inl (e, w\<lparr> pw_agent := a \<rparr>)
      | Inr (x, a) \<Rightarrow> Inr (x, w\<lparr> pw_agent := a \<rparr>))"

definition pipelineSend ::
  "PipelineEnv \<Rightarrow> string \<Rightarrow> string \<Rightarrow> OutgoingMessage \<Rightarrow> PipelineWorld
     \<Rightarrow> string \<times> PipelineWorld + PipelineWorld" where
  "pipelineSend env channelId conversationId msg w =
     (case agentSend (pe_agent env) channelId conversationId msg (pw_agent w) of
        Inl (e, a) \<Rightarrow> Inl (e, w\<lparr> pw_agent := a \<rparr>)
      | Inr a \<Rightarrow> Inr (w\<lparr> pw_agent := a \<rparr>))"

text \<open>
  The skills offered to the language model as tools: the registered skills in the order
  of registration, without those that disable model invocation, of source
  \<^verbatim>\<open>skillmd\<close>. The input schema of such a tool is a fixed object, kept as its text.
\<close>

definition getAll :: "SkillRegistry \<Rightarrow> string list \<Rightarrow> SkillDefinition list" where
  "getAll registry names =
     concat (map (\<lambda>n. case registry n of None \<Rightarrow> [] | Some skill \<Rightarrow> [skill]) names)"

definition getForLLM :: "SkillRegistry \<Rightarrow> string list \<Rightarrow> SkillDefinition list" where
  "getForLLM registry names =
     filter (\<lambda>s. sk_disableModelInvocation s \<noteq> Some True) (getAll registry names)"

definition skillInputSchema :: string where
  "skillInputSchema =
     ''{type: object, properties: {arguments: {type: string, description: Arguments for the skill}}}''"

definition skillTools :: "SkillRegistry \<Rightarrow> string list \<Rightarrow> ToolDefinition list" where
  "skillTools registry names =
     map (\<lambda>s. \<lparr> td_name = ''skill__'' @ sk_name s, td_description = sk_description s,
                 td_inputSchema = skillInputSchema \<rparr>)
       (filter (\<lambda>s. sk_source s = skillmd) (getForLLM registry names))"

text \<open>
  \<^verbatim>\<open>/^(hi|hello|hey|thanks|thank you|ok|bye)\s*[!.]?$/i\<close>, with three more matchers: any
  number of code units of a class (every way of matching, the longest first), an
  optional matcher, and one code unit of a list. A pattern anchored at both ends
  matches when some way of matching uses up the input.
\<close>

definition many :: "(char \<Rightarrow> bool) \<Rightarrow> matcher" where
  "many p s = map (\<lambda>k. drop k s) (rev [0 ..< Suc (length (takeWhile p s))])"

definition optional :: "matcher \<Rightarrow> matcher" where
  "optional m s = m s @ [s]"

definition oneOf :: "char list \<Rightarrow> matcher" where
  "oneOf cs s = (case s of [] \<Rightarrow> [] | c # rest \<Rightarrow> if c \<in> set cs then [rest] else [])"

definition testWhole :: "matcher \<Rightarrow> string \<Rightarrow> bool" where
  "testWhole m s = ([] \<in> set (m s))"

definition greetingPatterns :: matcher where
  "greetingPatterns =
     seq (alt (map lit_i [''hi'', ''hello'', ''hey'', ''thanks'', ''thank you'', ''ok'', ''bye'']))
       (seq (many isWhiteSpace) (optional (oneOf ''!.'')))"

definition shouldVerify :: "string \<Rightarrow> string \<Rightarrow> VerificationConfig \<Rightarrow> bool" where
  "shouldVerify request response config =
     (if \<not> vc_enabled config then False
      else if vc_skipForShortResponses config \<and> length response < vc_shortResponseThreshold config
      then False
      else if testWhole greetingPatterns (trim request) then False
      else True)"

text \<open>
  The verification loop. For a response that did not pass, the service asks the language
  model again: after the rating \<^verbatim>\<open>REDO\<close> with the feedback collected so far in the
  system prompt, otherwise with the response and the feedback of this attempt behind
  the history. (Of a verification result the journal entry keeps the attempt, the
  rating and whether it passed; the confidence is left out.)
\<close>

definition retryMessages ::
  "HostConfig \<Rightarrow> ChatMessage list \<Rightarrow> string \<Rightarrow> VerificationResult \<Rightarrow> string \<Rightarrow> ChatMessage list" where
  "retryMessages cfg history currentResponse result cumulativeFeedback =
     (if rating result = REDO then
        \<lparr> cm_role = system,
          cm_content = cfg_systemPrompt cfg @ [CHR 0x0A, CHR 0x0A] @
            ''Previous attempt failed verification. Feedback:'' @ cumulativeFeedback @
            [CHR 0x0A, CHR 0x0A] @ ''Please provide a complete, improved response.'',
          cm_toolCallId = None \<rparr> # history
      else
        \<lparr> cm_role = system, cm_content = cfg_systemPrompt cfg, cm_toolCallId = None \<rparr> # history @
        [\<lparr> cm_role = assistant, cm_content = currentResponse, cm_toolCallId = None \<rparr>,
         \<lparr> cm_role = user,
           cm_content = ''Your response has issues that need fixing:'' @ [CHR 0x0A] @
             feedback result @ [CHR 0x0A, CHR 0x0A] @
             ''Please revise your response to address these specific issues.'',
           cm_toolCallId = None \<rparr>])"

definition verificationData :: "nat \<Rightarrow> VerificationResult \<Rightarrow> (string \<times> string) list" where
  "verificationData attemptNo result =
     [(''attempt'', numberToString (int attemptNo)),
      (''rating'', case rating result of GOOD \<Rightarrow> ''GOOD'' | NEEDS_FIX \<Rightarrow> ''NEEDS_FIX''
                    | REDO \<Rightarrow> ''REDO''),
      (''passed'', if passed result then ''true'' else ''false'')]"

function verificationLoop ::
  "PipelineEnv \<Rightarrow> HostConfig \<Rightarrow> string \<Rightarrow> string \<Rightarrow> string \<Rightarrow> ChatMessage list \<Rightarrow> nat \<Rightarrow> nat
     \<Rightarrow> string \<Rightarrow> string \<Rightarrow> PipelineWorld \<Rightarrow> string \<times> PipelineWorld + string \<times> PipelineWorld" where
  "verificationLoop env cfg request channelId conversationId history maxRetries attemptNo
       currentResponse cumulativeFeedback w =
     (if attemptNo < maxRetries then
        (let result = pe_verify env (pw_verifications w) request currentResponse
                        (map cm_content history) attemptNo;
             w1 = w\<lparr> pw_verifications := Suc (pw_verifications w) \<rparr>;
             w2 = pipelineLog env verification_result [] channelId conversationId
                    (verificationData attemptNo result) w1
         in if passed result then Inr (currentResponse, w2)
            else
              (let feedbackSoFar = cumulativeFeedback @ [CHR 0x0A] @ ''Attempt '' @
                                     numberToString (int attemptNo + 1) @ '' feedback: '' @
                                     feedback result;
                   messages = retryMessages cfg history currentResponse result feedbackSoFar
               in case withAgent (llmChat (pe_agent env) messages None) w2 of
                    Inl e \<Rightarrow> Inl e
                  | Inr (newResult, w3) \<Rightarrow>
                      verificationLoop env cfg request channelId conversationId history maxRetries
                        (attemptNo + 1) (lr_content newResult) feedbackSoFar w3))
      else Inr (currentResponse, w))"
  by pat_completeness auto
termination
  by (relation "measure (\<lambda>(env, cfg, request, channelId, conversationId, history, maxRetries,
                  attemptNo, currentResponse, cumulativeFeedback, w). maxRetries - attemptNo)") auto

definition runVerificationLoop ::
  "PipelineEnv \<Rightarrow> HostConfig \<Rightarrow> string \<Rightarrow> string \<Rightarrow> string \<Rightarrow> string \<Rightarrow> ChatMessage list
     \<Rightarrow> VerificationConfig \<Rightarrow> PipelineWorld \<Rightarrow> string \<times> PipelineWorld + string \<times> PipelineWorld" where
  "runVerificationLoop env cfg request response channelId conversationId history config w =
     verificationLoop env cfg request channelId conversationId history (vc_maxRetries config) 0
       response [] w"

definition runPipeline ::
  "PipelineEnv \<Rightarrow> HostConfig \<Rightarrow> SkillRegistry \<Rightarrow> NormalizedMessage \<Rightarrow> PipelineWorld
     \<Rightarrow> string \<times> PipelineWorld + PipelineWorld" where
  "runPipeline env cfg registry message w =
     (case getChannel (ag_channels (pe_agent env)) (nm_channelId message) of
        None \<Rightarrow> Inr w
      | Some channelType \<Rightarrow>
          (let taskId = nm_id message;
               channelId = nm_channelId message;
               conversationId = nm_conversationId message;
               w1 = pipelineLog env pipeline_started taskId channelId conversationId [] w;
               w2 = updatePhase env taskId history_written None w1;
               w3 = historyAdd env channelId conversationId
                      \<lparr> cm_role = user, cm_content = nm_text message, cm_toolCallId = None \<rparr>
                      (Some \<lparr> md_senderId = Some (nm_senderId message),
                               md_platformMessageId = nm_platformMessageId message,
                               md_taskId = None \<rparr>) w2;
               w4 = pipelineLog env history_appended taskId channelId conversationId
                      [(''role'', ''user'')] w3;
               history = getMessages (pe_history env) (pw_store w4) channelId conversationId None;
               messages = \<lparr> cm_role = system, cm_content = cfg_systemPrompt cfg,
                             cm_toolCallId = None \<rparr> # history;
               allTools = pe_mcpTools env @ skillTools registry (pe_skillNames env);
               w5 = updatePhase env taskId llm_calling None w4;
               w6 = pipelineLog env llm_call_started taskId channelId conversationId [] w5
           in case withAgent (runToolLoop (pe_agent env) registry
                                \<lparr> ti_taskId = taskId, ti_channelId = channelId,
                                   ti_conversationId = conversationId \<rparr> messages allTools 10) w6 of
                Inl e \<Rightarrow> Inl e
              | Inr (firstResponse, w7) \<Rightarrow>
                  (let w8 = pipelineLog env llm_call_completed taskId channelId conversationId [] w7;
                       verificationConfig = channelVerification cfg channelType
                   in case (if shouldVerify (nm_text message) firstResponse verificationConfig
                            then runVerificationLoop env cfg (nm_text message) firstResponse
                                   channelId conversationId history verificationConfig
                                   (pipelineLog env verification_started taskId channelId
                                      conversationId []
                                      (updatePhase env taskId verifying (Some firstResponse) w8))
                            else Inr (firstResponse, w8)) of
                        Inl e \<Rightarrow> Inl e
                      | Inr (response, w9) \<Rightarrow>
                          (let w10 = updatePhase env taskId responding (Some response) w9;
                               w11 = historyAdd env channelId conversationId
                                       \<lparr> cm_role = assistant, cm_content = response,
                                          cm_toolCallId = None \<rparr> None w10;
                               w12 = pipelineLog env history_appended taskId channelId
                                       conversationId [(''role'', ''assistant'')] w11;
                               w13 = w12\<lparr> pw_lastResponses :=
                                            (pw_lastResponses w12)
                                              (channelId @ '':'' @ conversationId \<mapsto> response) \<rparr>
                           in case pipelineSend env channelId conversationId
                                     \<lparr> om_text = response,
                                        om_replyToMessageId = nm_platformMessageId message \<rparr> w13 of
                                Inl e \<Rightarrow> Inl e
                              | Inr w14 \<Rightarrow>
                                  Inr (pipelineLog env task_completed taskId channelId conversationId []
                                        (pipelineLog env response_sent taskId channelId
                                           conversationId [] w14))))))"

text \<open>
  What the task manager does with a submitted task: it runs the task on the message,
  and when the task rejects it sends an error reply, a failure of which is swallowed.
  (Its own bookkeeping, the table of active tasks, the typing indicator and the task
  store, is not part of this model.) The sign in front of the error text is written as
  the bytes that the source file stores for it.
\<close>

definition sendErrorReply :: "PipelineEnv \<Rightarrow> NormalizedMessage \<Rightarrow> string \<Rightarrow> PipelineWorld \<Rightarrow> PipelineWorld" where
  "sendErrorReply env message err w =
     (case getChannel (ag_channels (pe_agent env)) (nm_channelId message) of
        None \<Rightarrow> w
      | Some channel \<Rightarrow>
          (case pipelineSend env (nm_channelId message) (nm_conversationId message)
                  \<lparr> om_text = [CHR 0xC3, CHR 0xA2, CHR 0xC5, CHR 0xA1, CHR 0xC2, CHR 0xA0] @
                                '' An error occurred processing your message: '' @ err,
                     om_replyToMessageId = nm_platformMessageId message \<rparr> w of
             Inl (sendErr, w') \<Rightarrow> w'
           | Inr w' \<Rightarrow> w'))"

definition runTask ::
  "PipelineEnv \<Rightarrow> HostConfig \<Rightarrow> SkillRegistry \<Rightarrow> NormalizedMessage \<times> BackgroundTask \<Rightarrow> PipelineWorld
     \<Rightarrow> PipelineWorld" where
  "runTask env cfg registry submitted w =
     (let message = fst submitted;
          outcome =
            (case snd submitted of
               RunPipeline \<Rightarrow> runPipeline env cfg registry message w
             | SkillCompletion instructions \<Rightarrow>
                 (case skillCompletionTask (pe_agent env) instructions message (pw_agent w) of
                    Inl (e, a) \<Rightarrow> Inl (e, w\<lparr> pw_agent := a \<rparr>)
                  | Inr a \<Rightarrow> Inr (w\<lparr> pw_agent := a \<rparr>)))
      in case outcome of
           Inr w' \<Rightarrow> w'
         | Inl (err, w') \<Rightarrow> sendErrorReply env message err w')"

definition pipelineWorld :: "string \<times> PipelineWorld + PipelineWorld \<Rightarrow> PipelineWorld" where
  \<comment> \<open>the world a pipeline leaves, whether it ends normally or with an exception\<close>
  "pipelineWorld r = (case r of Inl (e, w) \<Rightarrow> w | Inr w \<Rightarrow> w)"

definition stepWorld :: "string \<times> PipelineWorld + 'a \<times> PipelineWorld \<Rightarrow> PipelineWorld" where
  \<comment> \<open>the same for a step of the pipeline that returns a value\<close>
  "stepWorld r = (case r of Inl (e, w) \<Rightarrow> w | Inr (x, w) \<Rightarrow> w)"

section \<open>Properties\<close>

subsection \<open>Heartbeat status\<close>

text \<open>
  C2, as stated, fails: a channel that is still \<^verbatim>\<open>connecting\<close> is not exempt. With one
  channel whose status is \<^verbatim>\<open>connecting\<close> (none in \<^verbatim>\<open>error\<close>) the payload's status is
  \<^verbatim>\<open>degraded\<close>, where the claim says \<^verbatim>\<open>ok\<close>.
\<close>

theorem heartbeat_connecting_counterexample:
  "ci_status \<lparr> ci_id = ''telegram'', ci_type = ''telegram'', ci_status = ''connecting'', ci_error = None \<rparr> = ''connecting'' \<and>
   hb_status (buildPayload \<lparr> pi_pid = 4242, pi_now = 1700000000000, pi_uptime = 3, pi_heapMB = 64 \<rparr>
     [\<lparr> ci_id = ''telegram'', ci_type = ''telegram'', ci_status = ''connecting'', ci_error = None \<rparr>]) = degraded"
  by (simp add: buildPayload_def)

text \<open>
  C2, amended: the status is \<^verbatim>\<open>error\<close> if some channel has status \<^verbatim>\<open>error\<close>; otherwise
  \<^verbatim>\<open>degraded\<close> if some channel has a status other than \<^verbatim>\<open>connected\<close> (a channel that
  is \<^verbatim>\<open>connecting\<close> counts); otherwise \<^verbatim>\<open>ok\<close>, in particular for the empty list.
\<close>

theorem heartbeat_status:
  "hb_status (buildPayload p chs) =
     (if \<exists>c \<in> set chs. ci_status c = ''error'' then error
      else if \<exists>c \<in> set chs. ci_status c \<noteq> ''connected'' then degraded
      else ok)"
  by (cases chs) (auto simp: buildPayload_def Let_def list_ex_iff list_all_iff)

text \<open>The amended C2 at a list with one connected and one disconnected channel.\<close>

theorem heartbeat_status_witness:
  "hb_status (buildPayload \<lparr> pi_pid = 4242, pi_now = 1700000000000, pi_uptime = 3, pi_heapMB = 64 \<rparr>
     [\<lparr> ci_id = ''web'', ci_type = ''web'', ci_status = ''connected'', ci_error = None \<rparr>,
      \<lparr> ci_id = ''telegram'', ci_type = ''telegram'', ci_status = ''disconnected'', ci_error = None \<rparr>]) = degraded"
  using heartbeat_status [of "\<lparr> pi_pid = 4242, pi_now = 1700000000000, pi_uptime = 3, pi_heapMB = 64 \<rparr>"
     "[\<lparr> ci_id = ''web'', ci_type = ''web'', ci_status = ''connected'', ci_error = None \<rparr>,
      \<lparr> ci_id = ''telegram'', ci_type = ''telegram'', ci_status = ''disconnected'', ci_error = None \<rparr>]"]
  by simp

subsection \<open>Completeness rule\<close>

lemma trimEnd_Nil_iff: "trimEnd s = [] \<longleftrightarrow> (\<forall>c \<in> set s. isWhiteSpace c)"
  by (simp add: trimEnd_def dropWhile_eq_Nil_conv)

lemma trimStart_Nil_iff: "trimStart s = [] \<longleftrightarrow> (\<forall>c \<in> set s. isWhiteSpace c)"
  by (simp add: trimStart_def dropWhile_eq_Nil_conv)

lemma trim_Nil_iff: "trim s = [] \<longleftrightarrow> trimEnd s = []"
proof -
  have "trim s = [] \<longleftrightarrow> (\<forall>c \<in> set (trimStart s). isWhiteSpace c)"
    by (simp add: trim_def trimEnd_Nil_iff)
  also have "\<dots> \<longleftrightarrow> trimStart s = []"
  proof (cases "trimStart s")
    case Nil
    then show ?thesis by simp
  next
    case (Cons a list)
    then have "\<not> isWhiteSpace a"
      using hd_dropWhile [of isWhiteSpace s] by (simp add: trimStart_def)
    with Cons show ?thesis by auto
  qed
  finally show ?thesis
    by (simp add: trimStart_Nil_iff trimEnd_Nil_iff)
qed

text \<open>
  C7: for a response that is not empty in the rule's sense (something is left after
  trimming; an empty or blank response is rated \<^verbatim>\<open>REDO\<close> before) and that matches no
  refusal pattern, the rule returns \<^verbatim>\<open>NEEDS_FIX\<close> with the feedback of a truncated
  response exactly when the response is longer than 100 code units and its last code
  unit after \<^verbatim>\<open>trimEnd\<close> is none of \<^verbatim>\<open>. ! ?\<close>, newline, backtick, double quote,
  \<^verbatim>\<open>)\<close> and \<^verbatim>\<open>]\<close>; otherwise the rule passes (returns null). A response of length 99
  passes, one of length 101 without such a last code unit fails.
\<close>

theorem completeness_truncated:
  assumes "trim response \<noteq> []"
      and "\<not> list_ex (\<lambda>pattern. test pattern (trim response)) refusalPatterns"
  shows "(completenessRule request response =
            Some \<lparr> passed = False, rating = NEEDS_FIX,
                   feedback = ''Response appears truncated mid-sentence'', confidence = 1 \<rparr>
          \<longleftrightarrow> 100 < length response \<and>
              last (trimEnd response) \<notin> {CHR ''.'', CHR ''!'', CHR ''?'', CHR 0x0A, CHR 0x60, CHR 0x22, CHR '')'', CHR '']''})
       \<and> (completenessRule request response = None
          \<longleftrightarrow> \<not> (100 < length response \<and>
              last (trimEnd response) \<notin> {CHR ''.'', CHR ''!'', CHR ''?'', CHR 0x0A, CHR 0x60, CHR 0x22, CHR '')'', CHR '']''}))
       \<and> (length response = 99 \<longrightarrow> completenessRule request response = None)
       \<and> (length response = 101 \<and>
            last (trimEnd response) \<notin> {CHR ''.'', CHR ''!'', CHR ''?'', CHR 0x0A, CHR 0x60, CHR 0x22, CHR '')'', CHR '']''}
            \<longrightarrow> completenessRule request response =
                Some \<lparr> passed = False, rating = NEEDS_FIX,
                   feedback = ''Response appears truncated mid-sentence'', confidence = 1 \<rparr>)"
proof -
  from assms(1) have ne: "response \<noteq> []" "trimEnd response \<noteq> []"
    by (auto simp: trim_Nil_iff trimEnd_def)
  have t: "endsWithTerminator (trimEnd response) \<longleftrightarrow>
      last (trimEnd response) \<in> {CHR ''.'', CHR ''!'', CHR ''?'', CHR 0x0A, CHR 0x60, CHR 0x22, CHR '')'', CHR '']''}"
    using ne by (simp add: endsWithTerminator_def terminators_def)
  have r: "completenessRule request response =
           (if length response > 100 \<and> \<not> endsWithTerminator (trimEnd response)
            then Some (fail ''completeness'' ''Response appears truncated mid-sentence'' NEEDS_FIX)
            else None)"
    using assms ne by (simp add: completenessRule_def)
  show ?thesis
    unfolding r t by (simp add: fail_def)
qed

text \<open>C7 at a response of 101 letters, and at one of 99 letters.\<close>

theorem completeness_truncated_witness:
  "completenessRule ''tell me a story'' (replicate 101 (CHR ''a'')) =
     Some \<lparr> passed = False, rating = NEEDS_FIX,
            feedback = ''Response appears truncated mid-sentence'', confidence = 1 \<rparr>
   \<and> completenessRule ''tell me a story'' (replicate 99 (CHR ''a'')) = None"
proof -
  have te: "trimEnd (replicate 101 (CHR ''a'')) = replicate 101 (CHR ''a'')"
    by (simp add: trimEnd_def isWhiteSpace_def)
  have t1: "trim (replicate 101 (CHR ''a'')) \<noteq> []"
    by (simp add: trim_Nil_iff trimEnd_Nil_iff isWhiteSpace_def)
  have t2: "trim (replicate 99 (CHR ''a'')) \<noteq> []"
    by (simp add: trim_Nil_iff trimEnd_Nil_iff isWhiteSpace_def)
  have t3: "trim (replicate 101 (CHR ''a'')) = replicate 101 (CHR ''a'')"
    by (simp add: trim_def trimStart_def trimEnd_def isWhiteSpace_def)
  have t4: "trim (replicate 99 (CHR ''a'')) = replicate 99 (CHR ''a'')"
    by (simp add: trim_def trimStart_def trimEnd_def isWhiteSpace_def)
  have nr1: "\<not> list_ex (\<lambda>pattern. test pattern (trim (replicate 101 (CHR ''a'')))) refusalPatterns"
    unfolding t3
    by (simp add: refusalPatterns_def test_def seq_def alt_def lit_i_def canonicalize_def)
  have nr2: "\<not> list_ex (\<lambda>pattern. test pattern (trim (replicate 99 (CHR ''a'')))) refusalPatterns"
    unfolding t4
    by (simp add: refusalPatterns_def test_def seq_def alt_def lit_i_def canonicalize_def)
  have l: "last (trimEnd (replicate 101 (CHR ''a''))) = CHR ''a''"
    unfolding te by simp
  show ?thesis
    using completeness_truncated [OF t1 nr1, of "''tell me a story''"]
          completeness_truncated [OF t2 nr2, of "''tell me a story''"]
    by (simp add: l)
qed

subsection \<open>Recovery notifier\<close>

text \<open>
  C6, as stated, fails for the empty set of notify targets: \<^verbatim>\<open>checkAndNotify\<close> returns
  at its first line, before it looks at the file, and the recovery-event file stays.
\<close>

theorem notifier_no_targets_counterexample:
  "checkAndNotify \<lparr> getChannel = (\<lambda>c. Some ''web''), sendMessage = (\<lambda>n c v m. None) \<rparr> []
     1700000060000 ''2023-11-14T22:14:20.000Z''
     \<lparr> ns_eventFile = Some (JsonEvent \<lparr> re_timestamp = 1700000000000, re_reason = ''heartbeat stale'',
                                          re_restartCount = 1, re_watchdogPid = 77 \<rparr>),
       ns_sent = [] \<rparr>
   = Inr \<lparr> ns_eventFile = Some (JsonEvent \<lparr> re_timestamp = 1700000000000, re_reason = ''heartbeat stale'',
                                          re_restartCount = 1, re_watchdogPid = 77 \<rparr>),
       ns_sent = [] \<rparr>"
  by (simp add: checkAndNotify_def)

text \<open>
  C6, amended. When at least one notify target is configured and the recovery-event
  file exists, \<^verbatim>\<open>checkAndNotify\<close> finishes normally and has removed the file, whatever
  targets are configured and however each send ends: both when the file cannot be read
  or parsed, and when it parses to an event object or to any other value that the code
  can use without an exception (such as \<^verbatim>\<open>{}\<close> or a number). With no notify target
  configured, \<^verbatim>\<open>checkAndNotify\<close> returns at once and leaves everything, the file
  included, as it was.
\<close>

theorem notifier_removes_file:
  "(notifyTargets \<noteq> [] \<and> ns_eventFile st = Some f \<and> \<not> throwsOnUse f
      \<longrightarrow> (\<exists>st'. checkAndNotify ch notifyTargets now nowIso st = Inr st' \<and> ns_eventFile st' = None))
   \<and> checkAndNotify ch [] now nowIso st = Inr st"
proof (intro conjI impI)
  assume "notifyTargets \<noteq> [] \<and> ns_eventFile st = Some f \<and> \<not> throwsOnUse f"
  then show "\<exists>st'. checkAndNotify ch notifyTargets now nowIso st = Inr st' \<and> ns_eventFile st' = None"
    by (cases f) (auto simp: checkAndNotify_def cleanup_def)
next
  show "checkAndNotify ch [] now nowIso st = Inr st"
    by (simp add: checkAndNotify_def)
qed

text \<open>
  The amended C6 with one send that fails, one target without a separator and one
  unknown channel; with a file that cannot be parsed; with a file that holds \<^verbatim>\<open>{}\<close>
  (no timestamp, reason or restart count); and with no target.
\<close>

theorem notifier_removes_file_witness:
  "(\<exists>st'. checkAndNotify \<lparr> getChannel = (\<lambda>c. if c = ''web'' then Some ''web'' else None),
                           sendMessage = (\<lambda>n c v m. Some ''Error: offline'') \<rparr>
            [''web:c1'', ''nochannel'', ''tg:5''] 1700000060499 ''2023-11-14T22:14:20.000Z''
            \<lparr> ns_eventFile = Some (JsonEvent \<lparr> re_timestamp = 1700000000000, re_reason = ''heartbeat stale'',
                                          re_restartCount = 1, re_watchdogPid = 77 \<rparr>),
              ns_sent = [] \<rparr> = Inr st'
         \<and> ns_eventFile st' = None)
   \<and> (\<exists>st'. checkAndNotify \<lparr> getChannel = (\<lambda>c. if c = ''web'' then Some ''web'' else None),
                           sendMessage = (\<lambda>n c v m. None) \<rparr>
            [''web:c1''] 1700000060499 ''2023-11-14T22:14:20.000Z''
            \<lparr> ns_eventFile = Some Unparseable, ns_sent = [] \<rparr> = Inr st'
         \<and> ns_eventFile st' = None)
   \<and> (\<exists>st'. checkAndNotify \<lparr> getChannel = (\<lambda>c. if c = ''web'' then Some ''web'' else None),
                           sendMessage = (\<lambda>n c v m. None) \<rparr>
            [''web:c1''] 1700000060499 ''2023-11-14T22:14:20.000Z''
            \<lparr> ns_eventFile = Some (JsonOther \<lparr> cv_timestamp = Some NotANumber,
                                          cv_reason = Some ''undefined'',
                                          cv_restartCount = Some ''undefined'' \<rparr>),
              ns_sent = [] \<rparr> = Inr st'
         \<and> ns_eventFile st' = None)
   \<and> checkAndNotify \<lparr> getChannel = (\<lambda>c. if c = ''web'' then Some ''web'' else None),
                           sendMessage = (\<lambda>n c v m. None) \<rparr>
            [] 1700000060499 ''2023-11-14T22:14:20.000Z''
            \<lparr> ns_eventFile = Some Unparseable, ns_sent = [] \<rparr>
        = Inr \<lparr> ns_eventFile = Some Unparseable, ns_sent = [] \<rparr>"
  using notifier_removes_file [of "[''web:c1'', ''nochannel'', ''tg:5'']"
          "\<lparr> ns_eventFile = Some (JsonEvent \<lparr> re_timestamp = 1700000000000, re_reason = ''heartbeat stale'',
                                          re_restartCount = 1, re_watchdogPid = 77 \<rparr>),
              ns_sent = [] \<rparr>"
          "JsonEvent \<lparr> re_timestamp = 1700000000000, re_reason = ''heartbeat stale'',
                                          re_restartCount = 1, re_watchdogPid = 77 \<rparr>"
          "\<lparr> getChannel = (\<lambda>c. if c = ''web'' then Some ''web'' else None),
                           sendMessage = (\<lambda>n c v m. Some ''Error: offline'') \<rparr>"
          1700000060499 "''2023-11-14T22:14:20.000Z''"]
        notifier_removes_file [of "[''web:c1'']"
          "\<lparr> ns_eventFile = Some Unparseable, ns_sent = [] \<rparr>" Unparseable
          "\<lparr> getChannel = (\<lambda>c. if c = ''web'' then Some ''web'' else None),
                           sendMessage = (\<lambda>n c v m. None) \<rparr>"
          1700000060499 "''2023-11-14T22:14:20.000Z''"]
        notifier_removes_file [of "[''web:c1'']"
          "\<lparr> ns_eventFile = Some (JsonOther \<lparr> cv_timestamp = Some NotANumber,
                                          cv_reason = Some ''undefined'',
                                          cv_restartCount = Some ''undefined'' \<rparr>),
              ns_sent = [] \<rparr>"
          "JsonOther \<lparr> cv_timestamp = Some NotANumber, cv_reason = Some ''undefined'',
                        cv_restartCount = Some ''undefined'' \<rparr>"
          "\<lparr> getChannel = (\<lambda>c. if c = ''web'' then Some ''web'' else None),
                           sendMessage = (\<lambda>n c v m. None) \<rparr>"
          1700000060499 "''2023-11-14T22:14:20.000Z''"]
  by simp

text \<open>
  What the amended claim leaves out. A file that holds the JSON value \<^verbatim>\<open>null\<close> parses,
  so the \<^verbatim>\<open>catch\<close> branch is not taken; the access to \<^verbatim>\<open>event.timestamp\<close> then throws
  and the file is not removed. The same happens when a property cannot be converted.
\<close>

lemma notifier_throws_on_use:
  "notifyTargets \<noteq> [] \<Longrightarrow> ns_eventFile st = Some f \<Longrightarrow> throwsOnUse f \<Longrightarrow>
   \<exists>e. checkAndNotify ch notifyTargets now nowIso st = Inl e"
  by (cases f) (auto simp: checkAndNotify_def split: option.splits)

subsection \<open>Task recovery\<close>

lemma readClock_fields [simp]:
  "rw_active (snd (readClock env w)) = rw_active w"
  "rw_completed (snd (readClock env w)) = rw_completed w"
  "rw_sent (snd (readClock env w)) = rw_sent w"
  "rw_journal (snd (readClock env w)) = rw_journal w"
  by (simp_all add: readClock_def)

lemma journalLog_dirs [simp]:
  "rw_active (journalLog env ev t c v d w) = rw_active w"
  "rw_completed (journalLog env ev t c v d w) = rw_completed w"
  by (simp_all add: journalLog_def readClock_def Let_def)

lemma keepsDirs_send: "keepsDirs w (send env c v m w)"
  by (simp add: keepsDirs_def send_def Let_def split: option.splits)

lemma keepsDirs_Inr: "keepsDirs w (Inr w)"
  by (simp add: keepsDirs_def)

lemma keepsDirs_andThen:
  "keepsDirs w r \<Longrightarrow> (\<And>w'. rw_active (f w') = rw_active w' \<and> rw_completed (f w') = rw_completed w')
   \<Longrightarrow> keepsDirs w (andThen r f)"
  by (cases r) (auto simp: keepsDirs_def andThen_def)

lemma keepsDirs_recoverNotice: "keepsDirs w (recoverNotice env task w)"
  by (cases "pt_phase task")
     (auto simp: recoverNotice_def Let_def intro!: keepsDirs_andThen keepsDirs_send keepsDirs_Inr)

lemma complete_present:
  assumes "renv_enabled env" and "map_of (rw_active w) (taskId @ ''.json'') = Some (TaskJson task)"
  shows "rw_active (TaskPersistence_complete env taskId w) = AList.delete (taskId @ ''.json'') (rw_active w)"
    and "\<exists>d t'. rw_completed (TaskPersistence_complete env taskId w)
                  = (rw_completed w)((d, taskId @ ''.json'') \<mapsto> t') \<and> pt_id t' = pt_id task"
proof -
  show "rw_active (TaskPersistence_complete env taskId w) = AList.delete (taskId @ ''.json'') (rw_active w)"
    using assms by (simp add: TaskPersistence_complete_def readClock_def Let_def)
  have "rw_completed (TaskPersistence_complete env taskId w)
          = (rw_completed w)((take 10 (renv_now env (Suc (rw_clock w))), taskId @ ''.json'')
               \<mapsto> task\<lparr>pt_updatedAt := renv_now env (rw_clock w)\<rparr>)"
    using assms by (simp add: TaskPersistence_complete_def readClock_def Let_def)
  moreover have "pt_id (task\<lparr>pt_updatedAt := renv_now env (rw_clock w)\<rparr>) = pt_id task"
    by simp
  ultimately show "\<exists>d t'. rw_completed (TaskPersistence_complete env taskId w)
                  = (rw_completed w)((d, taskId @ ''.json'') \<mapsto> t') \<and> pt_id t' = pt_id task"
    by blast
qed

lemma fail_present:
  assumes "renv_enabled env" and "map_of (rw_active w) (taskId @ ''.json'') = Some (TaskJson task)"
  shows "rw_active (TaskPersistence_fail env taskId err w) = AList.delete (taskId @ ''.json'') (rw_active w)"
    and "\<exists>d t'. rw_completed (TaskPersistence_fail env taskId err w)
                  = (rw_completed w)((d, taskId @ ''.json'') \<mapsto> t') \<and> pt_id t' = pt_id task"
proof -
  let ?t = "task\<lparr>pt_phase := failed, pt_error := Some err, pt_updatedAt := renv_now env (rw_clock w)\<rparr>"
  let ?w = "(snd (readClock env w))\<lparr>rw_active := AList.update (taskId @ ''.json'') (TaskJson ?t) (rw_active w)\<rparr>"
  have f: "TaskPersistence_fail env taskId err w = TaskPersistence_complete env taskId ?w"
    using assms by (simp add: TaskPersistence_fail_def readClock_def Let_def)
  have m: "map_of (rw_active ?w) (taskId @ ''.json'') = Some (TaskJson ?t)"
    by (simp add: update_conv')
  show "rw_active (TaskPersistence_fail env taskId err w) = AList.delete (taskId @ ''.json'') (rw_active w)"
    unfolding f using complete_present(1) [OF assms(1) m] by (simp add: delete_update_same)
  from complete_present(2) [OF assms(1) m]
  show "\<exists>d t'. rw_completed (TaskPersistence_fail env taskId err w)
                  = (rw_completed w)((d, taskId @ ''.json'') \<mapsto> t') \<and> pt_id t' = pt_id task"
    unfolding f by simp
qed

lemma recoverTask_present:
  assumes "renv_enabled env" and "map_of (rw_active w) (pt_id task @ ''.json'') = Some (TaskJson task')"
  shows "rw_active (recoverTask env task w) = AList.delete (pt_id task @ ''.json'') (rw_active w)"
    and "\<exists>d t'. rw_completed (recoverTask env task w)
                  = (rw_completed w)((d, pt_id task @ ''.json'') \<mapsto> t') \<and> pt_id t' = pt_id task'"
proof -
  have k: "keepsDirs w (recoverNotice env task w)" by (rule keepsDirs_recoverNotice)
  show "rw_active (recoverTask env task w) = AList.delete (pt_id task @ ''.json'') (rw_active w)"
  proof (cases "recoverNotice env task w")
    case (Inr w1)
    with k have "rw_active w1 = rw_active w" by (simp add: keepsDirs_def)
    with Inr assms show ?thesis
      by (simp add: recoverTask_def complete_present(1) [where task = task'])
  next
    case (Inl p)
    obtain e w1 where p: "p = (e, w1)" by (cases p)
    with k Inl have "rw_active w1 = rw_active w" by (simp add: keepsDirs_def)
    with Inl p assms show ?thesis
      by (simp add: recoverTask_def fail_present(1) [where task = task'])
  qed
  show "\<exists>d t'. rw_completed (recoverTask env task w)
                  = (rw_completed w)((d, pt_id task @ ''.json'') \<mapsto> t') \<and> pt_id t' = pt_id task'"
  proof (cases "recoverNotice env task w")
    case (Inr w1)
    with k have "rw_active w1 = rw_active w" "rw_completed w1 = rw_completed w"
      by (simp_all add: keepsDirs_def)
    with Inr assms complete_present(2) [of env w1 "pt_id task" task'] show ?thesis
      by (simp add: recoverTask_def)
  next
    case (Inl p)
    obtain e w1 where p: "p = (e, w1)" by (cases p)
    with k Inl have "rw_active w1 = rw_active w" "rw_completed w1 = rw_completed w"
      by (simp_all add: keepsDirs_def)
    with Inl p assms fail_present(2) [of env w1 "pt_id task" task' "''Recovery failed: '' @ e"] show ?thesis
      by (simp add: recoverTask_def)
  qed
qed

lemma endsWith_append [simp]: "endsWith (a @ b) b"
  by (simp add: endsWith_def)

lemma listActive_orphanedTaskFiles:
  "renv_enabled env \<Longrightarrow> orphanedTaskFiles (rw_active w) \<Longrightarrow>
   map (\<lambda>t. (pt_id t @ ''.json'', TaskJson t)) (listActive env w) = rw_active w"
proof -
  have "orphanedTaskFiles al \<Longrightarrow>
     map (\<lambda>t. (pt_id t @ ''.json'', TaskJson t))
       (concat (map (\<lambda>(file, content). case content of TaskJson task \<Rightarrow> [task] | Garbled \<Rightarrow> [])
                    (filter (\<lambda>(file, content). endsWith file ''.json'') al))) = al" for al
    by (induction al) (auto simp: orphanedTaskFiles_def)
  then show "renv_enabled env \<Longrightarrow> orphanedTaskFiles (rw_active w) \<Longrightarrow> ?thesis"
    by (simp add: listActive_def)
qed

lemma fold_recoverTask:
  assumes en: "renv_enabled env"
  shows "distinct (map pt_id ts) \<Longrightarrow> rw_active w = map (\<lambda>t. (pt_id t @ ''.json'', TaskJson t)) ts \<Longrightarrow>
     rw_active (fold (recoverTask env) ts w) = [] \<and>
     (\<exists>dateOf. dom (rw_completed (fold (recoverTask env) ts w))
                = dom (rw_completed w) \<union> (\<lambda>t. (dateOf (pt_id t @ ''.json''), pt_id t @ ''.json'')) ` set ts) \<and>
     (\<forall>t \<in> set ts. \<exists>d t'. rw_completed (fold (recoverTask env) ts w) (d, pt_id t @ ''.json'') = Some t'
                          \<and> pt_id t' = pt_id t) \<and>
     (\<forall>d f. f \<notin> (\<lambda>t. pt_id t @ ''.json'') ` set ts \<longrightarrow>
         rw_completed (fold (recoverTask env) ts w) (d, f) = rw_completed w (d, f))"
proof (induction ts arbitrary: w)
  case Nil
  then show ?case by simp
next
  case (Cons t ts)
  let ?f = "pt_id t @ ''.json''"
  let ?w1 = "recoverTask env t w"
  let ?wn = "fold (recoverTask env) ts ?w1"
  from Cons.prems have m: "map_of (rw_active w) ?f = Some (TaskJson t)" by simp
  have notin: "?f \<notin> fst ` set (map (\<lambda>t. (pt_id t @ ''.json'', TaskJson t)) ts)"
    using Cons.prems(1) by (auto simp: image_iff)
  have a1: "rw_active ?w1 = map (\<lambda>t. (pt_id t @ ''.json'', TaskJson t)) ts"
    using recoverTask_present(1) [OF en m] Cons.prems(2) notin by simp
  obtain d t' where c1: "rw_completed ?w1 = (rw_completed w)((d, ?f) \<mapsto> t')" and id1: "pt_id t' = pt_id t"
    using recoverTask_present(2) [OF en m] by blast
  from Cons.prems(1) have dist: "distinct (map pt_id ts)" by simp
  note IH = Cons.IH [OF dist a1]
  from IH obtain dateOf where
    dom: "dom (rw_completed ?wn) = dom (rw_completed ?w1) \<union> (\<lambda>t. (dateOf (pt_id t @ ''.json''), pt_id t @ ''.json'')) ` set ts"
    by blast
  from IH have rest: "\<forall>t \<in> set ts. \<exists>d t'. rw_completed ?wn (d, pt_id t @ ''.json'') = Some t' \<and> pt_id t' = pt_id t"
    and other: "\<forall>d f. f \<notin> (\<lambda>t. pt_id t @ ''.json'') ` set ts \<longrightarrow> rw_completed ?wn (d, f) = rw_completed ?w1 (d, f)"
    and act: "rw_active ?wn = []"
    by blast+
  have fnot: "?f \<notin> (\<lambda>t. pt_id t @ ''.json'') ` set ts"
    using Cons.prems(1) by auto
  have idnot: "pt_id t \<notin> pt_id ` set ts"
    using Cons.prems(1) by auto
  have own: "rw_completed ?wn (d, ?f) = Some t'"
    using other fnot c1 by simp
  have "dom (rw_completed ?wn)
      = dom (rw_completed w) \<union> (\<lambda>u. ((dateOf(pt_id t @ ''.json'' := d)) (pt_id u @ ''.json''), pt_id u @ ''.json'')) ` set (t # ts)"
  proof -
    have "(\<lambda>u. ((dateOf(pt_id t @ ''.json'' := d)) (pt_id u @ ''.json''), pt_id u @ ''.json'')) ` set ts
        = (\<lambda>u. (dateOf (pt_id u @ ''.json''), pt_id u @ ''.json'')) ` set ts"
      using fnot by (intro image_cong) (auto simp: image_iff)
    then show ?thesis
      unfolding dom c1 by auto
  qed
  then have e: "\<exists>dateOf. dom (rw_completed ?wn)
      = dom (rw_completed w) \<union> (\<lambda>u. (dateOf (pt_id u @ ''.json''), pt_id u @ ''.json'')) ` set (t # ts)"
    by blast
  have all: "\<forall>u \<in> set (t # ts). \<exists>d t'. rw_completed ?wn (d, pt_id u @ ''.json'') = Some t' \<and> pt_id t' = pt_id u"
    using own id1 rest by auto
  have oth: "\<forall>d' f. f \<notin> (\<lambda>t. pt_id t @ ''.json'') ` set (t # ts) \<longrightarrow>
         rw_completed ?wn (d', f) = rw_completed w (d', f)"
    using other c1 by auto
  show ?case
    using act e all oth by simp
qed

text \<open>
  C4: with task persistence enabled, start from an active directory of \<open>N\<close> orphaned
  task files (each named after the id of the task it holds). After \<^verbatim>\<open>recover\<close> the active
  directory is empty, every orphan has a file of its own name, holding a task of the
  same id, in some date directory under \<^verbatim>\<open>completed\<close>, the completed directory has
  gained exactly these files, and starting from an empty completed directory it holds
  \<open>N\<close> files. This holds for every behaviour of the channels: each send may succeed or
  throw.
\<close>

theorem recovery_moves_all_orphans:
  assumes "renv_enabled env" and "orphanedTaskFiles (rw_active w)"
  shows "rw_active (recover env w) = []
       \<and> (\<forall>(file, content) \<in> set (rw_active w). \<exists>dateDir task task'.
             content = TaskJson task \<and>
             rw_completed (recover env w) (dateDir, file) = Some task' \<and> pt_id task' = pt_id task)
       \<and> (\<exists>dateOf. dom (rw_completed (recover env w))
             = dom (rw_completed w) \<union> (\<lambda>file. (dateOf file, file)) ` fst ` set (rw_active w))
       \<and> (rw_completed w = Map.empty \<longrightarrow>
             card (dom (rw_completed (recover env w))) = length (rw_active w))"
proof -
  let ?ts = "listActive env w"
  let ?w' = "fold (recoverTask env) ?ts w"
  have al: "map (\<lambda>t. (pt_id t @ ''.json'', TaskJson t)) ?ts = rw_active w"
    using assms by (rule listActive_orphanedTaskFiles)
  have r: "recover env w = ?w'"
    by (cases ?ts) (simp_all add: recover_def)
  have "distinct (map fst (rw_active w))"
    using assms(2) by (simp add: orphanedTaskFiles_def)
  then have dn: "distinct (map (\<lambda>t. pt_id t @ ''.json'') ?ts)"
    unfolding al [symmetric] by (simp add: comp_def)
  then have "distinct (map pt_id ?ts)"
    by (simp add: distinct_map inj_on_def)
  note F = fold_recoverTask [OF assms(1) this al [symmetric]]
  have names: "fst ` set (rw_active w) = (\<lambda>t. pt_id t @ ''.json'') ` set ?ts"
    unfolding al [symmetric] by (simp add: image_image)
  from F have 1: "rw_active ?w' = []" by blast
  from F have "\<forall>t \<in> set ?ts. \<exists>d t'. rw_completed ?w' (d, pt_id t @ ''.json'') = Some t' \<and> pt_id t' = pt_id t"
    by blast
  then have 2: "\<forall>(file, content) \<in> set (rw_active w). \<exists>dateDir task task'.
             content = TaskJson task \<and> rw_completed ?w' (dateDir, file) = Some task' \<and> pt_id task' = pt_id task"
    unfolding al [symmetric] by auto
  from F obtain dateOf where
    d: "dom (rw_completed ?w') = dom (rw_completed w) \<union> (\<lambda>t. (dateOf (pt_id t @ ''.json''), pt_id t @ ''.json'')) ` set ?ts"
    by blast
  have d': "dom (rw_completed ?w') = dom (rw_completed w) \<union> (\<lambda>file. (dateOf file, file)) ` fst ` set (rw_active w)"
    unfolding d names by (simp add: image_image)
  have 4: "card (dom (rw_completed ?w')) = length (rw_active w)" if "rw_completed w = Map.empty"
  proof -
    have "inj_on (\<lambda>file. (dateOf file, file)) (set (map fst (rw_active w)))"
      by (simp add: inj_on_def)
    then have "card ((\<lambda>file. (dateOf file, file)) ` set (map fst (rw_active w))) = card (set (map fst (rw_active w)))"
      by (rule card_image)
    also have "\<dots> = length (rw_active w)"
      using distinct_card [OF \<open>distinct (map fst (rw_active w))\<close>] by simp
    finally show ?thesis
      unfolding d' using that by simp
  qed
  show ?thesis
    unfolding r using 1 2 d' 4 by blast
qed

text \<open>
  C4 with two orphans: one in phase \<^verbatim>\<open>verifying\<close> whose send throws, one in phase
  \<^verbatim>\<open>received\<close> whose channel is not registered.
\<close>

theorem recovery_moves_all_orphans_witness:
  "rw_active (recover
      \<lparr> renv_channels = \<lparr> getChannel = (\<lambda>c. if c = ''web'' then Some ''web'' else None),
                            sendMessage = (\<lambda>n c v m. if n = 0 then Some ''Error: socket closed'' else None) \<rparr>,
         renv_now = (\<lambda>k. ''2026-01-05T10:00:00.000Z''), renv_enabled = True, renv_journal = True \<rparr>
      \<lparr> rw_active =
           [(''t1.json'', TaskJson \<lparr> pt_id = ''t1'', pt_channelId = ''web'', pt_conversationId = ''c1'',
               pt_originalMessage = \<lparr> orig_text = ''What is 2+2?'', orig_senderId = ''web-user'',
                 orig_senderName = None, orig_platformMessageId = None, orig_timestamp = 1767607000000 \<rparr>,
               pt_phase = verifying, pt_startedAt = ''2026-01-05T09:56:40.000Z'',
               pt_updatedAt = ''2026-01-05T09:56:42.000Z'', pt_error = None, pt_pendingResponse = Some ''X'' \<rparr>),
            (''t2.json'', TaskJson \<lparr> pt_id = ''t2'', pt_channelId = ''telegram'', pt_conversationId = ''77'',
               pt_originalMessage = \<lparr> orig_text = ''hello'', orig_senderId = ''u5'',
                 orig_senderName = Some ''Ann'', orig_platformMessageId = Some ''991'', orig_timestamp = 1767607001000 \<rparr>,
               pt_phase = received, pt_startedAt = ''2026-01-05T09:56:41.000Z'',
               pt_updatedAt = ''2026-01-05T09:56:41.000Z'', pt_error = None, pt_pendingResponse = None \<rparr>)],
         rw_completed = Map.empty, rw_sent = [], rw_journal = [], rw_clock = 0 \<rparr>) = []
   \<and> card (dom (rw_completed (recover
      \<lparr> renv_channels = \<lparr> getChannel = (\<lambda>c. if c = ''web'' then Some ''web'' else None),
                            sendMessage = (\<lambda>n c v m. if n = 0 then Some ''Error: socket closed'' else None) \<rparr>,
         renv_now = (\<lambda>k. ''2026-01-05T10:00:00.000Z''), renv_enabled = True, renv_journal = True \<rparr>
      \<lparr> rw_active =
           [(''t1.json'', TaskJson \<lparr> pt_id = ''t1'', pt_channelId = ''web'', pt_conversationId = ''c1'',
               pt_originalMessage = \<lparr> orig_text = ''What is 2+2?'', orig_senderId = ''web-user'',
                 orig_senderName = None, orig_platformMessageId = None, orig_timestamp = 1767607000000 \<rparr>,
               pt_phase = verifying, pt_startedAt = ''2026-01-05T09:56:40.000Z'',
               pt_updatedAt = ''2026-01-05T09:56:42.000Z'', pt_error = None, pt_pendingResponse = Some ''X'' \<rparr>),
            (''t2.json'', TaskJson \<lparr> pt_id = ''t2'', pt_channelId = ''telegram'', pt_conversationId = ''77'',
               pt_originalMessage = \<lparr> orig_text = ''hello'', orig_senderId = ''u5'',
                 orig_senderName = Some ''Ann'', orig_platformMessageId = Some ''991'', orig_timestamp = 1767607001000 \<rparr>,
               pt_phase = received, pt_startedAt = ''2026-01-05T09:56:41.000Z'',
               pt_updatedAt = ''2026-01-05T09:56:41.000Z'', pt_error = None, pt_pendingResponse = None \<rparr>)],
         rw_completed = Map.empty, rw_sent = [], rw_journal = [], rw_clock = 0 \<rparr>))) = 2"
  using recovery_moves_all_orphans [of
      "\<lparr> renv_channels = \<lparr> getChannel = (\<lambda>c. if c = ''web'' then Some ''web'' else None),
                            sendMessage = (\<lambda>n c v m. if n = 0 then Some ''Error: socket closed'' else None) \<rparr>,
         renv_now = (\<lambda>k. ''2026-01-05T10:00:00.000Z''), renv_enabled = True, renv_journal = True \<rparr>"
      "\<lparr> rw_active =
           [(''t1.json'', TaskJson \<lparr> pt_id = ''t1'', pt_channelId = ''web'', pt_conversationId = ''c1'',
               pt_originalMessage = \<lparr> orig_text = ''What is 2+2?'', orig_senderId = ''web-user'',
                 orig_senderName = None, orig_platformMessageId = None, orig_timestamp = 1767607000000 \<rparr>,
               pt_phase = verifying, pt_startedAt = ''2026-01-05T09:56:40.000Z'',
               pt_updatedAt = ''2026-01-05T09:56:42.000Z'', pt_error = None, pt_pendingResponse = Some ''X'' \<rparr>),
            (''t2.json'', TaskJson \<lparr> pt_id = ''t2'', pt_channelId = ''telegram'', pt_conversationId = ''77'',
               pt_originalMessage = \<lparr> orig_text = ''hello'', orig_senderId = ''u5'',
                 orig_senderName = Some ''Ann'', orig_platformMessageId = Some ''991'', orig_timestamp = 1767607001000 \<rparr>,
               pt_phase = received, pt_startedAt = ''2026-01-05T09:56:41.000Z'',
               pt_updatedAt = ''2026-01-05T09:56:41.000Z'', pt_error = None, pt_pendingResponse = None \<rparr>)],
         rw_completed = Map.empty, rw_sent = [], rw_journal = [], rw_clock = 0 \<rparr>"]
  by (simp add: orphanedTaskFiles_def)

subsection \<open>History store: the segment index\<close>

lemma contiguous_snoc:
  "contiguous (xs @ [y]) \<longleftrightarrow> contiguous xs \<and> (xs \<noteq> [] \<longrightarrow> sm_lastSeq (last xs) + 1 = sm_firstSeq y)"
  by (induction xs rule: contiguous.induct) auto

lemma contiguous_drop: "contiguous xs \<Longrightarrow> contiguous (drop n xs)"
proof (induction xs arbitrary: n rule: contiguous.induct)
  case (3 s t rest)
  then show ?case by (cases n) auto
qed (auto simp: drop_Cons split: nat.splits)

lemma contiguous_nth:
  "contiguous xs \<Longrightarrow> Suc i < length xs \<Longrightarrow> sm_lastSeq (xs ! i) + 1 = sm_firstSeq (xs ! Suc i)"
proof (induction xs arbitrary: i rule: contiguous.induct)
  case (3 s t rest)
  then show ?case by (cases i) auto
qed auto

lemma prune_fst: "fst (prune m segs files) = drop (length segs - m) segs"
proof (induction segs arbitrary: files)
  case Nil
  then show ?case by simp
next
  case (Cons s segs)
  show ?case
  proof (cases "length (s # segs) > m")
    case True
    then have "length (s # segs) - m = Suc (length segs - m)" by simp
    with True Cons show ?thesis by simp
  next
    case False
    then show ?thesis by simp
  qed
qed


lemma readIndex_exists [simp]: "readIndex (dir\<lparr> cd_exists := b \<rparr>) = readIndex dir"
  by (simp add: readIndex_def)

lemma addMessageDir_index:
  "readIndex (addMessageDir cfg env m md dir) =
     \<lparr> si_nextSeq = si_nextSeq (readIndex dir) + 1,
       si_segments = drop (length (appendedSegments cfg env (readIndex dir)) - hc_maxSegments cfg)
                       (appendedSegments cfg env (readIndex dir)) \<rparr>"
  unfolding addMessageDir_def appendedSegments_def Let_def
  by (simp add: case_prod_beta prune_fst readIndex_def)

lemma appended_ok:
  assumes "indexOk m index"
  shows "contiguous (appendedSegments cfg env index)"
    and "\<forall>s \<in> set (appendedSegments cfg env index). 1 \<le> sm_firstSeq s \<and> sm_firstSeq s \<le> sm_lastSeq s"
    and "appendedSegments cfg env index \<noteq> []"
    and "sm_lastSeq (last (appendedSegments cfg env index)) = si_nextSeq index"
    and "sm_firstSeq (hd (appendedSegments cfg env index)) = 1 \<or> m \<le> length (appendedSegments cfg env index)"
proof -
  let ?segs = "si_segments index"
  from assms have c: "contiguous ?segs"
    and b: "\<forall>s \<in> set ?segs. 1 \<le> sm_firstSeq s \<and> sm_firstSeq s \<le> sm_lastSeq s"
    and n: "si_nextSeq index = (if ?segs = [] then 1 else sm_lastSeq (last ?segs) + 1)"
    and h: "?segs \<noteq> [] \<longrightarrow> sm_firstSeq (hd ?segs) = 1 \<or> m \<le> length ?segs"
    by (simp_all add: indexOk_def Let_def)
  show "appendedSegments cfg env index \<noteq> []"
    by (simp add: appendedSegments_def Let_def)
  show "sm_lastSeq (last (appendedSegments cfg env index)) = si_nextSeq index"
    by (simp add: appendedSegments_def Let_def)
  show "contiguous (appendedSegments cfg env index)"
  proof (cases "needsNewSegment cfg index")
    case True
    with c n show ?thesis
      by (simp add: appendedSegments_def Let_def contiguous_snoc)
  next
    case False
    then have ne: "?segs \<noteq> []" by (auto simp: needsNewSegment_def)
    then obtain xs x where sx: "?segs = xs @ [x]" by (metis append_butlast_last_id)
    with c have "contiguous (xs @ [x])" by simp
    then have "contiguous (xs @ [x\<lparr> sm_lastSeq := si_nextSeq index, sm_count := sm_count x + 1,
                           sm_sizeBytes := sm_sizeBytes x + ae_bytesWritten env,
                           sm_endedAt := ae_now env \<rparr>])"
      by (simp add: contiguous_snoc)
    with False sx show ?thesis
      by (simp add: appendedSegments_def Let_def)
  qed
  show "\<forall>s \<in> set (appendedSegments cfg env index). 1 \<le> sm_firstSeq s \<and> sm_firstSeq s \<le> sm_lastSeq s"
  proof (cases "needsNewSegment cfg index")
    case True
    with b n show ?thesis
      by (auto simp: appendedSegments_def Let_def)
  next
    case False
    then have ne: "?segs \<noteq> []" by (auto simp: needsNewSegment_def)
    then obtain xs x where sx: "?segs = xs @ [x]" by (metis append_butlast_last_id)
    with b n False show ?thesis
      by (auto simp: appendedSegments_def Let_def)
  qed
  show "sm_firstSeq (hd (appendedSegments cfg env index)) = 1 \<or> m \<le> length (appendedSegments cfg env index)"
  proof (cases "needsNewSegment cfg index")
    case True
    with h n show ?thesis
      by (cases ?segs) (auto simp: appendedSegments_def Let_def)
  next
    case False
    then have ne: "?segs \<noteq> []" by (auto simp: needsNewSegment_def)
    then obtain xs x where sx: "?segs = xs @ [x]" by (metis append_butlast_last_id)
    with h False show ?thesis
      by (cases xs) (auto simp: appendedSegments_def Let_def)
  qed
qed

lemma indexOk_step:
  assumes "indexOk m index" and "1 \<le> m"
  shows "indexOk m \<lparr> si_nextSeq = si_nextSeq index + 1,
                      si_segments = drop (length (appendedSegments cfg env index) - m) (appendedSegments cfg env index) \<rparr>"
proof -
  let ?a = "appendedSegments cfg env index"
  let ?d = "drop (length ?a - m) ?a"
  note A = appended_ok [OF assms(1), of cfg env]
  have ne: "?d \<noteq> []" using A(3) assms(2) by (cases ?a) auto
  have lt: "length ?a - m < length ?a" using A(3) assms(2) by (cases ?a) auto
  have l: "last ?d = last ?a" using lt by simp
  have 1: "contiguous ?d" using A(1) by (rule contiguous_drop)
  have 2: "\<forall>s \<in> set ?d. 1 \<le> sm_firstSeq s \<and> sm_firstSeq s \<le> sm_lastSeq s"
    using A(2) by (meson in_set_dropD)
  have 3: "sm_firstSeq (hd ?d) = 1 \<or> m \<le> length ?d"
  proof (cases "length ?a \<le> m")
    case True
    then have "?d = ?a" by simp
    with A(5) show ?thesis by simp
  next
    case False
    then show ?thesis by simp
  qed
  show ?thesis
    using 1 2 3 ne l A(4) by (simp add: indexOk_def Let_def)
qed

lemma indexOk_empty: "indexOk m \<lparr> si_nextSeq = 1, si_segments = [] \<rparr>"
  by (simp add: indexOk_def)

lemma addMessages_indexOk:
  assumes "1 \<le> hc_maxSegments cfg"
  shows "(\<forall>k. indexOk (hc_maxSegments cfg) (readIndex (store k)))
     \<Longrightarrow> indexOk (hc_maxSegments cfg) (readIndex (addMessages cfg calls store k))"
proof (induction calls arbitrary: store k)
  case Nil
  then have "indexOk (hc_maxSegments cfg) (readIndex (store k))" by blast
  then show ?case by (simp add: addMessages_def)
next
  case (Cons c calls)
  let ?s = "addMessage cfg (ac_env c) (ac_channelId c) (ac_conversationId c) (ac_message c) (ac_metadata c) store"
  have "\<forall>k. indexOk (hc_maxSegments cfg) (readIndex (?s k))"
    using Cons.prems indexOk_step [OF _ assms]
    by (auto simp: addMessage_def addMessageDir_index)
  then have "indexOk (hc_maxSegments cfg) (readIndex (addMessages cfg calls ?s k))"
    by (rule Cons.IH)
  then show ?case by (simp add: addMessages_def)
qed

lemma length_appendedSegments:
  "length (appendedSegments cfg env index) \<le> length (si_segments index) + 1"
  by (simp add: appendedSegments_def Let_def)

lemma appendedSegments_hd:
  assumes "indexOk m index"
      and "si_segments index \<noteq> [] \<longrightarrow> sm_firstSeq (hd (si_segments index)) = 1"
  shows "sm_firstSeq (hd (appendedSegments cfg env index)) = 1"
proof (cases "si_segments index")
  case Nil
  with assms(1) show ?thesis
    by (simp add: appendedSegments_def Let_def needsNewSegment_def indexOk_def)
next
  case (Cons x xs)
  with assms(2) show ?thesis
    by (cases xs) (simp_all add: appendedSegments_def Let_def needsNewSegment_def)
qed

lemma unevicted_step:
  assumes "unevicted m (Suc n) index" and "1 \<le> m"
  shows "unevicted m n \<lparr> si_nextSeq = si_nextSeq index + 1,
           si_segments = drop (length (appendedSegments cfg env index) - m) (appendedSegments cfg env index) \<rparr>"
proof -
  let ?a = "appendedSegments cfg env index"
  from assms(1) have ok: "indexOk m index" and len: "length (si_segments index) + Suc n \<le> m"
    and hd: "si_segments index \<noteq> [] \<longrightarrow> sm_firstSeq (hd (si_segments index)) = 1"
    by (simp_all add: unevicted_def)
  have "length ?a \<le> m" using length_appendedSegments [of cfg env index] len by simp
  then have d: "drop (length ?a - m) ?a = ?a" by simp
  have "length ?a + n \<le> m" using length_appendedSegments [of cfg env index] len by simp
  moreover have "sm_firstSeq (hd ?a) = 1" using ok hd by (rule appendedSegments_hd)
  moreover note indexOk_step [OF ok assms(2), of cfg env]
  ultimately show ?thesis
    unfolding unevicted_def d by simp
qed

lemma unevicted_mono: "unevicted m (Suc n) index \<Longrightarrow> unevicted m n index"
  by (simp add: unevicted_def)

lemma addMessages_unevicted:
  assumes "1 \<le> hc_maxSegments cfg"
  shows "(\<forall>k. unevicted (hc_maxSegments cfg) (length calls) (readIndex (store k)))
     \<Longrightarrow> unevicted (hc_maxSegments cfg) 0 (readIndex (addMessages cfg calls store k))"
proof (induction calls arbitrary: store k)
  case Nil
  then have "unevicted (hc_maxSegments cfg) 0 (readIndex (store k))"
    by (cases k) simp
  then show ?case by (simp add: addMessages_def)
next
  case (Cons c calls)
  let ?s = "addMessage cfg (ac_env c) (ac_channelId c) (ac_conversationId c) (ac_message c) (ac_metadata c) store"
  from Cons.prems have p: "\<And>k. unevicted (hc_maxSegments cfg) (Suc (length calls)) (readIndex (store k))"
    by (simp del: split_paired_All)
  have "unevicted (hc_maxSegments cfg) (length calls) (readIndex (?s k))" for k
    using unevicted_step [OF p assms] unevicted_mono [OF p]
    by (simp add: addMessage_def addMessageDir_index)
  then have "\<forall>k. unevicted (hc_maxSegments cfg) (length calls) (readIndex (?s k))" by blast
  then have "unevicted (hc_maxSegments cfg) 0 (readIndex (addMessages cfg calls ?s k))"
    by (rule Cons.IH)
  then show ?case by (simp add: addMessages_def)
qed

lemma appendedSegments_nonempty: "appendedSegments cfg env index \<noteq> []"
  by (simp add: appendedSegments_def Let_def)

lemma evicted_eq:
  "evicted cfg env dir = length (appendedSegments cfg env (readIndex dir)) - hc_maxSegments cfg"
  by (simp add: evicted_def Let_def prune_fst)

lemma firstSeq_increasing:
  assumes "contiguous xs" and "\<forall>s \<in> set xs. sm_firstSeq s \<le> sm_lastSeq s"
  shows "i < j \<Longrightarrow> j < length xs \<Longrightarrow> sm_firstSeq (xs ! i) < sm_firstSeq (xs ! j)"
proof (induction j)
  case 0
  then show ?case by simp
next
  case (Suc j)
  have step: "sm_firstSeq (xs ! j) < sm_firstSeq (xs ! Suc j)"
  proof -
    have "sm_lastSeq (xs ! j) + 1 = sm_firstSeq (xs ! Suc j)"
      using assms(1) Suc.prems(2) by (rule contiguous_nth)
    moreover have "sm_firstSeq (xs ! j) \<le> sm_lastSeq (xs ! j)"
      using assms(2) Suc.prems(2) by simp
    ultimately show ?thesis by simp
  qed
  show ?case
  proof (cases "i = j")
    case True
    with step show ?thesis by simp
  next
    case False
    with Suc.prems have "i < j" "j < length xs" by simp_all
    then have "sm_firstSeq (xs ! i) < sm_firstSeq (xs ! j)" by (rule Suc.IH)
    with step show ?thesis by simp
  qed
qed

lemma appendedSegments_hd_firstSeq:
  "sm_firstSeq (hd (appendedSegments cfg env index))
     = (if si_segments index = [] then si_nextSeq index else sm_firstSeq (hd (si_segments index)))"
proof (cases "si_segments index")
  case Nil
  then show ?thesis
    by (simp add: appendedSegments_def Let_def needsNewSegment_def)
next
  case (Cons x xs)
  then show ?thesis
    by (cases xs) (simp_all add: appendedSegments_def Let_def needsNewSegment_def)
qed

lemma first_step:
  assumes ok: "indexOk m index" and m: "1 \<le> m"
      and h: "si_segments index \<noteq> [] \<longrightarrow> (sm_firstSeq (hd (si_segments index)) = 1 \<longleftrightarrow> e = 0)"
      and z: "si_segments index = [] \<longrightarrow> e = 0"
  shows "sm_firstSeq (hd (drop (length (appendedSegments cfg env index) - m) (appendedSegments cfg env index))) = 1
           \<longleftrightarrow> e + (length (appendedSegments cfg env index) - m) = 0"
proof -
  let ?a = "appendedSegments cfg env index"
  note A = appended_ok [OF ok, of cfg env]
  show ?thesis
  proof (cases "length ?a \<le> m")
    case True
    then have d: "length ?a - m = 0" by simp
    have "sm_firstSeq (hd ?a) = 1 \<longleftrightarrow> e = 0"
    proof (cases "si_segments index = []")
      case True
      with ok have "si_nextSeq index = 1" by (simp add: indexOk_def Let_def)
      with True z show ?thesis by (simp add: appendedSegments_hd_firstSeq)
    next
      case False
      with h show ?thesis by (simp add: appendedSegments_hd_firstSeq)
    qed
    then show ?thesis unfolding d by simp
  next
    case False
    then have pos: "0 < length ?a - m" and lt: "length ?a - m < length ?a"
      using m by simp_all
    have "sm_firstSeq (?a ! 0) < sm_firstSeq (?a ! (length ?a - m))"
      using A(1) _ pos lt
    proof (rule firstSeq_increasing)
      show "\<forall>s \<in> set ?a. sm_firstSeq s \<le> sm_lastSeq s" using A(2) by blast
    qed
    moreover have "1 \<le> sm_firstSeq (?a ! 0)"
      using A(2) A(3) by (cases ?a) auto
    moreover have "hd (drop (length ?a - m) ?a) = ?a ! (length ?a - m)"
      using lt by (simp add: hd_drop_conv_nth)
    ultimately show ?thesis using pos by simp
  qed
qed

lemma addMessages_first:
  assumes m: "1 \<le> hc_maxSegments cfg"
  shows "indexOk (hc_maxSegments cfg) (readIndex (store k)) \<Longrightarrow>
         (si_segments (readIndex (store k)) \<noteq> [] \<longrightarrow>
            (sm_firstSeq (hd (si_segments (readIndex (store k)))) = 1 \<longleftrightarrow> e = 0)) \<Longrightarrow>
         (si_segments (readIndex (store k)) = [] \<longrightarrow> e = 0) \<Longrightarrow>
         (si_segments (readIndex (addMessages cfg calls store k)) \<noteq> [] \<longrightarrow>
            (sm_firstSeq (hd (si_segments (readIndex (addMessages cfg calls store k)))) = 1
               \<longleftrightarrow> e + evictions cfg calls store k = 0))
         \<and> (si_segments (readIndex (addMessages cfg calls store k)) = [] \<longrightarrow>
               e + evictions cfg calls store k = 0)"
proof (induction calls arbitrary: store e)
  case Nil
  then show ?case by (simp add: addMessages_def)
next
  case (Cons c calls)
  let ?s = "addMessage cfg (ac_env c) (ac_channelId c) (ac_conversationId c) (ac_message c) (ac_metadata c) store"
  let ?m = "hc_maxSegments cfg"
  have unfold: "addMessages cfg (c # calls) store = addMessages cfg calls ?s"
    by (simp add: addMessages_def)
  show ?case
  proof (cases "(ac_channelId c, ac_conversationId c) = k")
    case False
    then have same: "?s k = store k" by (auto simp: addMessage_def)
    have ev: "evictions cfg (c # calls) store k = evictions cfg calls ?s k"
      using False by simp
    show ?thesis
      unfolding unfold ev
      by (rule Cons.IH) (use Cons.prems in \<open>simp_all add: same\<close>)
  next
    case True
    let ?a = "appendedSegments cfg (ac_env c) (readIndex (store k))"
    let ?idx = "\<lparr> si_nextSeq = si_nextSeq (readIndex (store k)) + 1,
                  si_segments = drop (length ?a - ?m) ?a \<rparr>"
    have idx: "readIndex (?s k) = ?idx"
      using True by (auto simp: addMessage_def addMessageDir_index)
    have ok': "indexOk ?m (readIndex (?s k))"
      unfolding idx using Cons.prems(1) m by (rule indexOk_step)
    have ne: "si_segments (readIndex (?s k)) \<noteq> []"
    proof -
      have "?a \<noteq> []" by (rule appendedSegments_nonempty)
      then have "length ?a - ?m < length ?a" using m by (cases ?a) auto
      then show ?thesis unfolding idx by simp
    qed
    have f: "sm_firstSeq (hd (si_segments (readIndex (?s k)))) = 1
               \<longleftrightarrow> e + evicted cfg (ac_env c) (store k) = 0"
      unfolding idx evicted_eq
      using first_step [OF Cons.prems(1) m Cons.prems(2) Cons.prems(3), of cfg "ac_env c"]
      by simp
    have ev: "e + evictions cfg (c # calls) store k
                = (e + evicted cfg (ac_env c) (store k)) + evictions cfg calls ?s k"
      using True by simp
    show ?thesis
      unfolding unfold ev
      by (rule Cons.IH) (use ok' ne f in simp_all)
  qed
qed

lemma lastSeq_before:
  assumes "contiguous xs" and "\<forall>s \<in> set xs. sm_firstSeq s \<le> sm_lastSeq s"
      and "i < j" and "j < length xs"
  shows "sm_lastSeq (xs ! i) < sm_firstSeq (xs ! j)"
proof -
  have next_one: "sm_lastSeq (xs ! i) + 1 = sm_firstSeq (xs ! Suc i)"
    using assms(1) by (rule contiguous_nth) (use assms(3,4) in simp)
  show ?thesis
  proof (cases "Suc i = j")
    case True
    with next_one show ?thesis by simp
  next
    case False
    with assms(3) have "Suc i < j" by simp
    then have "sm_firstSeq (xs ! Suc i) < sm_firstSeq (xs ! j)"
      using assms(1,2,4) firstSeq_increasing by blast
    with next_one show ?thesis by simp
  qed
qed

lemmas history_eval =
  addMessages_def addMessage_def addMessageDir_def appendedSegments_def needsNewSegment_def
  readIndex_def emptyStore_def appendJsonLine_def glued_def formatTimestampFilename_def isDigit_def Let_def

text \<open>
  C1, as stated, fails: pruning evicts the oldest segment, and the first segment of the
  index then no longer starts at 1. With at most one segment of at most 64 bytes, two
  messages leave an index whose only segment has \<open>firstSeq = 2\<close>.
\<close>

theorem index_first_segment_counterexample:
  "si_segments (readIndex (addMessages
      \<lparr> hc_maxMessages = 100, hc_maxSegmentSizeBytes = 64, hc_maxSegments = 1 \<rparr>
      [\<lparr> ac_env = \<lparr> ae_now = ''2026-01-05T10:00:00.120Z'', ae_fileDate = ''2026-01-05T10:00:00.121Z'',
                    ae_bytesWritten = 71 \<rparr>,
         ac_channelId = ''web'', ac_conversationId = ''c1'',
         ac_message = \<lparr> cm_role = user, cm_content = ''hi'', cm_toolCallId = None \<rparr>,
         ac_metadata = None \<rparr>,
       \<lparr> ac_env = \<lparr> ae_now = ''2026-01-05T10:00:03.480Z'', ae_fileDate = ''2026-01-05T10:00:03.481Z'',
                    ae_bytesWritten = 80 \<rparr>,
         ac_channelId = ''web'', ac_conversationId = ''c1'',
         ac_message = \<lparr> cm_role = assistant, cm_content = ''Hello!'', cm_toolCallId = None \<rparr>,
         ac_metadata = None \<rparr>]
      emptyStore (''web'', ''c1'')))
   = [\<lparr> sm_file = ''2026-01-05T10-00-03Z.jsonl'', sm_firstSeq = 2, sm_lastSeq = 2, sm_count = 1,
        sm_sizeBytes = 80, sm_startedAt = ''2026-01-05T10:00:03.480Z'',
        sm_endedAt = ''2026-01-05T10:00:03.480Z'' \<rparr>]"
  by (simp add: history_eval)

text \<open>
  C1, amended: with \<open>maxSegments \<ge> 1\<close>, for every conversation and after any finite
  sequence of \<^verbatim>\<open>addMessage\<close> calls on an empty store, the index read back has adjacent
  segments with \<open>segments[i].lastSeq + 1 = segments[i+1].firstSeq\<close>, every segment
  has \<open>1 \<le> firstSeq \<le> lastSeq\<close>, every segment ends before each later one starts (the
  ranges are strictly increasing and do not overlap), and \<open>nextSeq\<close> is the last
  segment's \<open>lastSeq + 1\<close> (1 when there is no segment). The first segment has
  \<open>firstSeq = 1\<close> exactly as long as no call has evicted a segment of the conversation,
  in particular when the index holds fewer than \<open>maxSegments\<close> segments and after at
  most \<open>maxSegments\<close> calls; once a segment has been evicted, the first segment's
  \<open>firstSeq\<close> is greater than 1.
\<close>

theorem index_after_addMessages:
  assumes "1 \<le> hc_maxSegments cfg"
  shows "let index = readIndex (addMessages cfg calls emptyStore (channelId, conversationId));
             segs = si_segments index
         in (\<forall>i. Suc i < length segs \<longrightarrow> sm_lastSeq (segs ! i) + 1 = sm_firstSeq (segs ! Suc i))
          \<and> (\<forall>s \<in> set segs. 1 \<le> sm_firstSeq s \<and> sm_firstSeq s \<le> sm_lastSeq s)
          \<and> (\<forall>i j. i < j \<and> j < length segs \<longrightarrow> sm_lastSeq (segs ! i) < sm_firstSeq (segs ! j))
          \<and> si_nextSeq index = (if segs = [] then 1 else sm_lastSeq (last segs) + 1)
          \<and> (segs \<noteq> [] \<and> (length segs < hc_maxSegments cfg \<or> length calls \<le> hc_maxSegments cfg)
                \<longrightarrow> sm_firstSeq (hd segs) = 1)
          \<and> (segs \<noteq> [] \<longrightarrow>
                (sm_firstSeq (hd segs) = 1
                   \<longleftrightarrow> evictions cfg calls emptyStore (channelId, conversationId) = 0))
          \<and> (segs \<noteq> [] \<and> 0 < evictions cfg calls emptyStore (channelId, conversationId)
                \<longrightarrow> 1 < sm_firstSeq (hd segs))"
proof -
  let ?k = "(channelId, conversationId)"
  let ?index = "readIndex (addMessages cfg calls emptyStore ?k)"
  let ?segs = "si_segments ?index"
  have "\<forall>k. indexOk (hc_maxSegments cfg) (readIndex (emptyStore k))"
    by (simp add: emptyStore_def readIndex_def indexOk_def)
  then have ok: "indexOk (hc_maxSegments cfg) ?index"
    by (rule addMessages_indexOk [OF assms])
  then have c: "contiguous ?segs"
    and b: "\<forall>s \<in> set ?segs. 1 \<le> sm_firstSeq s \<and> sm_firstSeq s \<le> sm_lastSeq s"
    and n: "si_nextSeq ?index = (if ?segs = [] then 1 else sm_lastSeq (last ?segs) + 1)"
    and f: "?segs \<noteq> [] \<longrightarrow> sm_firstSeq (hd ?segs) = 1 \<or> hc_maxSegments cfg \<le> length ?segs"
    by (simp_all add: indexOk_def Let_def)
  have adjacent: "\<forall>i. Suc i < length ?segs \<longrightarrow> sm_lastSeq (?segs ! i) + 1 = sm_firstSeq (?segs ! Suc i)"
    using c by (auto dest: contiguous_nth)
  have apart: "\<forall>i j. i < j \<and> j < length ?segs \<longrightarrow> sm_lastSeq (?segs ! i) < sm_firstSeq (?segs ! j)"
    using c b by (auto intro: lastSeq_before)
  have first: "sm_firstSeq (hd ?segs) = 1"
    if "length calls \<le> hc_maxSegments cfg" and "?segs \<noteq> []"
  proof -
    have "\<forall>k. unevicted (hc_maxSegments cfg) (length calls) (readIndex (emptyStore k))"
      using that(1) by (simp add: emptyStore_def readIndex_def indexOk_def unevicted_def)
    then have "unevicted (hc_maxSegments cfg) 0 ?index"
      by (rule addMessages_unevicted [OF assms])
    with that(2) show ?thesis by (simp add: unevicted_def)
  qed
  have room: "?segs \<noteq> [] \<and> (length ?segs < hc_maxSegments cfg \<or> length calls \<le> hc_maxSegments cfg)
                \<longrightarrow> sm_firstSeq (hd ?segs) = 1"
    using f first by auto
  have exact: "?segs \<noteq> [] \<longrightarrow>
      (sm_firstSeq (hd ?segs) = 1 \<longleftrightarrow> evictions cfg calls emptyStore ?k = 0)"
    using addMessages_first [OF assms, of emptyStore ?k 0 calls]
    by (simp add: emptyStore_def readIndex_def indexOk_def)
  have above: "?segs \<noteq> [] \<and> 0 < evictions cfg calls emptyStore ?k \<longrightarrow> 1 < sm_firstSeq (hd ?segs)"
  proof (intro impI, elim conjE)
    assume ne: "?segs \<noteq> []" and ev: "0 < evictions cfg calls emptyStore ?k"
    from ne b have "1 \<le> sm_firstSeq (hd ?segs)" by simp
    moreover from ne ev exact have "sm_firstSeq (hd ?segs) \<noteq> 1" by simp
    ultimately show "1 < sm_firstSeq (hd ?segs)" by simp
  qed
  from adjacent b apart n room exact above show ?thesis
    unfolding Let_def by (intro conjI)
qed

text \<open>
  The amended C1 with at most two segments of at most 64 bytes, after three messages:
  the first segment has been evicted, and the index holds the segments of the second
  and the third message.
\<close>

theorem index_after_addMessages_witness:
  "let index = readIndex (addMessages
         \<lparr> hc_maxMessages = 100, hc_maxSegmentSizeBytes = 64, hc_maxSegments = 2 \<rparr>
         [\<lparr> ac_env = \<lparr> ae_now = ''2026-01-05T10:00:00.120Z'', ae_fileDate = ''2026-01-05T10:00:00.121Z'',
                       ae_bytesWritten = 71 \<rparr>,
            ac_channelId = ''web'', ac_conversationId = ''c1'',
            ac_message = \<lparr> cm_role = user, cm_content = ''hi'', cm_toolCallId = None \<rparr>,
            ac_metadata = None \<rparr>,
          \<lparr> ac_env = \<lparr> ae_now = ''2026-01-05T10:00:03.480Z'', ae_fileDate = ''2026-01-05T10:00:03.481Z'',
                       ae_bytesWritten = 80 \<rparr>,
            ac_channelId = ''web'', ac_conversationId = ''c1'',
            ac_message = \<lparr> cm_role = assistant, cm_content = ''Hello!'', cm_toolCallId = None \<rparr>,
            ac_metadata = None \<rparr>,
          \<lparr> ac_env = \<lparr> ae_now = ''2026-01-05T10:00:09.000Z'', ae_fileDate = ''2026-01-05T10:00:09.001Z'',
                       ae_bytesWritten = 75 \<rparr>,
            ac_channelId = ''web'', ac_conversationId = ''c1'',
            ac_message = \<lparr> cm_role = user, cm_content = ''thanks'', cm_toolCallId = None \<rparr>,
            ac_metadata = None \<rparr>]
         emptyStore (''web'', ''c1''));
       segs = si_segments index
   in length segs = 2
    \<and> sm_lastSeq (segs ! 0) + 1 = sm_firstSeq (segs ! 1)
    \<and> sm_firstSeq (segs ! 1) \<le> sm_lastSeq (segs ! 1)
    \<and> si_nextSeq index = sm_lastSeq (last segs) + 1
    \<and> 1 < sm_firstSeq (hd segs)"
proof -
  let ?cfg = "\<lparr> hc_maxMessages = 100, hc_maxSegmentSizeBytes = 64, hc_maxSegments = 2 \<rparr>"
  let ?calls =
        "[\<lparr> ac_env = \<lparr> ae_now = ''2026-01-05T10:00:00.120Z'', ae_fileDate = ''2026-01-05T10:00:00.121Z'',
                       ae_bytesWritten = 71 \<rparr>,
            ac_channelId = ''web'', ac_conversationId = ''c1'',
            ac_message = \<lparr> cm_role = user, cm_content = ''hi'', cm_toolCallId = None \<rparr>,
            ac_metadata = None \<rparr>,
          \<lparr> ac_env = \<lparr> ae_now = ''2026-01-05T10:00:03.480Z'', ae_fileDate = ''2026-01-05T10:00:03.481Z'',
                       ae_bytesWritten = 80 \<rparr>,
            ac_channelId = ''web'', ac_conversationId = ''c1'',
            ac_message = \<lparr> cm_role = assistant, cm_content = ''Hello!'', cm_toolCallId = None \<rparr>,
            ac_metadata = None \<rparr>,
          \<lparr> ac_env = \<lparr> ae_now = ''2026-01-05T10:00:09.000Z'', ae_fileDate = ''2026-01-05T10:00:09.001Z'',
                       ae_bytesWritten = 75 \<rparr>,
            ac_channelId = ''web'', ac_conversationId = ''c1'',
            ac_message = \<lparr> cm_role = user, cm_content = ''thanks'', cm_toolCallId = None \<rparr>,
            ac_metadata = None \<rparr>]"
  let ?index = "readIndex (addMessages ?cfg ?calls emptyStore (''web'', ''c1''))"
  let ?segs = "si_segments ?index"
  have len: "length ?segs = 2"
    by (simp add: history_eval)
  have ev: "evictions ?cfg ?calls emptyStore (''web'', ''c1'') = 1"
    by (simp add: history_eval evicted_def)
  have T: "(\<forall>i. Suc i < length ?segs \<longrightarrow> sm_lastSeq (?segs ! i) + 1 = sm_firstSeq (?segs ! Suc i))
          \<and> (\<forall>s \<in> set ?segs. 1 \<le> sm_firstSeq s \<and> sm_firstSeq s \<le> sm_lastSeq s)
          \<and> si_nextSeq ?index = (if ?segs = [] then 1 else sm_lastSeq (last ?segs) + 1)
          \<and> (?segs \<noteq> [] \<and> 0 < evictions ?cfg ?calls emptyStore (''web'', ''c1'')
                \<longrightarrow> 1 < sm_firstSeq (hd ?segs))"
    using index_after_addMessages [of ?cfg ?calls "''web''" "''c1''"]
    unfolding Let_def by simp
  from len have ne: "?segs \<noteq> []" by auto
  from T have "Suc 0 < length ?segs \<longrightarrow> sm_lastSeq (?segs ! 0) + 1 = sm_firstSeq (?segs ! Suc 0)"
    by blast
  with len have 1: "sm_lastSeq (?segs ! 0) + 1 = sm_firstSeq (?segs ! 1)"
    by simp
  from len have "?segs ! 1 \<in> set ?segs" by (intro nth_mem) simp
  with T have 2: "sm_firstSeq (?segs ! 1) \<le> sm_lastSeq (?segs ! 1)" by blast
  from T have "si_nextSeq ?index = (if ?segs = [] then 1 else sm_lastSeq (last ?segs) + 1)"
    by blast
  with ne have 3: "si_nextSeq ?index = sm_lastSeq (last ?segs) + 1" by simp
  from T have "?segs \<noteq> [] \<and> 0 < evictions ?cfg ?calls emptyStore (''web'', ''c1'')
                \<longrightarrow> 1 < sm_firstSeq (hd ?segs)"
    by blast
  with ne have 4: "1 < sm_firstSeq (hd ?segs)" unfolding ev by simp
  from len 1 2 3 4 show ?thesis
    unfolding Let_def by (intro conjI)
qed

subsection \<open>History store: a message added is the last message read\<close>

lemma prune_snd_other:
  "f \<notin> sm_file ` set (take (length segs - m) segs) \<Longrightarrow> snd (prune m segs files) f = files f"
proof (induction segs arbitrary: files)
  case Nil
  then show ?case by simp
next
  case (Cons s segs)
  show ?case
  proof (cases "length (s # segs) > m")
    case True
    then have t: "take (length (s # segs) - m) (s # segs) = s # take (length segs - m) segs"
      by (simp add: Suc_diff_le)
    with Cons.prems have ne: "f \<noteq> sm_file s" and rest: "f \<notin> sm_file ` set (take (length segs - m) segs)"
      by auto
    have "snd (prune m (s # segs) files) f = snd (prune m segs (files(sm_file s := None))) f"
      using True by simp
    also have "\<dots> = (files(sm_file s := None)) f"
      using rest by (rule Cons.IH)
    also have "\<dots> = files f"
      using ne by simp
    finally show ?thesis .
  next
    case False
    then show ?thesis by simp
  qed
qed

lemma collect_full: "maxCount \<le> length acc \<Longrightarrow> collect files maxCount segs acc = acc"
  by (cases segs) simp_all

lemma readSegmentFile_appended:
  "readSegmentFile \<lparr> sf_lines = ls @ [Entry e], sf_rest = Blank \<rparr>
     = readSegmentFile \<lparr> sf_lines = ls, sf_rest = Blank \<rparr> @ [e]"
  by (simp add: readSegmentFile_def)

text \<open>
  C8, as stated, fails in two ways that the code chooses. With \<open>maxSegments = 0\<close>
  pruning evicts the segment just written and \<^verbatim>\<open>getMessages(1)\<close> returns the empty
  list. And \<^verbatim>\<open>entryToChatMessage\<close> copies \<^verbatim>\<open>toolCallId\<close> only when it is truthy: a
  message with the empty \<^verbatim>\<open>toolCallId\<close> comes back without one.
\<close>

theorem add_then_get_counterexample:
  "getMessages \<lparr> hc_maxMessages = 100, hc_maxSegmentSizeBytes = 524288, hc_maxSegments = 0 \<rparr>
     (addMessage \<lparr> hc_maxMessages = 100, hc_maxSegmentSizeBytes = 524288, hc_maxSegments = 0 \<rparr>
        \<lparr> ae_now = ''2026-01-05T10:00:00.120Z'', ae_fileDate = ''2026-01-05T10:00:00.121Z'',
           ae_bytesWritten = 71 \<rparr> ''web'' ''c1''
        \<lparr> cm_role = user, cm_content = ''hi'', cm_toolCallId = None \<rparr> None emptyStore)
     ''web'' ''c1'' (Some 1) = []
   \<and> getMessages \<lparr> hc_maxMessages = 100, hc_maxSegmentSizeBytes = 524288, hc_maxSegments = 20 \<rparr>
     (addMessage \<lparr> hc_maxMessages = 100, hc_maxSegmentSizeBytes = 524288, hc_maxSegments = 20 \<rparr>
        \<lparr> ae_now = ''2026-01-05T10:00:00.120Z'', ae_fileDate = ''2026-01-05T10:00:00.121Z'',
           ae_bytesWritten = 86 \<rparr> ''web'' ''c1''
        \<lparr> cm_role = tool, cm_content = ''5'', cm_toolCallId = Some [] \<rparr> None emptyStore)
     ''web'' ''c1'' (Some 1) = [\<lparr> cm_role = tool, cm_content = ''5'', cm_toolCallId = None \<rparr>]"
  by (simp add: history_eval getMessages_def sliceFromEnd_def readSegmentFile_def
        entryToChatMessage_def truthy_def)

text \<open>
  C8, amended: for every conversation, every state of its directory (an index that is
  absent, unreadable or a segment index; segment files whose lines hold an entry or are
  blank or corrupt) and every message \<open>m\<close>, if \<open>maxSegments \<ge> 1\<close>, the segment file written
  to does not end in an unterminated line (it is missing, or the text behind its last
  newline is blank), and it is not the file of a segment evicted by this call, then \<^verbatim>\<open>addMessage(m)\<close> followed by \<^verbatim>\<open>getMessages\<close> with limit 1 returns
  exactly one message, with the role and content of \<open>m\<close> and with the \<^verbatim>\<open>toolCallId\<close> of
  \<open>m\<close> when that is present and not empty (and none otherwise).
\<close>

theorem add_then_get:
  assumes "1 \<le> hc_maxSegments cfg"
      and "let segs = appendedSegments cfg env (readIndex (store (channelId, conversationId)))
           in (case cd_files (store (channelId, conversationId)) (sm_file (last segs)) of
                 None \<Rightarrow> True | Some f \<Rightarrow> sf_rest f = Blank)"
      and "let segs = appendedSegments cfg env (readIndex (store (channelId, conversationId)))
           in sm_file (last segs) \<notin> sm_file ` set (take (length segs - hc_maxSegments cfg) segs)"
  shows "getMessages cfg (addMessage cfg env channelId conversationId message metadata store)
           channelId conversationId (Some 1)
         = [\<lparr> cm_role = cm_role message, cm_content = cm_content message,
              cm_toolCallId = (if cm_toolCallId message = Some [] then None else cm_toolCallId message) \<rparr>]"
proof -
  let ?dir = "store (channelId, conversationId)"
  let ?dir' = "addMessageDir cfg env message metadata ?dir"
  let ?a = "appendedSegments cfg env (readIndex ?dir)"
  let ?m = "hc_maxSegments cfg"
  let ?segs = "drop (length ?a - ?m) ?a"
  let ?entry = "\<lparr> he_seq = si_nextSeq (readIndex ?dir), he_ts = ae_now env,
                    he_role = cm_role message, he_content = cm_content message,
                    he_toolCallId = cm_toolCallId message,
                    he_senderId = Option.bind metadata md_senderId,
                    he_platformMessageId = Option.bind metadata md_platformMessageId,
                    he_taskId = Option.bind metadata md_taskId \<rparr>"
  let ?content = "case cd_files ?dir (sm_file (last ?a)) of
                    None \<Rightarrow> \<lparr> sf_lines = [], sf_rest = Blank \<rparr> | Some f \<Rightarrow> f"
  have ex: "cd_exists ?dir'"
    by (simp add: addMessageDir_def Let_def case_prod_beta)
  have idx: "si_segments (readIndex ?dir') = ?segs"
    by (simp add: addMessageDir_index)
  have ane: "?a \<noteq> []" by (rule appendedSegments_nonempty)
  have lt: "length ?a - ?m < length ?a" using ane assms(1) by (cases ?a) auto
  then have sne: "?segs \<noteq> []" by simp
  have l: "last ?segs = last ?a" using lt by simp
  from assms(2) have rest: "sf_rest ?content = Blank"
    by (simp add: Let_def split: option.splits)
  from assms(3) have fresh: "sm_file (last ?a) \<notin> sm_file ` set (take (length ?a - ?m) ?a)"
    by (simp add: Let_def)
  have fl: "cd_files ?dir' (sm_file (last ?a))
              = Some \<lparr> sf_lines = sf_lines ?content @ [Entry ?entry], sf_rest = Blank \<rparr>"
    using prune_snd_other [OF fresh] rest
    by (simp add: addMessageDir_def Let_def case_prod_beta appendJsonLine_def glued_def)
  have r: "rev ?segs = last ?a # rev (butlast ?segs)"
    using sne l by (metis append_butlast_last_id rev.simps(2) rev_rev_ident rev_singleton_conv rev_append append_Cons append_Nil)
  have c: "collect (cd_files ?dir') (Suc 0) (rev ?segs) []
             = readSegmentFile \<lparr> sf_lines = sf_lines ?content, sf_rest = Blank \<rparr> @ [?entry]"
    unfolding r by (simp add: fl readSegmentFile_appended collect_full)
  have "getMessages cfg (addMessage cfg env channelId conversationId message metadata store)
           channelId conversationId (Some 1) = [entryToChatMessage ?entry]"
    using ex sne by (simp add: getMessages_def addMessage_def idx c sliceFromEnd_def Let_def)
  also have "entryToChatMessage ?entry =
      \<lparr> cm_role = cm_role message, cm_content = cm_content message,
        cm_toolCallId = (if cm_toolCallId message = Some [] then None else cm_toolCallId message) \<rparr>"
    by (cases "cm_toolCallId message") (auto simp: entryToChatMessage_def truthy_def)
  finally show ?thesis .
qed

text \<open>
  The amended C8 with the default limits, for a tool message added to a conversation
  that holds a user message, a line that was cut short and then completed by a later
  append (so that it does not parse), and an assistant message.
\<close>

theorem add_then_get_witness:
  "getMessages \<lparr> hc_maxMessages = 100, hc_maxSegmentSizeBytes = 524288, hc_maxSegments = 20 \<rparr>
     (addMessage \<lparr> hc_maxMessages = 100, hc_maxSegmentSizeBytes = 524288, hc_maxSegments = 20 \<rparr>
        \<lparr> ae_now = ''2026-01-05T10:00:07.120Z'', ae_fileDate = ''2026-01-05T10:00:07.121Z'',
           ae_bytesWritten = 88 \<rparr> ''web'' ''c1''
        \<lparr> cm_role = tool, cm_content = ''5'', cm_toolCallId = Some ''t1'' \<rparr> None
        (emptyStore((''web'', ''c1'') :=
           \<lparr> cd_exists = True,
              cd_index = Stored \<lparr> si_nextSeq = 4, si_segments =
                [\<lparr> sm_file = ''2026-01-05T10-00-00Z.jsonl'', sm_firstSeq = 1, sm_lastSeq = 3,
                    sm_count = 3, sm_sizeBytes = 230, sm_startedAt = ''2026-01-05T10:00:00.120Z'',
                    sm_endedAt = ''2026-01-05T10:00:05.300Z'' \<rparr>] \<rparr>,
              cd_files = [''2026-01-05T10-00-00Z.jsonl'' \<mapsto>
                \<lparr> sf_lines =
                    [Entry \<lparr> he_seq = 1, he_ts = ''2026-01-05T10:00:00.120Z'', he_role = user,
                             he_content = ''What is 2+3?'', he_toolCallId = None, he_senderId = Some ''u1'',
                             he_platformMessageId = None, he_taskId = None \<rparr>,
                     Corrupt,
                     Entry \<lparr> he_seq = 3, he_ts = ''2026-01-05T10:00:05.300Z'', he_role = assistant,
                             he_content = [], he_toolCallId = None, he_senderId = None,
                             he_platformMessageId = None, he_taskId = None \<rparr>],
                   sf_rest = Blank \<rparr>] \<rparr>)))
     ''web'' ''c1'' (Some 1) = [\<lparr> cm_role = tool, cm_content = ''5'', cm_toolCallId = Some ''t1'' \<rparr>]"
  using add_then_get [of "\<lparr> hc_maxMessages = 100, hc_maxSegmentSizeBytes = 524288, hc_maxSegments = 20 \<rparr>"
     "\<lparr> ae_now = ''2026-01-05T10:00:07.120Z'', ae_fileDate = ''2026-01-05T10:00:07.121Z'',
           ae_bytesWritten = 88 \<rparr>"
     "emptyStore((''web'', ''c1'') :=
           \<lparr> cd_exists = True,
              cd_index = Stored \<lparr> si_nextSeq = 4, si_segments =
                [\<lparr> sm_file = ''2026-01-05T10-00-00Z.jsonl'', sm_firstSeq = 1, sm_lastSeq = 3,
                    sm_count = 3, sm_sizeBytes = 230, sm_startedAt = ''2026-01-05T10:00:00.120Z'',
                    sm_endedAt = ''2026-01-05T10:00:05.300Z'' \<rparr>] \<rparr>,
              cd_files = [''2026-01-05T10-00-00Z.jsonl'' \<mapsto>
                \<lparr> sf_lines =
                    [Entry \<lparr> he_seq = 1, he_ts = ''2026-01-05T10:00:00.120Z'', he_role = user,
                             he_content = ''What is 2+3?'', he_toolCallId = None, he_senderId = Some ''u1'',
                             he_platformMessageId = None, he_taskId = None \<rparr>,
                     Corrupt,
                     Entry \<lparr> he_seq = 3, he_ts = ''2026-01-05T10:00:05.300Z'', he_role = assistant,
                             he_content = [], he_toolCallId = None, he_senderId = None,
                             he_platformMessageId = None, he_taskId = None \<rparr>],
                   sf_rest = Blank \<rparr>] \<rparr>)" "''web''" "''c1''"
     "\<lparr> cm_role = tool, cm_content = ''5'', cm_toolCallId = Some ''t1'' \<rparr>" None]
  by (simp add: history_eval)

text \<open>
  What the amended claim leaves out. A line whose writing was cut short is not repaired:
  the next entry is appended to it, the joined line does not parse, and
  \<^verbatim>\<open>getMessages(1)\<close> returns the message before it.
\<close>

lemma unterminated_line_loses_the_message:
  "getMessages \<lparr> hc_maxMessages = 100, hc_maxSegmentSizeBytes = 524288, hc_maxSegments = 20 \<rparr>
     (addMessage \<lparr> hc_maxMessages = 100, hc_maxSegmentSizeBytes = 524288, hc_maxSegments = 20 \<rparr>
        \<lparr> ae_now = ''2026-01-05T10:00:07.120Z'', ae_fileDate = ''2026-01-05T10:00:07.121Z'',
           ae_bytesWritten = 80 \<rparr> ''web'' ''c1''
        \<lparr> cm_role = assistant, cm_content = ''Hello!'', cm_toolCallId = None \<rparr> None
        (emptyStore((''web'', ''c1'') :=
           \<lparr> cd_exists = True,
              cd_index = Stored \<lparr> si_nextSeq = 2, si_segments =
                [\<lparr> sm_file = ''2026-01-05T10-00-00Z.jsonl'', sm_firstSeq = 1, sm_lastSeq = 1,
                    sm_count = 1, sm_sizeBytes = 71, sm_startedAt = ''2026-01-05T10:00:00.120Z'',
                    sm_endedAt = ''2026-01-05T10:00:00.120Z'' \<rparr>] \<rparr>,
              cd_files = [''2026-01-05T10-00-00Z.jsonl'' \<mapsto>
                \<lparr> sf_lines =
                    [Entry \<lparr> he_seq = 1, he_ts = ''2026-01-05T10:00:00.120Z'', he_role = user,
                             he_content = ''hi'', he_toolCallId = None, he_senderId = None,
                             he_platformMessageId = None, he_taskId = None \<rparr>],
                   sf_rest = Corrupt \<rparr>] \<rparr>)))
     ''web'' ''c1'' (Some 1) = [\<lparr> cm_role = user, cm_content = ''hi'', cm_toolCallId = None \<rparr>]"
  by (simp add: history_eval getMessages_def sliceFromEnd_def readSegmentFile_def
        entryToChatMessage_def truthy_def)

text \<open>
  Segment files are named by a timestamp with a resolution of one second. When a call
  allocates a segment in the same second as the segment it evicts, both have the same
  file: the line is appended to it and the file is then unlinked.
\<close>

lemma same_second_segments_lose_the_message:
  "getMessages \<lparr> hc_maxMessages = 100, hc_maxSegmentSizeBytes = 64, hc_maxSegments = 1 \<rparr>
     (addMessage \<lparr> hc_maxMessages = 100, hc_maxSegmentSizeBytes = 64, hc_maxSegments = 1 \<rparr>
        \<lparr> ae_now = ''2026-01-05T10:00:00.900Z'', ae_fileDate = ''2026-01-05T10:00:00.901Z'',
           ae_bytesWritten = 80 \<rparr> ''web'' ''c1''
        \<lparr> cm_role = assistant, cm_content = ''Hello!'', cm_toolCallId = None \<rparr> None
        (addMessage \<lparr> hc_maxMessages = 100, hc_maxSegmentSizeBytes = 64, hc_maxSegments = 1 \<rparr>
           \<lparr> ae_now = ''2026-01-05T10:00:00.120Z'', ae_fileDate = ''2026-01-05T10:00:00.121Z'',
           ae_bytesWritten = 71 \<rparr> ''web'' ''c1''
           \<lparr> cm_role = user, cm_content = ''hi'', cm_toolCallId = None \<rparr> None emptyStore))
     ''web'' ''c1'' (Some 1) = []"
  by (simp add: history_eval getMessages_def sliceFromEnd_def readSegmentFile_def
        entryToChatMessage_def truthy_def)

subsection \<open>Slash dispatch\<close>

lemma startsWith_append [simp]: "startsWith (p @ s) p"
  by (simp add: startsWith_def)

lemma parseSlashCommand_shape:
  assumes "name \<noteq> []" and "\<forall>c \<in> set name. \<not> isWhiteSpace c"
      and "rest = [] \<or> isWhiteSpace (hd rest)"
  shows "parseSlashCommand (CHR ''/'' # name @ rest) = Some (name, trim (dropWhile isWhiteSpace rest))"
proof -
  have t: "takeWhile (\<lambda>x. \<not> isWhiteSpace x) (name @ rest) = name"
    using assms(2,3) by (cases rest) (auto simp: takeWhile_append)
  have d: "dropWhile (\<lambda>x. \<not> isWhiteSpace x) (name @ rest) = rest"
    using assms(2,3) by (cases rest) (auto simp: dropWhile_append)
  show ?thesis
    using assms(1) by (simp add: parseSlashCommand_def t d)
qed

declare replaceEvery.simps [simp del]
declare replaceAllFrom.simps [simp del]

lemma getSubstitution_literal:
  "CHR ''$'' \<notin> set template \<Longrightarrow> getSubstitution matched preceding following template = template"
  by (induction matched preceding following template rule: getSubstitution.induct) auto

lemma replaceAllFrom_literal:
  "CHR ''$'' \<notin> set template \<Longrightarrow>
   replaceAllFrom pattern template preceding rest = replaceEvery pattern template rest"
proof (induction pattern template preceding rest rule: replaceAllFrom.induct)
  case (1 pattern template preceding rest)
  show ?case
  proof (cases "pattern \<noteq> [] \<and> startsWith rest pattern")
    case True
    with 1 show ?thesis
      by (subst replaceAllFrom.simps, subst replaceEvery.simps)
         (simp add: getSubstitution_literal)
  next
    case False
    with 1 show ?thesis
      by (subst replaceAllFrom.simps, subst replaceEvery.simps)
         (auto split: list.splits)
  qed
qed

lemma replaceEvery_nonempty:
  "s \<noteq> [] \<Longrightarrow> literal \<noteq> [] \<Longrightarrow> replaceEvery pattern literal s \<noteq> []"
  by (subst replaceEvery.simps) (auto split: list.splits)

lemma trim_all_space: "\<forall>c \<in> set s. isWhiteSpace c \<Longrightarrow> trim (dropWhile isWhiteSpace s) = []"
  by (simp add: trim_Nil_iff trimEnd_Nil_iff dropWhile_eq_Nil_conv [THEN iffD2])

text \<open>
  C3 says that for empty argument text every \<^verbatim>\<open>$ARGUMENTS\<close> is replaced by the text
  \<^verbatim>\<open>(no arguments)\<close> before the instructions become the system prompt of the single
  completion. The code of slash dispatch replaces it by another text,
  \<^verbatim>\<open>(no arguments provided)\<close>: for the message \<^verbatim>\<open>/summarize\<close> and a skill with the
  instructions \<^verbatim>\<open>Summarize: $ARGUMENTS\<close>, \<^verbatim>\<open>handleMessage\<close> submits a completion whose
  system prompt is \<^verbatim>\<open>Summarize: (no arguments provided)\<close>, and the task requests that
  completion with the raw message text as user prompt. The other place that fills in
  the same placeholder, a skill tool call of the tool-use loop, uses the text of the
  claim: with empty arguments it requests a completion whose system prompt is
  \<^verbatim>\<open>Summarize: (no arguments)\<close>.
\<close>

theorem slash_placeholder_differs:
  "handleMessage
      \<lparr> ag_channels = \<lparr> getChannel = (\<lambda>c. if c = ''web'' then Some ''web'' else None),
                          sendMessage = (\<lambda>n c v m. None) \<rparr>,
         ag_chat = (\<lambda>n ms ts. Inr \<lparr> lr_content = ''ok'', lr_toolCalls = None \<rparr>),
         ag_complete = (\<lambda>n sys usr. Inr ''A summary.''),
         ag_invokeTool = (\<lambda>n t a. Inr ''5''), ag_journal = True,
         ag_now = (\<lambda>k. ''2026-01-05T10:00:00.000Z'') \<rparr>
      [''summarize'' \<mapsto> \<lparr> sk_name = ''summarize'', sk_description = ''Summarize a text'',
          sk_userInvocable = True, sk_argumentHint = None, sk_disableModelInvocation = None,
          sk_instructions = Some ''Summarize: $ARGUMENTS'', sk_source = skillmd, sk_execute = None \<rparr>]
      \<lparr> nm_id = ''m1'', nm_channelId = ''web'', nm_conversationId = ''c1'', nm_senderId = ''web-user'',
         nm_text = ''/summarize'', nm_timestamp = 1767607000000, nm_senderName = None,
         nm_platformMessageId = None \<rparr>
      \<lparr> aw_calls = [], aw_invocations = [], aw_sent = [], aw_journal = [] \<rparr>
   = Inr (Some (\<lparr> nm_id = ''m1'', nm_channelId = ''web'', nm_conversationId = ''c1'', nm_senderId = ''web-user'',
         nm_text = ''/summarize'', nm_timestamp = 1767607000000, nm_senderName = None,
         nm_platformMessageId = None \<rparr>,
               SkillCompletion ''Summarize: (no arguments provided)''),
          \<lparr> aw_calls = [], aw_invocations = [], aw_sent = [], aw_journal = [] \<rparr>)
   \<and> aw_calls (taskWorld (skillCompletionTask
      \<lparr> ag_channels = \<lparr> getChannel = (\<lambda>c. if c = ''web'' then Some ''web'' else None),
                          sendMessage = (\<lambda>n c v m. None) \<rparr>,
         ag_chat = (\<lambda>n ms ts. Inr \<lparr> lr_content = ''ok'', lr_toolCalls = None \<rparr>),
         ag_complete = (\<lambda>n sys usr. Inr ''A summary.''),
         ag_invokeTool = (\<lambda>n t a. Inr ''5''), ag_journal = True,
         ag_now = (\<lambda>k. ''2026-01-05T10:00:00.000Z'') \<rparr>
      ''Summarize: (no arguments provided)''
      \<lparr> nm_id = ''m1'', nm_channelId = ''web'', nm_conversationId = ''c1'', nm_senderId = ''web-user'',
         nm_text = ''/summarize'', nm_timestamp = 1767607000000, nm_senderName = None,
         nm_platformMessageId = None \<rparr>
      \<lparr> aw_calls = [], aw_invocations = [], aw_sent = [], aw_journal = [] \<rparr>))
     = [Complete ''Summarize: (no arguments provided)'' ''/summarize'']
   \<and> ''Summarize: (no arguments provided)'' \<noteq> ''Summarize: (no arguments)''
   \<and> aw_calls (loopWorld (executeToolCall
      \<lparr> ag_channels = \<lparr> getChannel = (\<lambda>c. if c = ''web'' then Some ''web'' else None),
                          sendMessage = (\<lambda>n c v m. None) \<rparr>,
         ag_chat = (\<lambda>n ms ts. Inr \<lparr> lr_content = ''ok'', lr_toolCalls = None \<rparr>),
         ag_complete = (\<lambda>n sys usr. Inr ''A summary.''),
         ag_invokeTool = (\<lambda>n t a. Inr ''5''), ag_journal = True,
         ag_now = (\<lambda>k. ''2026-01-05T10:00:00.000Z'') \<rparr>
      [''summarize'' \<mapsto> \<lparr> sk_name = ''summarize'', sk_description = ''Summarize a text'',
          sk_userInvocable = True, sk_argumentHint = None, sk_disableModelInvocation = None,
          sk_instructions = Some ''Summarize: $ARGUMENTS'', sk_source = skillmd, sk_execute = None \<rparr>]
      \<lparr> ti_taskId = ''m2'', ti_channelId = ''web'', ti_conversationId = ''c1'' \<rparr>
      \<lparr> tc_id = ''t1'', tc_name = ''skill__summarize'', tc_arguments = [] \<rparr>
      \<lparr> aw_calls = [], aw_invocations = [], aw_sent = [], aw_journal = [] \<rparr>))
     = [Complete ''Summarize: (no arguments)'' []]"
  by (simp add: handleMessage_def dispatch_def parseSlashCommand_def replaceArguments_def
        replaceAllFrom.simps startsWith_def truthy_def trim_def trimStart_def trimEnd_def
        isWhiteSpace_def taskWorld_def skillCompletionTask_def llmComplete_def agentSend_def
        attempt_def agentLog_def executeToolCall_def loopWorld_def Let_def)

text \<open>
  What slash dispatch does in general for a content-based skill and empty argument
  text: every occurrence of the placeholder is replaced by \<^verbatim>\<open>(no arguments provided)\<close>,
  and the task makes exactly one request to the language model, the completion with
  that system prompt and the raw message text as user prompt.
\<close>

lemma content_skill_empty_arguments:
  assumes "getChannel (ag_channels env) (nm_channelId message) \<noteq> None"
      and "nm_text message = CHR ''/'' # name @ spaces"
      and "name \<noteq> []" and "\<forall>c \<in> set name. \<not> isWhiteSpace c"
      and "\<forall>c \<in> set spaces. isWhiteSpace c"
      and "registry name = Some skill" and "sk_userInvocable skill" and "sk_execute skill = None"
      and "sk_instructions skill = Some instructions" and "instructions \<noteq> []"
  shows "handleMessage env registry message w
           = Inr (Some (message, SkillCompletion
                    (replaceEvery ''$ARGUMENTS'' ''(no arguments provided)'' instructions)), w)
       \<and> aw_calls (taskWorld (skillCompletionTask env
                 (replaceEvery ''$ARGUMENTS'' ''(no arguments provided)'' instructions) message w))
           = aw_calls w @ [Complete (replaceEvery ''$ARGUMENTS'' ''(no arguments provided)'' instructions)
                             (nm_text message)]"
proof -
  let ?sys = "replaceEvery ''$ARGUMENTS'' ''(no arguments provided)'' instructions"
  have sp: "spaces = [] \<or> isWhiteSpace (hd spaces)"
    using assms(5) by (cases spaces) auto
  have p: "parseSlashCommand (nm_text message) = Some (name, [])"
    unfolding assms(2) using parseSlashCommand_shape [OF assms(3,4) sp] trim_all_space [OF assms(5)]
    by simp
  have r: "replaceArguments instructions ''(no arguments provided)'' = ?sys"
    unfolding replaceArguments_def by (rule replaceAllFrom_literal) simp
  have ne: "?sys \<noteq> []"
    using assms(10) by (rule replaceEvery_nonempty) simp
  have d: "dispatch registry message
         = \<lparr> d_handled = True, d_result = None, d_skillName = Some name, d_args = Some [],
             d_instructions = Some ?sys \<rparr>"
    using p assms(6-10) by (simp add: dispatch_def truthy_def r)
  have h: "handleMessage env registry message w = Inr (Some (message, SkillCompletion ?sys), w)"
    using assms(1) ne by (auto simp: handleMessage_def d truthy_def)
  have c: "aw_calls (taskWorld (skillCompletionTask env ?sys message w))
         = aw_calls w @ [Complete ?sys (nm_text message)]"
    by (auto simp: taskWorld_def skillCompletionTask_def llmComplete_def agentSend_def agentLog_def Let_def
          split: sum.splits option.splits prod.splits)
  from h c show ?thesis by simp
qed

subsection \<open>Tool-use loop\<close>

declare toolLoop.simps [simp del]

lemma chatCalls_alt: "chatCalls w = length (filter isChat (aw_calls w))"
  by (simp add: chatCalls_def)

lemma llmChat_world:
  "aw_calls (loopWorld (llmChat env ms ts w)) = aw_calls w @ [Chat ms ts]"
  by (simp add: llmChat_def loopWorld_def Let_def split: sum.splits)

lemma llmComplete_world:
  "aw_calls (loopWorld (llmComplete env sys usr w)) = aw_calls w @ [Complete sys usr]"
  by (simp add: llmComplete_def loopWorld_def Let_def split: sum.splits)

lemma agentLog_calls [simp]: "aw_calls (agentLog env ev t c v d w) = aw_calls w"
  by (simp add: agentLog_def)

lemma invokeTool_calls: "aw_calls (loopWorld (invokeTool env n a w)) = aw_calls w"
  by (simp add: invokeTool_def loopWorld_def Let_def split: sum.splits)

lemma loopWorld_simps [simp]:
  "loopWorld (Inl (e, w)) = w" "loopWorld (Inr (x, w)) = w"
  by (simp_all add: loopWorld_def)

lemma executeToolCall_chatCalls:
  "chatCalls (loopWorld (executeToolCall env registry ids toolCall w)) = chatCalls w"
proof -
  have c: "chatCalls (loopWorld (llmComplete env sys usr w0)) = chatCalls w0" for sys usr w0
    by (simp add: chatCalls_alt llmComplete_world)
  have i: "chatCalls (loopWorld (invokeTool env n a w0)) = chatCalls w0" for n a w0
    by (simp add: chatCalls_alt invokeTool_calls)
  have l: "chatCalls (agentLog env ev t ch v d w0) = chatCalls w0" for ev t ch v d w0
    by (simp add: chatCalls_alt)
  show ?thesis
    unfolding executeToolCall_def Let_def
    apply (simp split: sum.splits prod.splits add: l)
    apply (intro conjI impI allI)
    using c i l apply (metis loopWorld_simps)+
    done
qed


lemma executeToolCall_calls:
  assumes "\<forall>n skill. registry n = Some skill \<longrightarrow> \<not> truthy (sk_instructions skill)"
  shows "aw_calls (loopWorld (executeToolCall env registry ids toolCall w)) = aw_calls w"
proof -
  have n: "\<not> truthy (Option.bind (registry k) sk_instructions)" for k
    using assms by (cases "registry k") (auto simp: truthy_def)
  have i: "aw_calls (loopWorld (invokeTool env nm a w0)) = aw_calls w0" for nm a w0
    by (rule invokeTool_calls)
  show ?thesis
    unfolding executeToolCall_def Let_def
    apply (simp split: sum.splits prod.splits add: n)
    apply (intro conjI impI allI)
    using i apply (metis loopWorld_simps agentLog_calls)+
    done
qed

lemma executeToolCalls_chatCalls:
  "chatCalls (loopWorld (executeToolCalls env registry ids toolCalls msgs w)) = chatCalls w"
proof (induction toolCalls arbitrary: msgs w)
  case Nil
  then show ?case by simp
next
  case (Cons toolCall toolCalls)
  show ?case
  proof (cases "executeToolCall env registry ids toolCall w")
    case (Inl p)
    then show ?thesis
      using executeToolCall_chatCalls [of env registry ids toolCall w] by (cases p) simp
  next
    case (Inr p)
    then show ?thesis
      using executeToolCall_chatCalls [of env registry ids toolCall w] Cons.IH
      by (cases p) simp
  qed
qed

lemma executeToolCalls_calls:
  assumes "\<forall>n skill. registry n = Some skill \<longrightarrow> \<not> truthy (sk_instructions skill)"
  shows "aw_calls (loopWorld (executeToolCalls env registry ids toolCalls msgs w)) = aw_calls w"
proof (induction toolCalls arbitrary: msgs w)
  case Nil
  then show ?case by simp
next
  case (Cons toolCall toolCalls)
  show ?case
  proof (cases "executeToolCall env registry ids toolCall w")
    case (Inl p)
    then show ?thesis
      using executeToolCall_calls [OF assms, of env ids toolCall w] by (cases p) simp
  next
    case (Inr p)
    then show ?thesis
      using executeToolCall_calls [OF assms, of env ids toolCall w] Cons.IH
      by (cases p) simp
  qed
qed

lemma toolLoop_chatCalls:
  "chatCalls (loopWorld (toolLoop env registry ids tools maxIterations iterations msgs w))
     \<le> chatCalls w + (maxIterations - iterations) + 1
   \<and> (chatCalls (loopWorld (toolLoop env registry ids tools maxIterations iterations msgs w))
        = chatCalls w + (maxIterations - iterations) + 1
      \<longrightarrow> (\<exists>ms. last (aw_calls (loopWorld (toolLoop env registry ids tools maxIterations iterations msgs w)))
                  = Chat ms None))"
proof (induction env registry ids tools maxIterations iterations msgs w rule: toolLoop.induct)
  case (1 env registry ids tools maxIterations iterations currentMessages w)
  let ?ts = "if length tools > 0 then Some tools else None"
  show ?case
  proof (cases "iterations < maxIterations")
    case False
    have "aw_calls (loopWorld (toolLoop env registry ids tools maxIterations iterations currentMessages w))
          = aw_calls w @ [Chat currentMessages None]"
      using False llmChat_world [of env currentMessages None w]
      by (subst toolLoop.simps) (auto split: sum.splits)
    then show ?thesis
      by (simp add: chatCalls_alt)
  next
    case True
    have cw: "aw_calls (loopWorld (llmChat env currentMessages ?ts w)) = aw_calls w @ [Chat currentMessages ?ts]"
      by (rule llmChat_world)
    show ?thesis
    proof (cases "llmChat env currentMessages ?ts w")
      case (Inl p)
      obtain e w1 where p: "p = (e, w1)" by (cases p)
      have "toolLoop env registry ids tools maxIterations iterations currentMessages w = Inl (e, w1)"
        using True Inl p by (subst toolLoop.simps) simp
      moreover have "chatCalls w1 = chatCalls w + 1"
        using cw Inl p by (simp add: chatCalls_alt)
      ultimately show ?thesis using True by auto
    next
      case (Inr p)
      obtain result w1 where p: "p = (result, w1)" by (cases p)
      have c1: "chatCalls w1 = chatCalls w + 1"
        using cw Inr p by (simp add: chatCalls_alt)
      show ?thesis
      proof (cases "lr_toolCalls result = None \<or> lr_toolCalls result = Some []")
        case True': True
        have "toolLoop env registry ids tools maxIterations iterations currentMessages w
              = Inr (lr_content result, w1)"
          using True Inr p True' by (subst toolLoop.simps) auto
        then show ?thesis using c1 True by auto
      next
        case False
        then obtain toolCalls where tc: "lr_toolCalls result = Some toolCalls" "length toolCalls \<noteq> 0"
          by (cases "lr_toolCalls result") auto
        let ?x = "executeToolCalls env registry ids toolCalls
                    (currentMessages @ [\<lparr> cm_role = assistant, cm_content = lr_content result,
                                           cm_toolCallId = None \<rparr>]) w1"
        have cx: "chatCalls (loopWorld ?x) = chatCalls w1"
          by (rule executeToolCalls_chatCalls)
        show ?thesis
        proof (cases ?x)
          case (Inl q)
          obtain e w2 where q: "q = (e, w2)" by (cases q)
          have "toolLoop env registry ids tools maxIterations iterations currentMessages w = Inl (e, w2)"
            using True Inr p tc Inl q by (subst toolLoop.simps) simp
          moreover have "chatCalls w2 = chatCalls w + 1"
            using cx Inl q c1 by simp
          ultimately show ?thesis using True by auto
        next
          case Inr2: (Inr q)
          obtain messages' w2 where q: "q = (messages', w2)" by (cases q)
          have t: "toolLoop env registry ids tools maxIterations iterations currentMessages w
                 = toolLoop env registry ids tools maxIterations (iterations + 1) messages' w2"
            using True Inr p tc Inr2 q by (subst toolLoop.simps) simp
          have c2: "chatCalls w2 = chatCalls w + 1"
            using cx Inr2 q c1 by simp
          note IH = "1.IH" [OF True Inr p [symmetric] tc(1) _ Inr2 q [symmetric]]
          have "length toolCalls \<noteq> 0" by (rule tc(2))
          note IH' = IH [OF this]
          have e: "chatCalls w2 + (maxIterations - (iterations + 1)) + 1
                 = chatCalls w + (maxIterations - iterations) + 1"
            using True c2 by simp
          show ?thesis
            unfolding t using IH' unfolding e by blast
        qed
      qed
    qed
  qed
qed


lemma toolLoop_calls:
  assumes "\<forall>n skill. registry n = Some skill \<longrightarrow> \<not> truthy (sk_instructions skill)"
  shows "length (aw_calls (loopWorld (toolLoop env registry ids tools maxIterations iterations msgs w)))
           \<le> length (aw_calls w) + (maxIterations - iterations) + 1"
  using assms
proof (induction env registry ids tools maxIterations iterations msgs w rule: toolLoop.induct)
  case (1 env registry ids tools maxIterations iterations currentMessages w)
  let ?ts = "if length tools > 0 then Some tools else None"
  show ?case
  proof (cases "iterations < maxIterations")
    case False
    have "aw_calls (loopWorld (toolLoop env registry ids tools maxIterations iterations currentMessages w))
          = aw_calls w @ [Chat currentMessages None]"
      using False llmChat_world [of env currentMessages None w]
      by (subst toolLoop.simps) (auto split: sum.splits)
    then show ?thesis by simp
  next
    case True
    have cw: "aw_calls (loopWorld (llmChat env currentMessages ?ts w)) = aw_calls w @ [Chat currentMessages ?ts]"
      by (rule llmChat_world)
    show ?thesis
    proof (cases "llmChat env currentMessages ?ts w")
      case (Inl p)
      obtain e w1 where p: "p = (e, w1)" by (cases p)
      have "toolLoop env registry ids tools maxIterations iterations currentMessages w = Inl (e, w1)"
        using True Inl p by (subst toolLoop.simps) simp
      moreover have "length (aw_calls w1) = length (aw_calls w) + 1"
        using cw Inl p by simp
      ultimately show ?thesis using True by auto
    next
      case (Inr p)
      obtain result w1 where p: "p = (result, w1)" by (cases p)
      have c1: "length (aw_calls w1) = length (aw_calls w) + 1"
        using cw Inr p by simp
      show ?thesis
      proof (cases "lr_toolCalls result = None \<or> lr_toolCalls result = Some []")
        case True': True
        have "toolLoop env registry ids tools maxIterations iterations currentMessages w
              = Inr (lr_content result, w1)"
          using True Inr p True' by (subst toolLoop.simps) auto
        then show ?thesis using c1 True by auto
      next
        case False
        then obtain toolCalls where tc: "lr_toolCalls result = Some toolCalls" "length toolCalls \<noteq> 0"
          by (cases "lr_toolCalls result") auto
        let ?x = "executeToolCalls env registry ids toolCalls
                    (currentMessages @ [\<lparr> cm_role = assistant, cm_content = lr_content result,
                                           cm_toolCallId = None \<rparr>]) w1"
        have cx: "aw_calls (loopWorld ?x) = aw_calls w1"
          using "1.prems" by (rule executeToolCalls_calls)
        show ?thesis
        proof (cases ?x)
          case (Inl q)
          obtain e w2 where q: "q = (e, w2)" by (cases q)
          have "toolLoop env registry ids tools maxIterations iterations currentMessages w = Inl (e, w2)"
            using True Inr p tc Inl q by (subst toolLoop.simps) simp
          moreover have "length (aw_calls w2) = length (aw_calls w) + 1"
            using cx Inl q c1 by simp
          ultimately show ?thesis using True by auto
        next
          case Inr2: (Inr q)
          obtain messages' w2 where q: "q = (messages', w2)" by (cases q)
          have t: "toolLoop env registry ids tools maxIterations iterations currentMessages w
                 = toolLoop env registry ids tools maxIterations (iterations + 1) messages' w2"
            using True Inr p tc Inr2 q by (subst toolLoop.simps) simp
          have c2: "length (aw_calls w2) = length (aw_calls w) + 1"
            using cx Inr2 q c1 by simp
          note IH = "1.IH" [OF True Inr p [symmetric] tc(1) _ Inr2 q [symmetric]]
          have "length toolCalls \<noteq> 0" by (rule tc(2))
          note IH' = IH [OF this "1.prems"]
          show ?thesis
            unfolding t using IH' c2 True by auto
        qed
      qed
    qed
  qed
qed

lemma executeToolCall_llm_calls:
  "aw_calls (loopWorld (executeToolCall env registry ids toolCall w))
     = aw_calls w @
         (if startsWith (tc_name toolCall) ''skill__'' \<and>
             truthy (Option.bind (registry (drop 7 (tc_name toolCall))) sk_instructions)
          then [Complete
                  (replaceArguments (the (sk_instructions (the (registry (drop 7 (tc_name toolCall))))))
                     (if (case map_of (tc_arguments toolCall) ''arguments'' of None \<Rightarrow> [] | Some a \<Rightarrow> a) \<noteq> []
                      then (case map_of (tc_arguments toolCall) ''arguments'' of None \<Rightarrow> [] | Some a \<Rightarrow> a)
                      else ''(no arguments)''))
                  (case map_of (tc_arguments toolCall) ''arguments'' of None \<Rightarrow> [] | Some a \<Rightarrow> a)]
          else [])"
proof (cases "startsWith (tc_name toolCall) ''skill__''")
  case False
  then show ?thesis
    using invokeTool_calls [of env "tc_name toolCall" "tc_arguments toolCall"]
    by (auto simp: executeToolCall_def Let_def split: sum.splits prod.splits)
       (metis loopWorld_simps agentLog_calls)+
next
  case True
  show ?thesis
  proof (cases "truthy (Option.bind (registry (drop 7 (tc_name toolCall))) sk_instructions)")
    case False
    with True show ?thesis by (simp add: executeToolCall_def Let_def)
  next
    case t: True
    let ?args = "case map_of (tc_arguments toolCall) ''arguments'' of None \<Rightarrow> [] | Some a \<Rightarrow> a"
    let ?sys = "replaceArguments (the (sk_instructions (the (registry (drop 7 (tc_name toolCall))))))
                  (if ?args \<noteq> [] then ?args else ''(no arguments)'')"
    let ?w1 = "agentLog env tool_call_started (ti_taskId ids) (ti_channelId ids) (ti_conversationId ids)
                 ([(''tool'', tc_name toolCall), (''type'', ''skill'')] @ []) w"
    have c: "aw_calls (loopWorld (llmComplete env ?sys ?args ?w1)) = aw_calls w @ [Complete ?sys ?args]"
      by (simp add: llmComplete_world)
    show ?thesis
      using True t c
      by (cases "llmComplete env ?sys ?args ?w1")
         (auto simp: executeToolCall_def Let_def split: prod.splits)
  qed
qed

lemma executeToolCalls_grow:
  "\<exists>rest. aw_calls (loopWorld (executeToolCalls env registry ids toolCalls msgs w)) = aw_calls w @ rest"
proof (induction toolCalls arbitrary: msgs w)
  case Nil
  then show ?case by simp
next
  case (Cons toolCall toolCalls)
  obtain r1 where r1: "aw_calls (loopWorld (executeToolCall env registry ids toolCall w)) = aw_calls w @ r1"
    using executeToolCall_llm_calls [of env registry ids toolCall w] by blast
  show ?case
  proof (cases "executeToolCall env registry ids toolCall w")
    case (Inl p)
    with r1 show ?thesis by (cases p) simp
  next
    case (Inr p)
    obtain res w1 where p: "p = (res, w1)" by (cases p)
    from Cons.IH [of "msgs @ [\<lparr> cm_role = tool, cm_content = res, cm_toolCallId = Some (tc_id toolCall) \<rparr>]" w1]
    obtain r2 where "aw_calls (loopWorld (executeToolCalls env registry ids toolCalls
        (msgs @ [\<lparr> cm_role = tool, cm_content = res, cm_toolCallId = Some (tc_id toolCall) \<rparr>]) w1)) = aw_calls w1 @ r2"
      by blast
    with Inr p r1 show ?thesis by simp
  qed
qed

lemma toolLoop_first_call:
  "\<exists>rest. aw_calls (loopWorld (toolLoop env registry ids tools maxIterations iterations msgs w))
     = aw_calls w @ Chat msgs (if iterations < maxIterations \<and> length tools > 0 then Some tools else None) # rest"
proof (induction env registry ids tools maxIterations iterations msgs w rule: toolLoop.induct)
  case (1 env registry ids tools maxIterations iterations currentMessages w)
  let ?ts = "if length tools > 0 then Some tools else None"
  show ?case
  proof (cases "iterations < maxIterations")
    case False
    have "aw_calls (loopWorld (toolLoop env registry ids tools maxIterations iterations currentMessages w))
          = aw_calls w @ [Chat currentMessages None]"
      using False llmChat_world [of env currentMessages None w]
      by (subst toolLoop.simps) (auto split: sum.splits)
    with False show ?thesis by simp
  next
    case True
    have cw: "aw_calls (loopWorld (llmChat env currentMessages ?ts w)) = aw_calls w @ [Chat currentMessages ?ts]"
      by (rule llmChat_world)
    show ?thesis
    proof (cases "llmChat env currentMessages ?ts w")
      case (Inl p)
      obtain e w1 where p: "p = (e, w1)" by (cases p)
      have "toolLoop env registry ids tools maxIterations iterations currentMessages w = Inl (e, w1)"
        using True Inl p by (subst toolLoop.simps) simp
      with cw Inl p True show ?thesis by auto
    next
      case (Inr p)
      obtain result w1 where p: "p = (result, w1)" by (cases p)
      have c1: "aw_calls w1 = aw_calls w @ [Chat currentMessages ?ts]"
        using cw Inr p by simp
      show ?thesis
      proof (cases "lr_toolCalls result = None \<or> lr_toolCalls result = Some []")
        case True': True
        have "toolLoop env registry ids tools maxIterations iterations currentMessages w
              = Inr (lr_content result, w1)"
          using True Inr p True' by (subst toolLoop.simps) auto
        with c1 True show ?thesis by auto
      next
        case False
        then obtain toolCalls where tc: "lr_toolCalls result = Some toolCalls" "length toolCalls \<noteq> 0"
          by (cases "lr_toolCalls result") auto
        let ?x = "executeToolCalls env registry ids toolCalls
                    (currentMessages @ [\<lparr> cm_role = assistant, cm_content = lr_content result,
                                           cm_toolCallId = None \<rparr>]) w1"
        obtain r1 where cx: "aw_calls (loopWorld ?x) = aw_calls w1 @ r1"
          using executeToolCalls_grow by blast
        show ?thesis
        proof (cases ?x)
          case (Inl q)
          obtain e w2 where q: "q = (e, w2)" by (cases q)
          have "toolLoop env registry ids tools maxIterations iterations currentMessages w = Inl (e, w2)"
            using True Inr p tc Inl q by (subst toolLoop.simps) simp
          with cx Inl q c1 True show ?thesis by auto
        next
          case Inr2: (Inr q)
          obtain messages' w2 where q: "q = (messages', w2)" by (cases q)
          have t: "toolLoop env registry ids tools maxIterations iterations currentMessages w
                 = toolLoop env registry ids tools maxIterations (iterations + 1) messages' w2"
            using True Inr p tc Inr2 q by (subst toolLoop.simps) simp
          note IH = "1.IH" [OF True Inr p [symmetric] tc(1) _ Inr2 q [symmetric]]
          have "length toolCalls \<noteq> 0" by (rule tc(2))
          from IH [OF this] obtain r2 where
            "aw_calls (loopWorld (toolLoop env registry ids tools maxIterations (iterations + 1) messages' w2))
               = aw_calls w2 @ Chat messages' (if iterations + 1 < maxIterations \<and> length tools > 0 then Some tools else None) # r2"
            by blast
          with cx Inr2 q c1 True show ?thesis
            unfolding t by auto
        qed
      qed
    qed
  qed
qed

lemma executeToolCalls_keeps:
  "executeToolCalls env registry ids toolCalls msgs w = Inr (msgs', w') \<Longrightarrow> set msgs \<subseteq> set msgs'"
proof (induction toolCalls arbitrary: msgs w)
  case Nil
  then show ?case by simp
next
  case (Cons toolCall toolCalls)
  then show ?case
    by (auto split: sum.splits prod.splits dest!: Cons.IH)
qed

lemma executeToolCalls_records:
  assumes "\<And>w0. executeToolCall env registry ids toolCall w0 = Inr (text, w0)"
  shows "toolCall \<in> set toolCalls \<Longrightarrow>
         executeToolCalls env registry ids toolCalls msgs w = Inr (msgs', w') \<Longrightarrow>
         \<lparr> cm_role = tool, cm_content = text, cm_toolCallId = Some (tc_id toolCall) \<rparr> \<in> set msgs'"
proof (induction toolCalls arbitrary: msgs w)
  case Nil
  then show ?case by simp
next
  case (Cons c toolCalls)
  show ?case
  proof (cases "c = toolCall")
    case True
    with Cons.prems(2) assms have
      "executeToolCalls env registry ids toolCalls
         (msgs @ [\<lparr> cm_role = tool, cm_content = text, cm_toolCallId = Some (tc_id toolCall) \<rparr>]) w
       = Inr (msgs', w')"
      by simp
    from executeToolCalls_keeps [OF this] show ?thesis by auto
  next
    case False
    with Cons.prems(1) have "toolCall \<in> set toolCalls" by simp
    with Cons.prems(2) show ?thesis
      by (auto split: sum.splits prod.splits dest: Cons.IH)
  qed
qed

lemmas agent_eval =
  runToolLoop_def toolLoop.simps executeToolCall_def llmChat_def llmComplete_def invokeTool_def
  agentLog_def replaceArguments_def replaceAllFrom.simps startsWith_def truthy_def Let_def

text \<open>
  C9: a tool call named \<^verbatim>\<open>skill__<name>\<close> whose skill is registered without
  instructions (none, or the empty text) has the tool result \<^verbatim>\<open>Skill <name> not found\<close>,
  and executing it leaves the world unchanged: no completion is requested (and nothing is
  journalled). The result is recorded: a batch that consists of this call appends the
  tool message with this text and the id of the call to the transcript, and the
  transcript after any batch that holds the call and runs to its end holds that
  message. And the loop continues: when the model answers an iteration with such a
  batch, the next request of the loop is a chat request whose transcript is the one
  after the batch, the tool message included.
\<close>

theorem skill_without_instructions_not_found:
  assumes "tc_name toolCall = ''skill__'' @ skillName"
      and "registry skillName = Some skill"
      and "sk_instructions skill = None \<or> sk_instructions skill = Some []"
  shows "executeToolCall env registry ids toolCall w = Inr (''Skill '' @ skillName @ '' not found'', w)
       \<and> executeToolCalls env registry ids [toolCall] currentMessages w
           = Inr (currentMessages @
                    [\<lparr> cm_role = tool, cm_content = ''Skill '' @ skillName @ '' not found'',
                       cm_toolCallId = Some (tc_id toolCall) \<rparr>], w)
       \<and> (toolCall \<in> set toolCalls \<and>
            executeToolCalls env registry ids toolCalls currentMessages w = Inr (messages', w')
            \<longrightarrow> \<lparr> cm_role = tool, cm_content = ''Skill '' @ skillName @ '' not found'',
                    cm_toolCallId = Some (tc_id toolCall) \<rparr> \<in> set messages')
       \<and> (iterations < maxIterations \<and>
            ag_chat env (length (aw_calls w)) currentMessages
              (if length tools > 0 then Some tools else None) = Inr result \<and>
            lr_toolCalls result = Some toolCalls \<and> toolCall \<in> set toolCalls \<and>
            executeToolCalls env registry ids toolCalls
              (currentMessages @
                 [\<lparr> cm_role = assistant, cm_content = lr_content result, cm_toolCallId = None \<rparr>])
              (w\<lparr> aw_calls := aw_calls w @
                     [Chat currentMessages (if length tools > 0 then Some tools else None)] \<rparr>)
              = Inr (messages', w')
            \<longrightarrow> \<lparr> cm_role = tool, cm_content = ''Skill '' @ skillName @ '' not found'',
                    cm_toolCallId = Some (tc_id toolCall) \<rparr> \<in> set messages'
              \<and> (\<exists>rest. aw_calls (loopWorld (toolLoop env registry ids tools maxIterations
                                                  iterations currentMessages w))
                     = aw_calls w' @
                         Chat messages' (if iterations + 1 < maxIterations \<and> length tools > 0
                                         then Some tools else None) # rest))"
proof -
  let ?found = "''Skill '' @ skillName @ '' not found''"
  let ?toolMessage = "\<lparr> cm_role = tool, cm_content = ?found, cm_toolCallId = Some (tc_id toolCall) \<rparr>"
  let ?ts = "if length tools > 0 then Some tools else None"
  have s: "startsWith (tc_name toolCall) ''skill__''" "drop 7 (tc_name toolCall) = skillName"
    using assms(1) by (simp_all add: startsWith_def)
  have "\<not> truthy (Option.bind (registry skillName) sk_instructions)"
    using assms(2,3) by (auto simp: truthy_def)
  then have one: "executeToolCall env registry ids toolCall w0 = Inr (?found, w0)" for w0
    using s by (simp add: executeToolCall_def Let_def)
  have batch: "executeToolCalls env registry ids [toolCall] currentMessages w
                 = Inr (currentMessages @ [?toolMessage], w)"
    by (simp add: one)
  have recorded: "?toolMessage \<in> set ms"
    if "toolCall \<in> set toolCalls" and "executeToolCalls env registry ids toolCalls ms0 w0 = Inr (ms, w1)"
    for ms0 w0 ms w1
    using one that by (rule executeToolCalls_records)
  have continues: "\<exists>rest. aw_calls (loopWorld (toolLoop env registry ids tools maxIterations
                                                  iterations currentMessages w))
                     = aw_calls w' @
                         Chat messages' (if iterations + 1 < maxIterations \<and> length tools > 0
                                         then Some tools else None) # rest"
    if it: "iterations < maxIterations"
      and chat: "ag_chat env (length (aw_calls w)) currentMessages ?ts = Inr result"
      and tcs: "lr_toolCalls result = Some toolCalls" and mem: "toolCall \<in> set toolCalls"
      and run: "executeToolCalls env registry ids toolCalls
                  (currentMessages @
                     [\<lparr> cm_role = assistant, cm_content = lr_content result, cm_toolCallId = None \<rparr>])
                  (w\<lparr> aw_calls := aw_calls w @ [Chat currentMessages ?ts] \<rparr>) = Inr (messages', w')"
  proof -
    from mem have ne: "length toolCalls \<noteq> 0" by auto
    have "toolLoop env registry ids tools maxIterations iterations currentMessages w
            = toolLoop env registry ids tools maxIterations (iterations + 1) messages' w'"
      using it chat tcs ne run
      by (subst toolLoop.simps) (simp add: llmChat_def Let_def)
    then show ?thesis
      using toolLoop_first_call [of env registry ids tools maxIterations "iterations + 1" messages' w']
      by simp
  qed
  from one [of w] batch recorded continues show ?thesis
    by blast
qed

text \<open>
  C9 for the tool call \<^verbatim>\<open>skill__draft\<close>, the skill \<^verbatim>\<open>draft\<close> registered without
  instructions, in a loop of at most one iteration: the model asks for the skill, the
  tool message is recorded, and the loop goes on to its final chat request, whose
  transcript ends with the tool message. No completion is requested in between.
\<close>

theorem skill_without_instructions_not_found_witness:
  "executeToolCall
      \<lparr> ag_channels = \<lparr> getChannel = (\<lambda>c. if c = ''web'' then Some ''web'' else None),
                          sendMessage = (\<lambda>n c v m. None) \<rparr>,
         ag_chat = (\<lambda>n ms ts. Inr \<lparr> lr_content = [], lr_toolCalls =
                      Some [\<lparr> tc_id = ''t7'', tc_name = ''skill__draft'',
                               tc_arguments = [(''arguments'', ''a reply'')] \<rparr>] \<rparr>),
         ag_complete = (\<lambda>n sys usr. Inr ''A summary.''),
         ag_invokeTool = (\<lambda>n t a. Inr ''5''), ag_journal = False,
         ag_now = (\<lambda>k. ''2026-01-05T10:00:00.000Z'') \<rparr>
      [''draft'' \<mapsto> \<lparr> sk_name = ''draft'', sk_description = ''Draft a reply'',
          sk_userInvocable = True, sk_argumentHint = None, sk_disableModelInvocation = None,
          sk_instructions = None, sk_source = skillmd, sk_execute = None \<rparr>]
      \<lparr> ti_taskId = ''m1'', ti_channelId = ''web'', ti_conversationId = ''c1'' \<rparr>
      \<lparr> tc_id = ''t7'', tc_name = ''skill__draft'', tc_arguments = [(''arguments'', ''a reply'')] \<rparr>
      \<lparr> aw_calls = [], aw_invocations = [], aw_sent = [], aw_journal = [] \<rparr>
   = Inr (''Skill draft not found'', \<lparr> aw_calls = [], aw_invocations = [], aw_sent = [], aw_journal = [] \<rparr>)
   \<and> (\<exists>rest. aw_calls (loopWorld (toolLoop
      \<lparr> ag_channels = \<lparr> getChannel = (\<lambda>c. if c = ''web'' then Some ''web'' else None),
                          sendMessage = (\<lambda>n c v m. None) \<rparr>,
         ag_chat = (\<lambda>n ms ts. Inr \<lparr> lr_content = [], lr_toolCalls =
                      Some [\<lparr> tc_id = ''t7'', tc_name = ''skill__draft'',
                               tc_arguments = [(''arguments'', ''a reply'')] \<rparr>] \<rparr>),
         ag_complete = (\<lambda>n sys usr. Inr ''A summary.''),
         ag_invokeTool = (\<lambda>n t a. Inr ''5''), ag_journal = False,
         ag_now = (\<lambda>k. ''2026-01-05T10:00:00.000Z'') \<rparr>
      [''draft'' \<mapsto> \<lparr> sk_name = ''draft'', sk_description = ''Draft a reply'',
          sk_userInvocable = True, sk_argumentHint = None, sk_disableModelInvocation = None,
          sk_instructions = None, sk_source = skillmd, sk_execute = None \<rparr>]
      \<lparr> ti_taskId = ''m1'', ti_channelId = ''web'', ti_conversationId = ''c1'' \<rparr>
      [\<lparr> td_name = ''skill__draft'', td_description = ''Draft a reply'', td_inputSchema = ''object'' \<rparr>]
      1 0
      [\<lparr> cm_role = user, cm_content = ''Draft a reply'', cm_toolCallId = None \<rparr>]
      \<lparr> aw_calls = [], aw_invocations = [], aw_sent = [], aw_journal = [] \<rparr>))
     = [Chat [\<lparr> cm_role = user, cm_content = ''Draft a reply'', cm_toolCallId = None \<rparr>]
          (Some [\<lparr> td_name = ''skill__draft'', td_description = ''Draft a reply'',
                   td_inputSchema = ''object'' \<rparr>]),
        Chat [\<lparr> cm_role = user, cm_content = ''Draft a reply'', cm_toolCallId = None \<rparr>,
              \<lparr> cm_role = assistant, cm_content = [], cm_toolCallId = None \<rparr>,
              \<lparr> cm_role = tool, cm_content = ''Skill draft not found'', cm_toolCallId = Some ''t7'' \<rparr>]
          None] @ rest)"
proof -
  let ?env = "\<lparr> ag_channels = \<lparr> getChannel = (\<lambda>c. if c = ''web'' then Some ''web'' else None),
                          sendMessage = (\<lambda>n c v m. None) \<rparr>,
         ag_chat = (\<lambda>n ms ts. Inr \<lparr> lr_content = [], lr_toolCalls =
                      Some [\<lparr> tc_id = ''t7'', tc_name = ''skill__draft'',
                               tc_arguments = [(''arguments'', ''a reply'')] \<rparr>] \<rparr>),
         ag_complete = (\<lambda>n sys usr. Inr ''A summary.''),
         ag_invokeTool = (\<lambda>n t a. Inr ''5''), ag_journal = False,
         ag_now = (\<lambda>k. ''2026-01-05T10:00:00.000Z'') \<rparr>"
  let ?skill = "\<lparr> sk_name = ''draft'', sk_description = ''Draft a reply'',
          sk_userInvocable = True, sk_argumentHint = None, sk_disableModelInvocation = None,
          sk_instructions = None, sk_source = skillmd, sk_execute = None \<rparr>"
  let ?registry = "[''draft'' \<mapsto> ?skill]"
  let ?ids = "\<lparr> ti_taskId = ''m1'', ti_channelId = ''web'', ti_conversationId = ''c1'' \<rparr>"
  let ?call = "\<lparr> tc_id = ''t7'', tc_name = ''skill__draft'', tc_arguments = [(''arguments'', ''a reply'')] \<rparr>"
  let ?tools = "[\<lparr> td_name = ''skill__draft'', td_description = ''Draft a reply'', td_inputSchema = ''object'' \<rparr>]"
  let ?msgs = "[\<lparr> cm_role = user, cm_content = ''Draft a reply'', cm_toolCallId = None \<rparr>]"
  let ?w = "\<lparr> aw_calls = [], aw_invocations = [], aw_sent = [], aw_journal = [] \<rparr>"
  let ?result = "\<lparr> lr_content = [], lr_toolCalls = Some [?call] \<rparr>"
  let ?w1 = "?w\<lparr> aw_calls := aw_calls ?w @ [Chat ?msgs (if length ?tools > 0 then Some ?tools else None)] \<rparr>"
  let ?msgs1 = "?msgs @ [\<lparr> cm_role = assistant, cm_content = lr_content ?result, cm_toolCallId = None \<rparr>]"
  let ?msgs2 = "?msgs1 @ [\<lparr> cm_role = tool, cm_content = ''Skill '' @ ''draft'' @ '' not found'',
                             cm_toolCallId = Some (tc_id ?call) \<rparr>]"
  have a1: "tc_name ?call = ''skill__'' @ ''draft''" by simp
  have a2: "?registry ''draft'' = Some ?skill" by simp
  have a3: "sk_instructions ?skill = None \<or> sk_instructions ?skill = Some []" by simp
  note T = skill_without_instructions_not_found
             [where toolCall = ?call and skillName = "''draft''" and registry = ?registry
                and skill = ?skill and env = ?env and ids = ?ids, OF a1 a2 a3]
  have one: "executeToolCall ?env ?registry ?ids ?call ?w = Inr (''Skill '' @ ''draft'' @ '' not found'', ?w)"
    using T [where w = ?w] by blast
  have run: "executeToolCalls ?env ?registry ?ids [?call] ?msgs1 ?w1 = Inr (?msgs2, ?w1)"
    using T [where w = ?w1 and currentMessages = ?msgs1] by blast
  have "\<exists>rest. aw_calls (loopWorld (toolLoop ?env ?registry ?ids ?tools 1 0 ?msgs ?w))
           = aw_calls ?w1 @ Chat ?msgs2 (if 0 + 1 < (1::nat) \<and> length ?tools > 0 then Some ?tools else None) # rest"
    using T [where w = ?w and currentMessages = ?msgs and toolCalls = "[?call]"
               and messages' = ?msgs2 and w' = ?w1 and iterations = 0 and maxIterations = 1
               and tools = ?tools and result = ?result] run
    by simp
  with one show ?thesis by simp
qed

text \<open>The same result for a skill that is not registered.\<close>

lemma unregistered_skill_not_found:
  assumes "tc_name toolCall = ''skill__'' @ skillName" and "registry skillName = None"
  shows "executeToolCall env registry ids toolCall w = Inr (''Skill '' @ skillName @ '' not found'', w)"
proof -
  have s: "startsWith (tc_name toolCall) ''skill__''" "drop 7 (tc_name toolCall) = skillName"
    using assms(1) by (simp_all add: startsWith_def)
  show ?thesis
    using s assms(2) by (simp add: executeToolCall_def Let_def truthy_def)
qed

text \<open>
  C5, as stated, fails: a tool call for a skill with instructions makes a request to
  the language model of its own (\<^verbatim>\<open>llmService.complete\<close>). With \<open>maxIterations = 1\<close> and a
  model that answers with one such tool call, the loop makes three requests: the chat
  call of the iteration, the completion of the skill, and the final chat call without
  tools.
\<close>

theorem tool_loop_calls_counterexample:
  "aw_calls (loopWorld (runToolLoop
      \<lparr> ag_channels = \<lparr> getChannel = (\<lambda>c. if c = ''web'' then Some ''web'' else None),
                          sendMessage = (\<lambda>n c v m. None) \<rparr>,
         ag_chat = (\<lambda>n ms ts. Inr \<lparr> lr_content = [], lr_toolCalls =
                      Some [\<lparr> tc_id = ''t1'', tc_name = ''skill__summarize'',
                               tc_arguments = [(''arguments'', ''the report'')] \<rparr>] \<rparr>),
         ag_complete = (\<lambda>n sys usr. Inr ''A summary.''),
         ag_invokeTool = (\<lambda>n t a. Inr ''5''), ag_journal = False,
         ag_now = (\<lambda>k. ''2026-01-05T10:00:00.000Z'') \<rparr>
      [''summarize'' \<mapsto> \<lparr> sk_name = ''summarize'', sk_description = ''Summarize a text'',
          sk_userInvocable = True, sk_argumentHint = None, sk_disableModelInvocation = None,
          sk_instructions = Some ''Summarize: $ARGUMENTS'', sk_source = skillmd, sk_execute = None \<rparr>]
      \<lparr> ti_taskId = ''m1'', ti_channelId = ''web'', ti_conversationId = ''c1'' \<rparr>
      [\<lparr> cm_role = system, cm_content = ''You are helpful.'', cm_toolCallId = None \<rparr>,
       \<lparr> cm_role = user, cm_content = ''Summarize the report'', cm_toolCallId = None \<rparr>]
      [\<lparr> td_name = ''skill__summarize'', td_description = ''Summarize a text'',
          td_inputSchema = ''object'' \<rparr>]
      1
      \<lparr> aw_calls = [], aw_invocations = [], aw_sent = [], aw_journal = [] \<rparr>))
   = [Chat [\<lparr> cm_role = system, cm_content = ''You are helpful.'', cm_toolCallId = None \<rparr>,
       \<lparr> cm_role = user, cm_content = ''Summarize the report'', cm_toolCallId = None \<rparr>]
        (Some [\<lparr> td_name = ''skill__summarize'', td_description = ''Summarize a text'',
          td_inputSchema = ''object'' \<rparr>]),
      Complete ''Summarize: the report'' ''the report'',
      Chat ([\<lparr> cm_role = system, cm_content = ''You are helpful.'', cm_toolCallId = None \<rparr>,
       \<lparr> cm_role = user, cm_content = ''Summarize the report'', cm_toolCallId = None \<rparr>] @
        [\<lparr> cm_role = assistant, cm_content = [], cm_toolCallId = None \<rparr>,
         \<lparr> cm_role = tool, cm_content = ''A summary.'', cm_toolCallId = Some ''t1'' \<rparr>])
        None]"
  by (simp add: agent_eval)

text \<open>
  C5, amended: one invocation of the tool-use loop terminates (the model is a total
  function, its termination proved by the measure \<open>maxIterations - iterations\<close>) and
  makes at most \<open>maxIterations + 1\<close> chat requests; when it makes that many, the last
  request is the final chat call without tools. Completions of skill tool calls come
  on top: executing a tool call that names a skill with instructions makes exactly one
  request to the language model, a completion, and executing any other tool call makes
  none. When no registered skill has instructions, the loop makes at most
  \<open>maxIterations + 1\<close> requests to the language model in all.
\<close>

theorem tool_loop_chat_bound:
  "chatCalls (loopWorld (runToolLoop env registry ids messages tools maxIterations w))
     \<le> chatCalls w + maxIterations + 1
   \<and> (chatCalls (loopWorld (runToolLoop env registry ids messages tools maxIterations w))
        = chatCalls w + maxIterations + 1
      \<longrightarrow> (\<exists>ms. last (aw_calls (loopWorld (runToolLoop env registry ids messages tools maxIterations w)))
                  = Chat ms None))
   \<and> (if startsWith (tc_name toolCall) ''skill__'' \<and>
          truthy (Option.bind (registry (drop 7 (tc_name toolCall))) sk_instructions)
       then \<exists>systemPrompt userPrompt.
              aw_calls (loopWorld (executeToolCall env registry ids toolCall w))
                = aw_calls w @ [Complete systemPrompt userPrompt]
       else aw_calls (loopWorld (executeToolCall env registry ids toolCall w)) = aw_calls w)
   \<and> ((\<forall>n skill. registry n = Some skill \<longrightarrow> \<not> truthy (sk_instructions skill))
      \<longrightarrow> length (aw_calls (loopWorld (runToolLoop env registry ids messages tools maxIterations w)))
            \<le> length (aw_calls w) + maxIterations + 1)"
  using toolLoop_chatCalls [of env registry ids tools maxIterations 0 messages w]
        toolLoop_calls [of registry env ids tools maxIterations 0 messages w]
        executeToolCall_llm_calls [of env registry ids toolCall w]
  by (simp add: runToolLoop_def)

text \<open>
  The amended C5 with \<open>maxIterations = 2\<close> and a model that always asks for an MCP tool:
  three chat requests, and three requests in all (no skill is registered, and executing
  the tool call requests nothing from the language model).
\<close>

theorem tool_loop_chat_bound_witness:
  "chatCalls (loopWorld (runToolLoop
      \<lparr> ag_channels = \<lparr> getChannel = (\<lambda>c. if c = ''web'' then Some ''web'' else None),
                          sendMessage = (\<lambda>n c v m. None) \<rparr>,
         ag_chat = (\<lambda>n ms ts. Inr \<lparr> lr_content = [], lr_toolCalls =
                      Some [\<lparr> tc_id = ''t1'', tc_name = ''calc__add'',
                               tc_arguments = [(''a'', ''2''), (''b'', ''3'')] \<rparr>] \<rparr>),
         ag_complete = (\<lambda>n sys usr. Inr ''A summary.''),
         ag_invokeTool = (\<lambda>n t a. Inr ''5''), ag_journal = False,
         ag_now = (\<lambda>k. ''2026-01-05T10:00:00.000Z'') \<rparr>
      Map.empty
      \<lparr> ti_taskId = ''m1'', ti_channelId = ''web'', ti_conversationId = ''c1'' \<rparr>
      [\<lparr> cm_role = system, cm_content = ''You are helpful.'', cm_toolCallId = None \<rparr>,
       \<lparr> cm_role = user, cm_content = ''What is 2+3?'', cm_toolCallId = None \<rparr>]
      [\<lparr> td_name = ''calc__add'', td_description = ''Add two numbers'',
          td_inputSchema = ''object'' \<rparr>]
      2
      \<lparr> aw_calls = [], aw_invocations = [], aw_sent = [], aw_journal = [] \<rparr>)) = 3
   \<and> length (aw_calls (loopWorld (runToolLoop
      \<lparr> ag_channels = \<lparr> getChannel = (\<lambda>c. if c = ''web'' then Some ''web'' else None),
                          sendMessage = (\<lambda>n c v m. None) \<rparr>,
         ag_chat = (\<lambda>n ms ts. Inr \<lparr> lr_content = [], lr_toolCalls =
                      Some [\<lparr> tc_id = ''t1'', tc_name = ''calc__add'',
                               tc_arguments = [(''a'', ''2''), (''b'', ''3'')] \<rparr>] \<rparr>),
         ag_complete = (\<lambda>n sys usr. Inr ''A summary.''),
         ag_invokeTool = (\<lambda>n t a. Inr ''5''), ag_journal = False,
         ag_now = (\<lambda>k. ''2026-01-05T10:00:00.000Z'') \<rparr>
      Map.empty
      \<lparr> ti_taskId = ''m1'', ti_channelId = ''web'', ti_conversationId = ''c1'' \<rparr>
      [\<lparr> cm_role = system, cm_content = ''You are helpful.'', cm_toolCallId = None \<rparr>,
       \<lparr> cm_role = user, cm_content = ''What is 2+3?'', cm_toolCallId = None \<rparr>]
      [\<lparr> td_name = ''calc__add'', td_description = ''Add two numbers'',
          td_inputSchema = ''object'' \<rparr>]
      2
      \<lparr> aw_calls = [], aw_invocations = [], aw_sent = [], aw_journal = [] \<rparr>))) \<le> 3
   \<and> aw_calls (loopWorld (executeToolCall
      \<lparr> ag_channels = \<lparr> getChannel = (\<lambda>c. if c = ''web'' then Some ''web'' else None),
                          sendMessage = (\<lambda>n c v m. None) \<rparr>,
         ag_chat = (\<lambda>n ms ts. Inr \<lparr> lr_content = [], lr_toolCalls =
                      Some [\<lparr> tc_id = ''t1'', tc_name = ''calc__add'',
                               tc_arguments = [(''a'', ''2''), (''b'', ''3'')] \<rparr>] \<rparr>),
         ag_complete = (\<lambda>n sys usr. Inr ''A summary.''),
         ag_invokeTool = (\<lambda>n t a. Inr ''5''), ag_journal = False,
         ag_now = (\<lambda>k. ''2026-01-05T10:00:00.000Z'') \<rparr>
      Map.empty
      \<lparr> ti_taskId = ''m1'', ti_channelId = ''web'', ti_conversationId = ''c1'' \<rparr>
      \<lparr> tc_id = ''t1'', tc_name = ''calc__add'', tc_arguments = [(''a'', ''2''), (''b'', ''3'')] \<rparr>
      \<lparr> aw_calls = [], aw_invocations = [], aw_sent = [], aw_journal = [] \<rparr>)) = []"
  using tool_loop_chat_bound [of
      "\<lparr> ag_channels = \<lparr> getChannel = (\<lambda>c. if c = ''web'' then Some ''web'' else None),
                          sendMessage = (\<lambda>n c v m. None) \<rparr>,
         ag_chat = (\<lambda>n ms ts. Inr \<lparr> lr_content = [], lr_toolCalls =
                      Some [\<lparr> tc_id = ''t1'', tc_name = ''calc__add'',
                               tc_arguments = [(''a'', ''2''), (''b'', ''3'')] \<rparr>] \<rparr>),
         ag_complete = (\<lambda>n sys usr. Inr ''A summary.''),
         ag_invokeTool = (\<lambda>n t a. Inr ''5''), ag_journal = False,
         ag_now = (\<lambda>k. ''2026-01-05T10:00:00.000Z'') \<rparr>"
      Map.empty
      "\<lparr> ti_taskId = ''m1'', ti_channelId = ''web'', ti_conversationId = ''c1'' \<rparr>"
      "[\<lparr> cm_role = system, cm_content = ''You are helpful.'', cm_toolCallId = None \<rparr>,
       \<lparr> cm_role = user, cm_content = ''What is 2+3?'', cm_toolCallId = None \<rparr>]"
      "[\<lparr> td_name = ''calc__add'', td_description = ''Add two numbers'',
          td_inputSchema = ''object'' \<rparr>]"
      2
      "\<lparr> aw_calls = [], aw_invocations = [], aw_sent = [], aw_journal = [] \<rparr>"
      "\<lparr> tc_id = ''t1'', tc_name = ''calc__add'', tc_arguments = [(''a'', ''2''), (''b'', ''3'')] \<rparr>"]
  by (simp add: agent_eval chatCalls_def)

subsection \<open>The normal pipeline\<close>

lemma stepWorld_simps [simp]:
  "stepWorld (Inl (e, w)) = w" "stepWorld (Inr (x, w)) = w"
  by (simp_all add: stepWorld_def)

lemma pipelineWorld_simps [simp]:
  "pipelineWorld (Inl (e, w)) = w" "pipelineWorld (Inr w) = w"
  by (simp_all add: pipelineWorld_def)

lemma agentLog_sent [simp]: "aw_sent (agentLog env ev t c v d w) = aw_sent w"
  by (simp add: agentLog_def)

lemma llmChat_sent: "aw_sent (loopWorld (llmChat env ms ts w)) = aw_sent w"
  by (simp add: llmChat_def loopWorld_def Let_def split: sum.splits)

lemma llmComplete_sent: "aw_sent (loopWorld (llmComplete env sys usr w)) = aw_sent w"
  by (simp add: llmComplete_def loopWorld_def Let_def split: sum.splits)

lemma invokeTool_sent: "aw_sent (loopWorld (invokeTool env n a w)) = aw_sent w"
  by (simp add: invokeTool_def loopWorld_def Let_def split: sum.splits)

lemma executeToolCall_sent:
  "aw_sent (loopWorld (executeToolCall env registry ids toolCall w)) = aw_sent w"
proof -
  have c: "aw_sent (loopWorld (llmComplete env sys usr w0)) = aw_sent w0" for sys usr w0
    by (rule llmComplete_sent)
  have i: "aw_sent (loopWorld (invokeTool env n a w0)) = aw_sent w0" for n a w0
    by (rule invokeTool_sent)
  show ?thesis
    unfolding executeToolCall_def Let_def
    apply (simp split: sum.splits prod.splits)
    apply (intro conjI impI allI)
    using c i apply (metis loopWorld_simps agentLog_sent)+
    done
qed

lemma executeToolCalls_sent:
  "aw_sent (loopWorld (executeToolCalls env registry ids toolCalls msgs w)) = aw_sent w"
proof (induction toolCalls arbitrary: msgs w)
  case Nil
  then show ?case by simp
next
  case (Cons toolCall toolCalls)
  show ?case
  proof (cases "executeToolCall env registry ids toolCall w")
    case (Inl p)
    then show ?thesis
      using executeToolCall_sent [of env registry ids toolCall w] by (cases p) simp
  next
    case (Inr p)
    then show ?thesis
      using executeToolCall_sent [of env registry ids toolCall w] Cons.IH
      by (cases p) simp
  qed
qed

lemma toolLoop_sent:
  "aw_sent (loopWorld (toolLoop env registry ids tools maxIterations iterations msgs w)) = aw_sent w"
proof (induction env registry ids tools maxIterations iterations msgs w rule: toolLoop.induct)
  case (1 env registry ids tools maxIterations iterations currentMessages w)
  let ?ts = "if length tools > 0 then Some tools else None"
  show ?case
  proof (cases "iterations < maxIterations")
    case False
    then show ?thesis
      using llmChat_sent [of env currentMessages None w]
      by (subst toolLoop.simps) (auto split: sum.splits)
  next
    case True
    have cw: "aw_sent (loopWorld (llmChat env currentMessages ?ts w)) = aw_sent w"
      by (rule llmChat_sent)
    show ?thesis
    proof (cases "llmChat env currentMessages ?ts w")
      case (Inl p)
      obtain e w1 where p: "p = (e, w1)" by (cases p)
      have "toolLoop env registry ids tools maxIterations iterations currentMessages w = Inl (e, w1)"
        using True Inl p by (subst toolLoop.simps) simp
      with cw Inl p show ?thesis by simp
    next
      case (Inr p)
      obtain result w1 where p: "p = (result, w1)" by (cases p)
      have c1: "aw_sent w1 = aw_sent w"
        using cw Inr p by simp
      show ?thesis
      proof (cases "lr_toolCalls result = None \<or> lr_toolCalls result = Some []")
        case True': True
        have "toolLoop env registry ids tools maxIterations iterations currentMessages w
              = Inr (lr_content result, w1)"
          using True Inr p True' by (subst toolLoop.simps) auto
        with c1 show ?thesis by simp
      next
        case False
        then obtain toolCalls where tc: "lr_toolCalls result = Some toolCalls" "length toolCalls \<noteq> 0"
          by (cases "lr_toolCalls result") auto
        let ?x = "executeToolCalls env registry ids toolCalls
                    (currentMessages @ [\<lparr> cm_role = assistant, cm_content = lr_content result,
                                           cm_toolCallId = None \<rparr>]) w1"
        have cx: "aw_sent (loopWorld ?x) = aw_sent w1"
          by (rule executeToolCalls_sent)
        show ?thesis
        proof (cases ?x)
          case (Inl q)
          obtain e w2 where q: "q = (e, w2)" by (cases q)
          have "toolLoop env registry ids tools maxIterations iterations currentMessages w = Inl (e, w2)"
            using True Inr p tc Inl q by (subst toolLoop.simps) simp
          with cx Inl q c1 show ?thesis by simp
        next
          case Inr2: (Inr q)
          obtain messages' w2 where q: "q = (messages', w2)" by (cases q)
          have t: "toolLoop env registry ids tools maxIterations iterations currentMessages w
                 = toolLoop env registry ids tools maxIterations (iterations + 1) messages' w2"
            using True Inr p tc Inr2 q by (subst toolLoop.simps) simp
          note IH = "1.IH" [OF True Inr p [symmetric] tc(1) _ Inr2 q [symmetric]]
          have "length toolCalls \<noteq> 0" by (rule tc(2))
          from IH [OF this] cx Inr2 q c1 show ?thesis
            unfolding t by simp
        qed
      qed
    qed
  qed
qed

declare verificationLoop.simps [simp del]

lemma pipelineLog_fields [simp]:
  "pw_store (pipelineLog env ev t c v d w) = pw_store w"
  "pw_appends (pipelineLog env ev t c v d w) = pw_appends w"
  "aw_sent (pw_agent (pipelineLog env ev t c v d w)) = aw_sent (pw_agent w)"
  "aw_calls (pw_agent (pipelineLog env ev t c v d w)) = aw_calls (pw_agent w)"
  by (simp_all add: pipelineLog_def)

lemma updatePhase_fields [simp]:
  "pw_store (updatePhase env t ph r w) = pw_store w"
  "pw_appends (updatePhase env t ph r w) = pw_appends w"
  "pw_agent (updatePhase env t ph r w) = pw_agent w"
  by (simp_all add: updatePhase_def)

lemma historyAdd_fields [simp]:
  "pw_store (historyAdd env c v m md w)
     = addMessage (pe_history env) (pe_append env (pw_appends w)) c v m md (pw_store w)"
  "pw_appends (historyAdd env c v m md w) = Suc (pw_appends w)"
  "pw_agent (historyAdd env c v m md w) = pw_agent w"
  by (simp_all add: historyAdd_def)

lemma withAgent_fields:
  "pw_store (stepWorld (withAgent f w)) = pw_store w"
  "pw_appends (stepWorld (withAgent f w)) = pw_appends w"
  "pw_agent (stepWorld (withAgent f w)) = loopWorld (f (pw_agent w))"
  by (auto simp: withAgent_def stepWorld_def loopWorld_def split: sum.splits prod.splits)

lemma verificationLoop_frame:
  "pw_store (stepWorld (verificationLoop env cfg request c v history maxRetries attemptNo cur fb w)) = pw_store w
   \<and> pw_appends (stepWorld (verificationLoop env cfg request c v history maxRetries attemptNo cur fb w)) = pw_appends w
   \<and> aw_sent (pw_agent (stepWorld (verificationLoop env cfg request c v history maxRetries attemptNo cur fb w)))
       = aw_sent (pw_agent w)
   \<and> (\<exists>more. aw_calls (pw_agent (stepWorld (verificationLoop env cfg request c v history maxRetries attemptNo cur fb w)))
       = aw_calls (pw_agent w) @ more)"
proof (induction env cfg request c v history maxRetries attemptNo cur fb w rule: verificationLoop.induct)
  case (1 env cfg request channelId conversationId history maxRetries attemptNo currentResponse cumulativeFeedback w)
  show ?case
  proof (cases "attemptNo < maxRetries")
    case False
    then show ?thesis by (subst (1 2 3 4) verificationLoop.simps) simp
  next
    case True
    let ?result = "pe_verify env (pw_verifications w) request currentResponse (map cm_content history) attemptNo"
    let ?w1 = "w\<lparr> pw_verifications := Suc (pw_verifications w) \<rparr>"
    let ?w2 = "pipelineLog env verification_result [] channelId conversationId
                 (verificationData attemptNo ?result) ?w1"
    have w2: "pw_store ?w2 = pw_store w" "pw_appends ?w2 = pw_appends w"
      "aw_sent (pw_agent ?w2) = aw_sent (pw_agent w)" "aw_calls (pw_agent ?w2) = aw_calls (pw_agent w)"
      by simp_all
    show ?thesis
    proof (cases "passed ?result")
      case p: True
      have "verificationLoop env cfg request channelId conversationId history maxRetries attemptNo
              currentResponse cumulativeFeedback w = Inr (currentResponse, ?w2)"
        using True p by (subst verificationLoop.simps) (simp add: Let_def)
      then show ?thesis using w2 by simp
    next
      case np: False
      let ?fb = "cumulativeFeedback @ [CHR 0x0A] @ ''Attempt '' @
                   numberToString (int attemptNo + 1) @ '' feedback: '' @ feedback ?result"
      let ?messages = "retryMessages cfg history currentResponse ?result ?fb"
      let ?chat = "withAgent (llmChat (pe_agent env) ?messages None) ?w2"
      have ch: "pw_store (stepWorld ?chat) = pw_store w" "pw_appends (stepWorld ?chat) = pw_appends w"
        "aw_sent (pw_agent (stepWorld ?chat)) = aw_sent (pw_agent w)"
        "aw_calls (pw_agent (stepWorld ?chat)) = aw_calls (pw_agent w) @ [Chat ?messages None]"
        using w2 by (simp_all add: withAgent_fields llmChat_sent llmChat_world)
      have unfold: "verificationLoop env cfg request channelId conversationId history maxRetries attemptNo
              currentResponse cumulativeFeedback w
            = (case ?chat of
                 Inl e \<Rightarrow> Inl e
               | Inr (newResult, w3) \<Rightarrow>
                   verificationLoop env cfg request channelId conversationId history maxRetries
                     (attemptNo + 1) (lr_content newResult) ?fb w3)"
        by (subst verificationLoop.simps) (simp only: True np Let_def if_True if_False)
      show ?thesis
      proof (cases ?chat)
        case (Inl q)
        obtain e w3 where q: "q = (e, w3)" by (cases q)
        from ch have w3: "pw_store w3 = pw_store w" "pw_appends w3 = pw_appends w"
          "aw_sent (pw_agent w3) = aw_sent (pw_agent w)"
          "aw_calls (pw_agent w3) = aw_calls (pw_agent w) @ [Chat ?messages None]"
          unfolding Inl q by simp_all
        show ?thesis
          unfolding unfold Inl q using w3 by simp
      next
        case (Inr q)
        obtain newResult w3 where q: "q = (newResult, w3)" by (cases q)
        from ch have w3: "pw_store w3 = pw_store w" "pw_appends w3 = pw_appends w"
          "aw_sent (pw_agent w3) = aw_sent (pw_agent w)"
          "aw_calls (pw_agent w3) = aw_calls (pw_agent w) @ [Chat ?messages None]"
          unfolding Inr q by simp_all
        note IH = "1.IH" [OF True refl refl refl np refl refl Inr q [symmetric]]
        have t: "verificationLoop env cfg request channelId conversationId history maxRetries attemptNo
              currentResponse cumulativeFeedback w
            = verificationLoop env cfg request channelId conversationId history maxRetries
                (attemptNo + 1) (lr_content newResult) ?fb w3"
          unfolding unfold Inr q by simp
        from IH w3 show ?thesis
          unfolding t by auto
      qed
    qed
  qed
qed

lemma pipelineSend_fields:
  "pw_store (pipelineWorld (pipelineSend env c v m w)) = pw_store w"
  "aw_calls (pw_agent (pipelineWorld (pipelineSend env c v m w))) = aw_calls (pw_agent w)"
  "pipelineSend env c v m w = Inr w' \<Longrightarrow>
     aw_sent (pw_agent w') = aw_sent (pw_agent w) @
       [\<lparr> sr_channelId = c, sr_conversationId = v, sr_message = m, sr_error = None \<rparr>]"
  by (auto simp: pipelineSend_def agentSend_def attempt_def pipelineWorld_def Let_def
           split: sum.splits prod.splits option.splits)

lemma runPipeline_outcome:
  assumes ch: "getChannel (ag_channels (pe_agent env)) (nm_channelId message) = Some channelType"
  shows "(\<exists>more. aw_calls (pw_agent (pipelineWorld (runPipeline env cfg registry message w)))
            = aw_calls (pw_agent w) @
                Chat (\<lparr> cm_role = system, cm_content = cfg_systemPrompt cfg, cm_toolCallId = None \<rparr> #
                        getMessages (pe_history env)
                          (addMessage (pe_history env) (pe_append env (pw_appends w))
                             (nm_channelId message) (nm_conversationId message)
                             \<lparr> cm_role = user, cm_content = nm_text message, cm_toolCallId = None \<rparr>
                             (Some \<lparr> md_senderId = Some (nm_senderId message),
                                      md_platformMessageId = nm_platformMessageId message,
                                      md_taskId = None \<rparr>) (pw_store w))
                          (nm_channelId message) (nm_conversationId message) None)
                  (if length (pe_mcpTools env @ skillTools registry (pe_skillNames env)) > 0
                   then Some (pe_mcpTools env @ skillTools registry (pe_skillNames env)) else None)
                # more)
       \<and> (pw_store (pipelineWorld (runPipeline env cfg registry message w))
            = addMessage (pe_history env) (pe_append env (pw_appends w))
                (nm_channelId message) (nm_conversationId message)
                \<lparr> cm_role = user, cm_content = nm_text message, cm_toolCallId = None \<rparr>
                (Some \<lparr> md_senderId = Some (nm_senderId message),
                         md_platformMessageId = nm_platformMessageId message,
                         md_taskId = None \<rparr>) (pw_store w)
          \<or> (\<exists>response.
                pw_store (pipelineWorld (runPipeline env cfg registry message w))
                  = addMessage (pe_history env) (pe_append env (Suc (pw_appends w)))
                      (nm_channelId message) (nm_conversationId message)
                      \<lparr> cm_role = assistant, cm_content = response, cm_toolCallId = None \<rparr> None
                      (addMessage (pe_history env) (pe_append env (pw_appends w))
                         (nm_channelId message) (nm_conversationId message)
                         \<lparr> cm_role = user, cm_content = nm_text message, cm_toolCallId = None \<rparr>
                         (Some \<lparr> md_senderId = Some (nm_senderId message),
                                  md_platformMessageId = nm_platformMessageId message,
                                  md_taskId = None \<rparr>) (pw_store w))))
       \<and> (\<forall>w'. runPipeline env cfg registry message w = Inr w' \<longrightarrow>
             (\<exists>response.
                aw_sent (pw_agent w') = aw_sent (pw_agent w) @
                  [\<lparr> sr_channelId = nm_channelId message, sr_conversationId = nm_conversationId message,
                     sr_message = \<lparr> om_text = response,
                                    om_replyToMessageId = nm_platformMessageId message \<rparr>,
                     sr_error = None \<rparr>]
                \<and> pw_store w'
                  = addMessage (pe_history env) (pe_append env (Suc (pw_appends w)))
                      (nm_channelId message) (nm_conversationId message)
                      \<lparr> cm_role = assistant, cm_content = response, cm_toolCallId = None \<rparr> None
                      (addMessage (pe_history env) (pe_append env (pw_appends w))
                         (nm_channelId message) (nm_conversationId message)
                         \<lparr> cm_role = user, cm_content = nm_text message, cm_toolCallId = None \<rparr>
                         (Some \<lparr> md_senderId = Some (nm_senderId message),
                                  md_platformMessageId = nm_platformMessageId message,
                                  md_taskId = None \<rparr>) (pw_store w))))"
proof -
  let ?taskId = "nm_id message"
  let ?c = "nm_channelId message"
  let ?v = "nm_conversationId message"
  let ?stored = "addMessage (pe_history env) (pe_append env (pw_appends w)) ?c ?v
                   \<lparr> cm_role = user, cm_content = nm_text message, cm_toolCallId = None \<rparr>
                   (Some \<lparr> md_senderId = Some (nm_senderId message),
                            md_platformMessageId = nm_platformMessageId message,
                            md_taskId = None \<rparr>) (pw_store w)"
  let ?w1 = "pipelineLog env pipeline_started ?taskId ?c ?v [] w"
  let ?w2 = "updatePhase env ?taskId history_written None ?w1"
  let ?w3 = "historyAdd env ?c ?v
               \<lparr> cm_role = user, cm_content = nm_text message, cm_toolCallId = None \<rparr>
               (Some \<lparr> md_senderId = Some (nm_senderId message),
                        md_platformMessageId = nm_platformMessageId message,
                        md_taskId = None \<rparr>) ?w2"
  let ?w4 = "pipelineLog env history_appended ?taskId ?c ?v [(''role'', ''user'')] ?w3"
  let ?history = "getMessages (pe_history env) (pw_store ?w4) ?c ?v None"
  let ?messages = "\<lparr> cm_role = system, cm_content = cfg_systemPrompt cfg, cm_toolCallId = None \<rparr> # ?history"
  let ?allTools = "pe_mcpTools env @ skillTools registry (pe_skillNames env)"
  let ?w5 = "updatePhase env ?taskId llm_calling None ?w4"
  let ?w6 = "pipelineLog env llm_call_started ?taskId ?c ?v [] ?w5"
  let ?loop = "runToolLoop (pe_agent env) registry
                 \<lparr> ti_taskId = ?taskId, ti_channelId = ?c, ti_conversationId = ?v \<rparr> ?messages ?allTools 10"
  let ?R = "withAgent ?loop ?w6"
  let ?vc = "channelVerification cfg channelType"
  let ?V = "\<lambda>firstResponse w7.
              (if shouldVerify (nm_text message) firstResponse ?vc
               then runVerificationLoop env cfg (nm_text message) firstResponse ?c ?v ?history ?vc
                      (pipelineLog env verification_started ?taskId ?c ?v []
                         (updatePhase env ?taskId verifying (Some firstResponse)
                            (pipelineLog env llm_call_completed ?taskId ?c ?v [] w7)))
               else Inr (firstResponse, pipelineLog env llm_call_completed ?taskId ?c ?v [] w7))"
  let ?w13 = "\<lambda>response w9.
                (pipelineLog env history_appended ?taskId ?c ?v [(''role'', ''assistant'')]
                   (historyAdd env ?c ?v
                      \<lparr> cm_role = assistant, cm_content = response, cm_toolCallId = None \<rparr> None
                      (updatePhase env ?taskId responding (Some response) w9)))
                \<lparr> pw_lastResponses :=
                     (pw_lastResponses
                        (pipelineLog env history_appended ?taskId ?c ?v [(''role'', ''assistant'')]
                           (historyAdd env ?c ?v
                              \<lparr> cm_role = assistant, cm_content = response, cm_toolCallId = None \<rparr> None
                              (updatePhase env ?taskId responding (Some response) w9))))
                       (?c @ '':'' @ ?v \<mapsto> response) \<rparr>"
  let ?S = "\<lambda>response w9. pipelineSend env ?c ?v
              \<lparr> om_text = response, om_replyToMessageId = nm_platformMessageId message \<rparr>
              (?w13 response w9)"
  have P: "runPipeline env cfg registry message w =
      (case ?R of
         Inl e \<Rightarrow> Inl e
       | Inr (firstResponse, w7) \<Rightarrow>
           (case ?V firstResponse w7 of
              Inl e \<Rightarrow> Inl e
            | Inr (response, w9) \<Rightarrow>
                (case ?S response w9 of
                   Inl e \<Rightarrow> Inl e
                 | Inr w14 \<Rightarrow>
                     Inr (pipelineLog env task_completed ?taskId ?c ?v []
                            (pipelineLog env response_sent ?taskId ?c ?v [] w14)))))"
    unfolding runPipeline_def by (simp only: ch option.case Let_def)
  have w6: "pw_store ?w6 = ?stored" "pw_appends ?w6 = Suc (pw_appends w)"
    "aw_calls (pw_agent ?w6) = aw_calls (pw_agent w)" "aw_sent (pw_agent ?w6) = aw_sent (pw_agent w)"
    by simp_all
  have hist: "?history = getMessages (pe_history env) ?stored ?c ?v None"
    by simp
  obtain more1 where R_calls:
    "aw_calls (pw_agent (stepWorld ?R)) = aw_calls (pw_agent w) @
       Chat ?messages (if length ?allTools > 0 then Some ?allTools else None) # more1"
    using toolLoop_first_call [of "pe_agent env" registry
            "\<lparr> ti_taskId = ?taskId, ti_channelId = ?c, ti_conversationId = ?v \<rparr>" ?allTools 10 0
            ?messages "pw_agent ?w6"]
    unfolding withAgent_fields runToolLoop_def w6 by auto
  have R_frame: "pw_store (stepWorld ?R) = ?stored" "pw_appends (stepWorld ?R) = Suc (pw_appends w)"
    "aw_sent (pw_agent (stepWorld ?R)) = aw_sent (pw_agent w)"
    unfolding withAgent_fields w6 by (simp_all add: runToolLoop_def toolLoop_sent)
  show ?thesis
  proof (cases ?R)
    case (Inl q)
    obtain e w7 where q: "q = (e, w7)" by (cases q)
    have out: "runPipeline env cfg registry message w = Inl (e, w7)"
      unfolding P Inl q by simp
    from R_calls R_frame have "aw_calls (pw_agent w7) = aw_calls (pw_agent w) @
       Chat ?messages (if length ?allTools > 0 then Some ?allTools else None) # more1"
      "pw_store w7 = ?stored"
      unfolding Inl q by simp_all
    then show ?thesis
      unfolding out hist by simp
  next
    case (Inr q)
    obtain firstResponse w7 where q: "q = (firstResponse, w7)" by (cases q)
    from R_calls R_frame have w7: "aw_calls (pw_agent w7) = aw_calls (pw_agent w) @
       Chat ?messages (if length ?allTools > 0 then Some ?allTools else None) # more1"
      "pw_store w7 = ?stored" "pw_appends w7 = Suc (pw_appends w)"
      "aw_sent (pw_agent w7) = aw_sent (pw_agent w)"
      unfolding Inr q by simp_all
    have V_frame: "pw_store (stepWorld (?V firstResponse w7)) = ?stored
       \<and> pw_appends (stepWorld (?V firstResponse w7)) = Suc (pw_appends w)
       \<and> aw_sent (pw_agent (stepWorld (?V firstResponse w7))) = aw_sent (pw_agent w)
       \<and> (\<exists>more. aw_calls (pw_agent (stepWorld (?V firstResponse w7)))
              = aw_calls (pw_agent w) @
                  Chat ?messages (if length ?allTools > 0 then Some ?allTools else None) # more)"
    proof (cases "shouldVerify (nm_text message) firstResponse ?vc")
      case False
      then show ?thesis using w7 by simp
    next
      case True
      let ?w = "pipelineLog env verification_started ?taskId ?c ?v []
                  (updatePhase env ?taskId verifying (Some firstResponse)
                     (pipelineLog env llm_call_completed ?taskId ?c ?v [] w7))"
      have "pw_store ?w = ?stored" "pw_appends ?w = Suc (pw_appends w)"
        "aw_sent (pw_agent ?w) = aw_sent (pw_agent w)"
        "aw_calls (pw_agent ?w) = aw_calls (pw_agent w) @
           Chat ?messages (if length ?allTools > 0 then Some ?allTools else None) # more1"
        using w7 by simp_all
      with True show ?thesis
        using verificationLoop_frame [of env cfg "nm_text message" ?c ?v ?history "vc_maxRetries ?vc" 0
                firstResponse "[]" ?w]
        by (auto simp: runVerificationLoop_def)
    qed
    show ?thesis
    proof (cases "?V firstResponse w7")
      case Inl2: (Inl p)
      obtain e w9 where p: "p = (e, w9)" by (cases p)
      have out: "runPipeline env cfg registry message w = Inl (e, w9)"
        unfolding P Inr q using Inl2 p by simp
      from V_frame obtain more2 where "pw_store w9 = ?stored \<or> False"
        "aw_calls (pw_agent w9) = aw_calls (pw_agent w) @
           Chat ?messages (if length ?allTools > 0 then Some ?allTools else None) # more2"
        unfolding Inl2 p by auto
      then show ?thesis
        unfolding out hist by auto
    next
      case Inr2: (Inr p)
      obtain response w9 where p: "p = (response, w9)" by (cases p)
      from V_frame obtain more2 where w9: "pw_store w9 = ?stored" "pw_appends w9 = Suc (pw_appends w)"
        "aw_sent (pw_agent w9) = aw_sent (pw_agent w)"
        "aw_calls (pw_agent w9) = aw_calls (pw_agent w) @
           Chat ?messages (if length ?allTools > 0 then Some ?allTools else None) # more2"
        unfolding Inr2 p by auto
      let ?added = "addMessage (pe_history env) (pe_append env (Suc (pw_appends w))) ?c ?v
                      \<lparr> cm_role = assistant, cm_content = response, cm_toolCallId = None \<rparr> None ?stored"
      have w13: "pw_store (?w13 response w9) = ?added"
        "aw_sent (pw_agent (?w13 response w9)) = aw_sent (pw_agent w)"
        "aw_calls (pw_agent (?w13 response w9)) = aw_calls (pw_agent w) @
           Chat ?messages (if length ?allTools > 0 then Some ?allTools else None) # more2"
        using w9 by simp_all
      have S: "pw_store (pipelineWorld (?S response w9)) = ?added"
        "aw_calls (pw_agent (pipelineWorld (?S response w9))) = aw_calls (pw_agent w) @
           Chat ?messages (if length ?allTools > 0 then Some ?allTools else None) # more2"
        unfolding pipelineSend_fields w13 by simp_all
      show ?thesis
      proof (cases "?S response w9")
        case Inl3: (Inl r)
        obtain e w14 where r: "r = (e, w14)" by (cases r)
        have out: "runPipeline env cfg registry message w = Inl (e, w14)"
          unfolding P Inr q using Inr2 p Inl3 r by simp
        from S have "pw_store w14 = ?added"
          "aw_calls (pw_agent w14) = aw_calls (pw_agent w) @
             Chat ?messages (if length ?allTools > 0 then Some ?allTools else None) # more2"
          unfolding Inl3 r by simp_all
        then show ?thesis
          unfolding out hist by auto
      next
        case Inr3: (Inr w14)
        have out: "runPipeline env cfg registry message w
                     = Inr (pipelineLog env task_completed ?taskId ?c ?v []
                              (pipelineLog env response_sent ?taskId ?c ?v [] w14))"
          unfolding P Inr q using Inr2 p Inr3 by simp
        have sent: "aw_sent (pw_agent w14) = aw_sent (pw_agent w) @
            [\<lparr> sr_channelId = ?c, sr_conversationId = ?v,
               sr_message = \<lparr> om_text = response, om_replyToMessageId = nm_platformMessageId message \<rparr>,
               sr_error = None \<rparr>]"
          using pipelineSend_fields(3) [OF Inr3] w13 by simp
        from S have "pw_store w14 = ?added"
          "aw_calls (pw_agent w14) = aw_calls (pw_agent w) @
             Chat ?messages (if length ?allTools > 0 then Some ?allTools else None) # more2"
          unfolding Inr3 by simp_all
        with sent show ?thesis
          unfolding out hist by auto
      qed
    qed
  qed
qed

lemma runPipeline_plain:
  assumes ch: "getChannel (ag_channels (pe_agent env)) (nm_channelId message) = Some channelType"
      and chat: "ag_chat (pe_agent env) (length (aw_calls (pw_agent w)))
                   (\<lparr> cm_role = system, cm_content = cfg_systemPrompt cfg, cm_toolCallId = None \<rparr> #
                      getMessages (pe_history env)
                        (addMessage (pe_history env) (pe_append env (pw_appends w))
                           (nm_channelId message) (nm_conversationId message)
                           \<lparr> cm_role = user, cm_content = nm_text message, cm_toolCallId = None \<rparr>
                           (Some \<lparr> md_senderId = Some (nm_senderId message),
                                    md_platformMessageId = nm_platformMessageId message,
                                    md_taskId = None \<rparr>) (pw_store w))
                        (nm_channelId message) (nm_conversationId message) None)
                   (if length (pe_mcpTools env @ skillTools registry (pe_skillNames env)) > 0
                    then Some (pe_mcpTools env @ skillTools registry (pe_skillNames env)) else None)
                 = Inr result"
      and plain: "lr_toolCalls result = None \<or> lr_toolCalls result = Some []"
      and nv: "\<not> shouldVerify (nm_text message) (lr_content result) (channelVerification cfg channelType)"
      and sent: "sendMessage (ag_channels (pe_agent env)) (length (aw_sent (pw_agent w)))
                   (nm_channelId message) (nm_conversationId message)
                   \<lparr> om_text = lr_content result,
                      om_replyToMessageId = nm_platformMessageId message \<rparr> = None"
  shows "\<exists>w'. runPipeline env cfg registry message w = Inr w'
            \<and> aw_sent (pw_agent w') = aw_sent (pw_agent w) @
                  [\<lparr> sr_channelId = nm_channelId message, sr_conversationId = nm_conversationId message,
                     sr_message = \<lparr> om_text = lr_content result,
                                    om_replyToMessageId = nm_platformMessageId message \<rparr>,
                     sr_error = None \<rparr>]"
  using assms
  by (auto simp: runPipeline_def Let_def withAgent_def runToolLoop_def toolLoop.simps llmChat_def
        pipelineSend_def agentSend_def attempt_def)



end
